(* ===== verification/Prelude.thy ===== *)
theory Prelude
  imports Complex_Main "HOL-Library.List_Lexorder" "HOL-Library.Char_ord" "HOL-Library.Sublist"
begin

text \<open>
  What every other theory builds on: Python's exceptions and the outcomes of a call, the
  state-and-exception programs the code's functions become (sequencing, \<open>try/except\<close>,
  \<open>try/finally\<close>, \<open>for\<close> loops), two ways of reasoning about them (a weakest precondition, and
  relations between the states before and after that a program keeps), and the Python string,
  list and JSON operations the code uses.
\<close>

section \<open>Exceptions and outcomes\<close>

text \<open>
  The exception classes the code names. \<open>VaultErr n\<close> stands for the other subclasses of hvac's
  \<open>VaultError\<close> and \<open>OtherExc n\<close> for every other subclass of \<open>Exception\<close>, both by class name.
\<close>

datatype exn_class =
    ValueError | KeyError | TypeError | AttributeError | RuntimeError | AssertionError
  | IntegrityError | OSError | PermissionError
  | Forbidden | InvalidRequest | InvalidPath | VaultDown | VaultErr string
  | VaultUnavailable | Busy | NotFound | HTTPException nat | NotAuthenticated
  | ValidationError | SystemExit | KeyboardInterrupt | OtherExc string

datatype exn = Exn (exc_class: exn_class) (exc_msg: string)

fun class_name :: "exn_class \<Rightarrow> string" where
  "class_name ValueError = ''ValueError''"
| "class_name KeyError = ''KeyError''"
| "class_name TypeError = ''TypeError''"
| "class_name AttributeError = ''AttributeError''"
| "class_name RuntimeError = ''RuntimeError''"
| "class_name AssertionError = ''AssertionError''"
| "class_name IntegrityError = ''IntegrityError''"
| "class_name OSError = ''OSError''"
| "class_name PermissionError = ''PermissionError''"
| "class_name Forbidden = ''Forbidden''"
| "class_name InvalidRequest = ''InvalidRequest''"
| "class_name InvalidPath = ''InvalidPath''"
| "class_name VaultDown = ''VaultDown''"
| "class_name (VaultErr n) = n"
| "class_name VaultUnavailable = ''VaultUnavailable''"
| "class_name Busy = ''Busy''"
| "class_name NotFound = ''NotFound''"
| "class_name (HTTPException _) = ''HTTPException''"
| "class_name NotAuthenticated = ''NotAuthenticated''"
| "class_name ValidationError = ''ValidationError''"
| "class_name SystemExit = ''SystemExit''"
| "class_name KeyboardInterrupt = ''KeyboardInterrupt''"
| "class_name (OtherExc n) = n"

text \<open>\<open>type(exc).__name__\<close>, and the \<open>isinstance\<close> tests of the code's \<open>except\<close> clauses.\<close>

definition type_name :: "exn \<Rightarrow> string" where
  "type_name e = class_name (exc_class e)"

definition is_exception :: "exn \<Rightarrow> bool" where
  "is_exception e \<longleftrightarrow> exc_class e \<noteq> SystemExit \<and> exc_class e \<noteq> KeyboardInterrupt"

definition is_value_error :: "exn \<Rightarrow> bool" where
  "is_value_error e \<longleftrightarrow> exc_class e = ValueError \<or> exc_class e = ValidationError"

definition is_vault_error :: "exn \<Rightarrow> bool" where
  "is_vault_error e \<longleftrightarrow>
     (case exc_class e of Forbidden \<Rightarrow> True | InvalidRequest \<Rightarrow> True | InvalidPath \<Rightarrow> True
      | VaultDown \<Rightarrow> True | VaultErr _ \<Rightarrow> True | _ \<Rightarrow> False)"

definition is_os_error :: "exn \<Rightarrow> bool" where
  "is_os_error e \<longleftrightarrow> exc_class e = OSError \<or> exc_class e = PermissionError"

text \<open>
  How a call can end: it returns, it raises, the process is killed in the middle of it (nothing
  more runs, no handler and no \<open>finally\<close>), or a loop has used up the rounds the model gives it.
\<close>

datatype 'a outcome = Ret 'a | Raise exn | Halt | Diverge

type_synonym ('s, 'a) prog = "'s \<Rightarrow> 'a outcome \<times> 's"

section \<open>Programs\<close>

definition ret :: "'a \<Rightarrow> ('s, 'a) prog" where
  "ret x s = (Ret x, s)"

definition raise :: "exn \<Rightarrow> ('s, 'a) prog" where
  "raise e s = (Raise e, s)"

definition halt :: "('s, 'a) prog" where
  "halt s = (Halt, s)"

definition diverge :: "('s, 'a) prog" where
  "diverge s = (Diverge, s)"

text \<open>A computation without effects that may raise, as a value; run as a program.\<close>

definition lift :: "exn + 'a \<Rightarrow> ('s, 'a) prog" where
  "lift r s = (case r of Inl e \<Rightarrow> (Raise e, s) | Inr x \<Rightarrow> (Ret x, s))"

fun sbind :: "exn + 'a \<Rightarrow> ('a \<Rightarrow> exn + 'b) \<Rightarrow> exn + 'b" where
  "sbind (Inl e) f = Inl e"
| "sbind (Inr x) f = f x"

definition gets :: "('s \<Rightarrow> 'a) \<Rightarrow> ('s, 'a) prog" where
  "gets f s = (Ret (f s), s)"

definition modify :: "('s \<Rightarrow> 's) \<Rightarrow> ('s, unit) prog" where
  "modify f s = (Ret (), f s)"

abbreviation skip :: "('s, unit) prog" where
  "skip \<equiv> ret ()"

definition bindM :: "('s, 'a) prog \<Rightarrow> ('a \<Rightarrow> ('s, 'b) prog) \<Rightarrow> ('s, 'b) prog" where
  "bindM m k s =
     (case m s of
        (Ret x, s') \<Rightarrow> k x s'
      | (Raise e, s') \<Rightarrow> (Raise e, s')
      | (Halt, s') \<Rightarrow> (Halt, s')
      | (Diverge, s') \<Rightarrow> (Diverge, s'))"

definition seqM :: "('s, 'a) prog \<Rightarrow> ('s, 'b) prog \<Rightarrow> ('s, 'b) prog" where
  "seqM m k = bindM m (\<lambda>_. k)"

text \<open>\<open>try: m except BaseException as e: h e\<close>, and with a test of the exception's class.\<close>

definition catchM :: "('s, 'a) prog \<Rightarrow> (exn \<Rightarrow> ('s, 'a) prog) \<Rightarrow> ('s, 'a) prog" where
  "catchM m h s =
     (case m s of
        (Ret x, s') \<Rightarrow> (Ret x, s')
      | (Raise e, s') \<Rightarrow> h e s'
      | (Halt, s') \<Rightarrow> (Halt, s')
      | (Diverge, s') \<Rightarrow> (Diverge, s'))"

definition try_except ::
  "('s, 'a) prog \<Rightarrow> (exn \<Rightarrow> bool) \<Rightarrow> (exn \<Rightarrow> ('s, 'a) prog) \<Rightarrow> ('s, 'a) prog" where
  "try_except m p h = catchM m (\<lambda>e. if p e then h e else raise e)"

text \<open>\<open>try: m finally: f\<close>. An exception of \<open>f\<close> replaces the one under way.\<close>

definition finallyM :: "('s, 'a) prog \<Rightarrow> ('s, unit) prog \<Rightarrow> ('s, 'a) prog" where
  "finallyM m f =
     bindM (catchM m (\<lambda>e. seqM f (raise e))) (\<lambda>x. seqM f (ret x))"

text \<open>\<open>for x in xs: f x\<close>.\<close>

primrec foreach :: "'a list \<Rightarrow> ('a \<Rightarrow> ('s, unit) prog) \<Rightarrow> ('s, unit) prog" where
  "foreach [] f = skip"
| "foreach (x # xs) f = seqM (f x) (foreach xs f)"

text \<open>A \<open>for\<close> loop that collects the values for which its body returns \<open>True\<close>.\<close>

primrec filterM :: "'a list \<Rightarrow> ('a \<Rightarrow> ('s, bool) prog) \<Rightarrow> ('s, 'a list) prog" where
  "filterM [] f = ret []"
| "filterM (x # xs) f = bindM (f x) (\<lambda>b. bindM (filterM xs f) (\<lambda>ys. ret (if b then x # ys else ys)))"

definition whenM :: "bool \<Rightarrow> ('s, unit) prog \<Rightarrow> ('s, unit) prog" where
  "whenM b m = (if b then m else skip)"

section \<open>Weakest preconditions\<close>

text \<open>
  \<open>wp m Q s\<close>: run from \<open>s\<close>, \<open>m\<close> ends in an outcome and a state that satisfy \<open>Q\<close>. The
  equations in \<open>wp_simps\<close> compute it through the program's structure.
\<close>

definition wp :: "('s, 'a) prog \<Rightarrow> ('a outcome \<Rightarrow> 's \<Rightarrow> bool) \<Rightarrow> 's \<Rightarrow> bool" where
  "wp m Q s = (case m s of (r, s') \<Rightarrow> Q r s')"

named_theorems wp_simps

text \<open>The continuation of a binding, as a postcondition.\<close>

fun on_ret :: "('a \<Rightarrow> 's \<Rightarrow> bool) \<Rightarrow> ('b outcome \<Rightarrow> 's \<Rightarrow> bool) \<Rightarrow> 'a outcome \<Rightarrow> 's \<Rightarrow> bool" where
  "on_ret K Q (Ret x) s = K x s"
| "on_ret K Q (Raise e) s = Q (Raise e) s"
| "on_ret K Q Halt s = Q Halt s"
| "on_ret K Q Diverge s = Q Diverge s"

fun on_raise :: "(exn \<Rightarrow> 's \<Rightarrow> bool) \<Rightarrow> ('a outcome \<Rightarrow> 's \<Rightarrow> bool) \<Rightarrow> 'a outcome \<Rightarrow> 's \<Rightarrow> bool" where
  "on_raise K Q (Ret x) s = Q (Ret x) s"
| "on_raise K Q (Raise e) s = K e s"
| "on_raise K Q Halt s = Q Halt s"
| "on_raise K Q Diverge s = Q Diverge s"

lemma wp_ret [wp_simps]: "wp (ret x) Q s = Q (Ret x) s"
  by (simp add: wp_def ret_def)

lemma wp_raise [wp_simps]: "wp (raise e) Q s = Q (Raise e) s"
  by (simp add: wp_def raise_def)

lemma wp_halt [wp_simps]: "wp halt Q s = Q Halt s"
  by (simp add: wp_def halt_def)

lemma wp_diverge [wp_simps]: "wp diverge Q s = Q Diverge s"
  by (simp add: wp_def diverge_def)

lemma wp_lift [wp_simps]:
  "wp (lift r) Q s = (case r of Inl e \<Rightarrow> Q (Raise e) s | Inr x \<Rightarrow> Q (Ret x) s)"
  by (simp add: wp_def lift_def split: sum.split)

lemma sbind_Inr: "sbind r f = Inr y \<longleftrightarrow> (\<exists>x. r = Inr x \<and> f x = Inr y)"
  by (cases r) auto

lemma sbind_Inl: "sbind r f = Inl e \<longleftrightarrow> r = Inl e \<or> (\<exists>x. r = Inr x \<and> f x = Inl e)"
  by (cases r) auto

lemma wp_gets [wp_simps]: "wp (gets f) Q s = Q (Ret (f s)) s"
  by (simp add: wp_def gets_def)

lemma wp_modify [wp_simps]: "wp (modify f) Q s = Q (Ret ()) (f s)"
  by (simp add: wp_def modify_def)

lemma wp_bindM [wp_simps]: "wp (bindM m k) Q s = wp m (on_ret (\<lambda>x. wp (k x) Q) Q) s"
  by (auto simp: wp_def bindM_def split: prod.splits outcome.splits)

lemma wp_seqM [wp_simps]: "wp (seqM m k) Q s = wp m (on_ret (\<lambda>_. wp k Q) Q) s"
  by (simp add: seqM_def wp_bindM)

lemma wp_catchM [wp_simps]: "wp (catchM m h) Q s = wp m (on_raise (\<lambda>e. wp (h e) Q) Q) s"
  by (auto simp: wp_def catchM_def split: prod.splits outcome.splits)

lemma wp_try_except [wp_simps]:
  "wp (try_except m p h) Q s =
     wp m (on_raise (\<lambda>e s. if p e then wp (h e) Q s else Q (Raise e) s) Q) s"
  by (auto simp: wp_def try_except_def catchM_def raise_def split: prod.splits outcome.splits)

lemma wp_finallyM [wp_simps]:
  "wp (finallyM m f) Q s =
     wp m (\<lambda>r s'. case r of
        Ret x \<Rightarrow> wp f (on_ret (\<lambda>_. Q (Ret x)) Q) s'
      | Raise e \<Rightarrow> wp f (on_ret (\<lambda>_. Q (Raise e)) Q) s'
      | Halt \<Rightarrow> Q Halt s' | Diverge \<Rightarrow> Q Diverge s') s"
  by (auto simp: wp_def finallyM_def bindM_def seqM_def catchM_def ret_def raise_def
      split: prod.splits outcome.splits)

lemma wp_whenM [wp_simps]: "wp (whenM b m) Q s = (if b then wp m Q s else Q (Ret ()) s)"
  by (simp add: whenM_def wp_ret)

lemma wp_if [wp_simps]: "wp (if b then m else k) Q s = (if b then wp m Q s else wp k Q s)"
  by simp

lemma wp_foreach_Nil [wp_simps]: "wp (foreach [] f) Q s = Q (Ret ()) s"
  by (simp add: wp_ret)

lemma wp_foreach_Cons [wp_simps]:
  "wp (foreach (x # xs) f) Q s = wp (f x) (on_ret (\<lambda>_. wp (foreach xs f) Q) Q) s"
  by (simp add: wp_seqM)

lemma bindM_assoc: "bindM (bindM m f) g = bindM m (\<lambda>x. bindM (f x) g)"
  by (auto simp: bindM_def fun_eq_iff split: prod.split outcome.split)

lemma seqM_assoc: "seqM (seqM m f) g = seqM m (seqM f g)"
  by (simp add: seqM_def bindM_assoc)

lemma wp_mono: "wp m P s \<Longrightarrow> (\<And>r s'. P r s' \<Longrightarrow> Q r s') \<Longrightarrow> wp m Q s"
  by (auto simp: wp_def split: prod.splits)

lemma wp_conj: "wp m P s \<Longrightarrow> wp m Q s \<Longrightarrow> wp m (\<lambda>r s'. P r s' \<and> Q r s') s"
  by (auto simp: wp_def split: prod.splits)

lemma wp_run: "wp m Q s \<Longrightarrow> m s = (r, s') \<Longrightarrow> Q r s'"
  by (simp add: wp_def)

lemma wp_intro: "(\<And>r s'. m s = (r, s') \<Longrightarrow> Q r s') \<Longrightarrow> wp m Q s"
  by (auto simp: wp_def split: prod.splits)

lemma wp_self: "wp m (\<lambda>r s'. m s = (r, s')) s"
  by (auto simp: wp_def split: prod.splits)

section \<open>Relations a program keeps\<close>

text \<open>
  \<open>keeps R m\<close>: whatever way \<open>m\<close> ends, the state it started in and the state it leaves are
  related by \<open>R\<close>. For a reflexive and transitive \<open>R\<close> (\<open>the locks are as they were\<close>, \<open>the audit
  table has only grown\<close>, \<open>P holds if it held before\<close>) this composes, whatever the control flow.
\<close>

definition keeps :: "('s \<Rightarrow> 's \<Rightarrow> bool) \<Rightarrow> ('s, 'a) prog \<Rightarrow> bool" where
  "keeps R m \<longleftrightarrow> (\<forall>s. R s (snd (m s)))"

lemma keepsI: "(\<And>s r s'. m s = (r, s') \<Longrightarrow> R s s') \<Longrightarrow> keeps R m"
  by (simp add: keeps_def) (metis prod.collapse)

lemma keepsD: "keeps R m \<Longrightarrow> m s = (r, s') \<Longrightarrow> R s s'"
  by (metis keeps_def snd_conv)

lemma keeps_mono: "keeps R m \<Longrightarrow> (\<And>s s'. R s s' \<Longrightarrow> R' s s') \<Longrightarrow> keeps R' m"
  by (simp add: keeps_def)

lemma wp_keeps: "keeps R m \<Longrightarrow> (\<And>r s'. R s s' \<Longrightarrow> Q r s') \<Longrightarrow> wp m Q s"
  by (auto simp: wp_def keeps_def split: prod.splits) (metis snd_conv)

lemma keeps_of_wp: "(\<And>s. wp m (\<lambda>r. R s) s) \<Longrightarrow> keeps R m"
  by (simp add: wp_def keeps_def case_prod_beta)

lemma keeps_modify: "(\<And>s. R s (f s)) \<Longrightarrow> keeps R (modify f)"
  by (simp add: keeps_def modify_def)

locale frame =
  fixes R :: "'s \<Rightarrow> 's \<Rightarrow> bool"
  assumes refl: "R s s"
    and trans: "R s t \<Longrightarrow> R t u \<Longrightarrow> R s u"
begin

lemma ret: "keeps R (Prelude.ret x)"
  by (simp add: keeps_def ret_def refl)

lemma raise: "keeps R (Prelude.raise e)"
  by (simp add: keeps_def raise_def refl)

lemma halt: "keeps R Prelude.halt"
  by (simp add: keeps_def halt_def refl)

lemma diverge: "keeps R Prelude.diverge"
  by (simp add: keeps_def diverge_def refl)

lemma lift: "keeps R (Prelude.lift r)"
  by (simp add: keeps_def lift_def refl split: sum.split)

lemma gets: "keeps R (Prelude.gets f)"
  by (simp add: keeps_def gets_def refl)

lemma bind: "keeps R m \<Longrightarrow> (\<And>x. keeps R (k x)) \<Longrightarrow> keeps R (bindM m k)"
  by (auto simp: keeps_def bindM_def split: prod.splits outcome.splits)
     (metis snd_conv trans)+

text \<open>The continuation has to keep \<open>R\<close> only for the values the first part can return.\<close>

lemma bind_returned:
  assumes "keeps R m" and "\<forall>s x s'. m s = (Ret x, s') \<longrightarrow> keeps R (k x)"
  shows "keeps R (bindM m k)"
proof (rule keepsI)
  fix s r s' assume run: "bindM m k s = (r, s')"
  obtain r1 s1 where m: "m s = (r1, s1)" by fastforce
  have "R s s1" using assms(1) m by (auto simp: keeps_def dest: spec [of _ s])
  then show "R s s'"
    using run m assms(2) trans [of s s1 s']
    by (cases r1) (auto simp: bindM_def keeps_def split: prod.splits, metis snd_conv)
qed

lemma seq: "keeps R m \<Longrightarrow> keeps R k \<Longrightarrow> keeps R (seqM m k)"
  by (simp add: seqM_def bind)

lemma catch: "keeps R m \<Longrightarrow> (\<And>e. keeps R (h e)) \<Longrightarrow> keeps R (catchM m h)"
  by (auto simp: keeps_def catchM_def split: prod.splits outcome.splits)
     (metis snd_conv trans)+

lemma try_exc: "keeps R m \<Longrightarrow> (\<And>e. keeps R (h e)) \<Longrightarrow> keeps R (try_except m p h)"
  by (simp add: try_except_def catch raise)

lemma fin: "keeps R m \<Longrightarrow> keeps R f \<Longrightarrow> keeps R (finallyM m f)"
  by (simp add: finallyM_def bind catch seq ret raise)

lemma when_: "keeps R m \<Longrightarrow> keeps R (whenM b m)"
  by (simp add: whenM_def ret)

lemma loop: "(\<And>x. keeps R (f x)) \<Longrightarrow> keeps R (foreach xs f)"
  by (induction xs) (simp_all add: ret seq)

lemma loop_filter: "(\<And>x. keeps R (f x)) \<Longrightarrow> keeps R (filterM xs f)"
  by (induction xs) (simp_all add: ret bind)

lemma cond: "keeps R m \<Longrightarrow> keeps R k \<Longrightarrow> keeps R (if b then m else k)"
  by simp

lemma option: "keeps R m \<Longrightarrow> (\<And>x. keeps R (k x)) \<Longrightarrow> keeps R (case v of None \<Rightarrow> m | Some x \<Rightarrow> k x)"
  by (simp split: option.split)

lemma pair: "(\<And>x y. keeps R (k x y)) \<Longrightarrow> keeps R (case v of (x, y) \<Rightarrow> k x y)"
  by (simp split: prod.split)

lemmas rules = ret raise halt diverge lift gets bind seq catch try_exc fin when_ loop loop_filter cond option pair

end

section \<open>Runs that return\<close>

text \<open>When a program returns, each of its parts has; the equivalences take a run apart.\<close>

named_theorems returned

lemma bindM_Ret [returned]:
  "bindM m k s = (Ret y, s') \<longleftrightarrow> (\<exists>x s1. m s = (Ret x, s1) \<and> k x s1 = (Ret y, s'))"
  by (auto simp: bindM_def split: prod.splits outcome.splits)

lemma seqM_Ret [returned]:
  "seqM m k s = (Ret y, s') \<longleftrightarrow> (\<exists>x s1. m s = (Ret x, s1) \<and> k s1 = (Ret y, s'))"
  by (simp add: seqM_def bindM_Ret)

lemma basic_Ret [returned]:
  "ret x s = (Ret y, s') \<longleftrightarrow> y = x \<and> s' = s" "raise e s = (Ret y, s') \<longleftrightarrow> False"
  "lift v s = (Ret y, s') \<longleftrightarrow> v = Inr y \<and> s' = s" "gets f s = (Ret y, s') \<longleftrightarrow> y = f s \<and> s' = s"
  "modify g s = (Ret u, s') \<longleftrightarrow> s' = g s"
  by (auto simp: ret_def raise_def lift_def gets_def modify_def split: sum.split)

lemma catchM_Ret [returned]:
  "catchM m h s = (Ret y, s') \<longleftrightarrow> m s = (Ret y, s') \<or> (\<exists>e s1. m s = (Raise e, s1) \<and> h e s1 = (Ret y, s'))"
  by (auto simp: catchM_def split: prod.splits outcome.splits)

lemma if_Ret [returned]: "(if b then m else k) s = (if b then m s else k s)"
  by simp

text \<open>Keeping a predicate: the instance that turns a state invariant into a frame.\<close>

definition stable :: "('s \<Rightarrow> bool) \<Rightarrow> 's \<Rightarrow> 's \<Rightarrow> bool" where
  "stable P s s' \<longleftrightarrow> (P s \<longrightarrow> P s')"

interpretation stable: frame "stable P" for P
  by unfold_locales (auto simp: stable_def)

end
