(* ===== verification/Python.thy ===== *)
theory Python
  imports Prelude
begin

text \<open>
  The parts of Python's standard library the code uses on strings, lists and JSON values. A string
  is a list of characters; \<open>char\<close> has the code points 0 to 255, so the functions that depend on
  the code point (\<open>strip\<close>, \<open>lower\<close>) are Python's on that range.
\<close>

section \<open>Characters\<close>

definition code :: "char \<Rightarrow> nat" where
  "code c = of_char c"

definition is_digit :: "char \<Rightarrow> bool" where
  "is_digit c \<longleftrightarrow> 48 \<le> code c \<and> code c \<le> 57"

definition is_lower :: "char \<Rightarrow> bool" where
  "is_lower c \<longleftrightarrow> 97 \<le> code c \<and> code c \<le> 122"

definition is_upper :: "char \<Rightarrow> bool" where
  "is_upper c \<longleftrightarrow> 65 \<le> code c \<and> code c \<le> 90"

definition is_alpha :: "char \<Rightarrow> bool" where
  "is_alpha c \<longleftrightarrow> is_lower c \<or> is_upper c"

definition is_space :: "char \<Rightarrow> bool" where
  "is_space c \<longleftrightarrow> 9 \<le> code c \<and> code c \<le> 13 \<or> 28 \<le> code c \<and> code c \<le> 32
     \<or> code c = 133 \<or> code c = 160"

lemmas char_class_defs = code_def is_digit_def is_lower_def is_upper_def is_alpha_def is_space_def

definition lower_char :: "char \<Rightarrow> char" where
  "lower_char c =
     (if is_upper c \<or> 192 \<le> code c \<and> code c \<le> 222 \<and> code c \<noteq> 215
      then char_of (code c + 32) else c)"

section \<open>Strings\<close>

text \<open>
  \<open>repr\<close> of a string (\<open>{s!r}\<close> in an f-string) and of a list of strings: single quotes unless the text holds a
  single quote and no double quote, escapes for the backslash, the quote and what is not printable.
\<close>

definition hex_digit :: "nat \<Rightarrow> char" where
  "hex_digit n = char_of (if n < 10 then 48 + n else 87 + n)"

definition repr_char :: "char \<Rightarrow> char \<Rightarrow> string" where
  "repr_char q c =
     (if c = q \<or> c = CHR 0x5C then [CHR 0x5C, c]
      else if code c = 10 then [CHR 0x5C, CHR ''n'']
      else if code c = 13 then [CHR 0x5C, CHR ''r'']
      else if code c = 9 then [CHR 0x5C, CHR ''t'']
      else if code c < 32 \<or> 127 \<le> code c \<and> code c \<le> 160 \<or> code c = 173
      then [CHR 0x5C, CHR ''x'', hex_digit (code c div 16), hex_digit (code c mod 16)]
      else [c])"

definition py_repr :: "string \<Rightarrow> string" where
  "py_repr s =
     (let q = (if CHR 0x27 \<in> set s \<and> CHR 0x22 \<notin> set s then CHR 0x22 else CHR 0x27)
      in q # concat (map (repr_char q) s) @ [q])"

definition lower :: "string \<Rightarrow> string" where
  "lower s = map lower_char s"

definition strip :: "string \<Rightarrow> string" where
  "strip s = rev (dropWhile is_space (rev (dropWhile is_space s)))"

text \<open>\<open>sub in s\<close>.\<close>

fun contains :: "string \<Rightarrow> string \<Rightarrow> bool" where
  "contains sub [] \<longleftrightarrow> sub = []"
| "contains sub (c # cs) \<longleftrightarrow> prefix sub (c # cs) \<or> contains sub cs"

text \<open>\<open>sep.join(xs)\<close>.\<close>

fun join :: "string \<Rightarrow> string list \<Rightarrow> string" where
  "join sep [] = []"
| "join sep [x] = x"
| "join sep (x # y # ys) = x @ sep @ join sep (y # ys)"

definition py_repr_list :: "string list \<Rightarrow> string" where
  "py_repr_list xs = ''['' @ join '', '' (map py_repr xs) @ '']''"

definition replace_char :: "char \<Rightarrow> char \<Rightarrow> string \<Rightarrow> string" where
  "replace_char a b s = map (\<lambda>c. if c = a then b else c) s"

text \<open>\<open>str(n)\<close> and \<open>int(s)\<close>.\<close>

fun show_nat :: "nat \<Rightarrow> string" where
  "show_nat n =
     (if n < 10 then [char_of (48 + n)] else show_nat (n div 10) @ [char_of (48 + n mod 10)])"

declare show_nat.simps [simp del]

definition show_int :: "int \<Rightarrow> string" where
  "show_int i = (if i < 0 then CHR ''-'' # show_nat (nat (- i)) else show_nat (nat i))"

fun int_digits :: "bool \<Rightarrow> int \<Rightarrow> string \<Rightarrow> int option" where
  "int_digits ok acc [] = (if ok then Some acc else None)"
| "int_digits ok acc (c # cs) =
     (if is_digit c then int_digits True (10 * acc + int (code c - 48)) cs
      else if c = CHR ''_'' \<and> ok then int_digits False acc cs
      else None)"

definition py_int :: "string \<Rightarrow> int option" where
  "py_int s =
     (case strip s of
        [] \<Rightarrow> None
      | c # cs \<Rightarrow>
          if c = CHR ''-'' then map_option uminus (int_digits False 0 cs)
          else if c = CHR ''+'' then int_digits False 0 cs
          else int_digits False 0 (c # cs))"

section \<open>Lists\<close>

text \<open>\<open>list(dict.fromkeys(xs))\<close>: the first occurrence of each element, in order.\<close>

definition fromkeys :: "'a list \<Rightarrow> 'a list" where
  "fromkeys xs = rev (remdups (rev xs))"

text \<open>The first element that fails a check raises; the loop's other effects are none.\<close>

fun first_error :: "('a \<Rightarrow> exn option) \<Rightarrow> 'a list \<Rightarrow> exn option" where
  "first_error f [] = None"
| "first_error f (x # xs) = (case f x of Some e \<Rightarrow> Some e | None \<Rightarrow> first_error f xs)"

section \<open>JSON values\<close>

datatype json =
    JNull | JBool bool | JInt int | JStr string
  | JArr "json list"
  | JObj "(string \<times> json) list"

text \<open>\<open>o[k]\<close>, \<open>o.get(k, d)\<close>, the truth value of \<open>o\<close>, and reading a string, an integer or a list of
  strings out of a value (Python goes on with a value of the wrong type and fails where it is first
  used; here it fails at once).\<close>

fun item :: "json \<Rightarrow> string \<Rightarrow> exn + json" where
  "item (JObj kvs) k =
     (case map_of kvs k of Some v \<Rightarrow> Inr v | None \<Rightarrow> Inl (Exn KeyError k))"
| "item _ k = Inl (Exn TypeError ''not subscriptable by a string'')"

fun get_item :: "json \<Rightarrow> string \<Rightarrow> json \<Rightarrow> exn + json" where
  "get_item (JObj kvs) k d = Inr (case map_of kvs k of Some v \<Rightarrow> v | None \<Rightarrow> d)"
| "get_item _ k d = Inl (Exn AttributeError ''get'')"

fun truthy :: "json \<Rightarrow> bool" where
  "truthy JNull = False"
| "truthy (JBool b) = b"
| "truthy (JInt i) = (i \<noteq> 0)"
| "truthy (JStr s) = (s \<noteq> [])"
| "truthy (JArr xs) = (xs \<noteq> [])"
| "truthy (JObj kvs) = (kvs \<noteq> [])"

fun as_string :: "json \<Rightarrow> exn + string" where
  "as_string (JStr s) = Inr s"
| "as_string _ = Inl (Exn TypeError ''string expected'')"

fun as_strings :: "json list \<Rightarrow> exn + string list" where
  "as_strings [] = Inr []"
| "as_strings (x # xs) = sbind (as_string x) (\<lambda>s. sbind (as_strings xs) (\<lambda>ss. Inr (s # ss)))"

fun as_string_list :: "json \<Rightarrow> exn + string list" where
  "as_string_list (JArr xs) = as_strings xs"
| "as_string_list _ = Inl (Exn TypeError ''list expected'')"

text \<open>\<open>int(v)\<close> of a JSON value.\<close>

fun as_int :: "json \<Rightarrow> exn + int" where
  "as_int (JInt i) = Inr i"
| "as_int (JBool b) = Inr (if b then 1 else 0)"
| "as_int (JStr s) =
     (case py_int s of Some i \<Rightarrow> Inr i | None \<Rightarrow> Inl (Exn ValueError (''invalid literal for int() with base 10: '' @ py_repr s)))"
| "as_int _ = Inl (Exn TypeError ''int() argument'')"

section \<open>Lemmas\<close>

lemma contains_iff: "contains sub s \<longleftrightarrow> (\<exists>a b. s = a @ sub @ b)"
proof (induction s)
  case Nil
  then show ?case by simp
next
  case (Cons c cs)
  have "(\<exists>a b. c # cs = a @ sub @ b) \<longleftrightarrow>
      (\<exists>b. c # cs = sub @ b) \<or> (\<exists>a b. cs = a @ sub @ b)"
    by (metis append_Cons append_Nil append_eq_Cons_conv)
  then show ?case using Cons.IH by (auto simp: prefix_def)
qed

lemma set_contains: "contains sub s \<Longrightarrow> set sub \<subseteq> set s"
  by (auto simp: contains_iff)

lemma set_join: "set (join sep xs) \<subseteq> \<Union> (set ` set xs) \<union> set sep"
  by (induction sep xs rule: join.induct) auto

lemma contains_join: "x \<in> set xs \<Longrightarrow> contains x (join sep xs)"
proof (induction sep xs rule: join.induct)
  case (3 sep y z zs)
  show ?case
  proof (cases "x = y")
    case True
    then show ?thesis by (simp add: contains_iff) (metis append_Nil)
  next
    case False
    with 3 have "contains x (join sep (z # zs))" by simp
    then show ?thesis by (simp add: contains_iff) (metis append.assoc)
  qed
qed (simp_all add: contains_iff, metis append_Nil append_Nil2)

lemma set_fromkeys [simp]: "set (fromkeys xs) = set xs"
  by (simp add: fromkeys_def)

lemma distinct_fromkeys [simp]: "distinct (fromkeys xs)"
  by (simp add: fromkeys_def)

lemma fromkeys_Nil [simp]: "fromkeys xs = [] \<longleftrightarrow> xs = []"
  by (simp add: fromkeys_def)

lemma fromkeys_id: "distinct xs \<Longrightarrow> fromkeys xs = xs"
  by (simp add: fromkeys_def distinct_remdups_id)

lemma first_error_None: "first_error f xs = None \<longleftrightarrow> (\<forall>x\<in>set xs. f x = None)"
  by (induction xs) (auto split: option.splits)

lemma first_error_Some: "first_error f xs = Some e \<Longrightarrow> \<exists>x\<in>set xs. f x = Some e"
  by (induction xs) (auto split: option.splits)

lemma first_error_case:
  "(case first_error f xs of None \<Rightarrow> Inr v | Some e \<Rightarrow> Inl e) = Inr w \<longleftrightarrow> (\<forall>x\<in>set xs. f x = None) \<and> v = w"
  by (auto simp: first_error_None [symmetric] split: option.splits)

text \<open>The same text computed on integers, for evaluation.\<close>

function show_pos :: "int \<Rightarrow> string" where
  "show_pos i = (if i < 10 then [char_of (48 + i)] else show_pos (i div 10) @ [char_of (48 + i mod 10)])"
  by pat_completeness auto

termination
  by (relation "measure nat") auto

declare show_pos.simps [simp del]

lemma show_pos_nat: "show_pos (int n) = show_nat n"
proof (induction n rule: show_nat.induct)
  case (1 n)
  have c: "char_of (48 + int m) = char_of (48 + m)" for m
    using char_of_nat [of "48 + m"] by simp
  show ?case
    using 1 c [of "n"] c [of "n mod 10"]
    by (subst show_nat.simps, subst show_pos.simps) (auto simp: zdiv_int zmod_int)
qed

lemma show_nat_eval [code]: "show_nat n = show_pos (int n)"
  by (simp add: show_pos_nat)

lemma show_int_eval [code]: "show_int i = (if i < 0 then CHR ''-'' # show_pos (- i) else show_pos i)"
  by (cases "i < 0") (simp_all add: show_int_def flip: show_pos_nat)

text \<open>\<open>int(str(n)) = n\<close>.\<close>

lemma code_char_of: "n < 256 \<Longrightarrow> code (char_of n) = n"
  by (simp add: code_def of_char_of)

lemma is_digit_char_of: "d < 10 \<Longrightarrow> is_digit (char_of (48 + d :: nat))"
  by (simp add: is_digit_def code_char_of)

lemma int_digits_snoc:
  "d < 10 \<Longrightarrow> int_digits ok acc s = Some v \<Longrightarrow>
     int_digits ok acc (s @ [char_of (48 + d :: nat)]) = Some (10 * v + int d)"
proof (induction ok acc s rule: int_digits.induct)
  case (1 ok acc)
  then show ?case by (auto simp: is_digit_char_of code_char_of split: if_splits)
next
  case (2 ok acc c cs)
  then show ?case by (auto split: if_splits)
qed

lemma int_digits_show_nat: "int_digits False 0 (show_nat n) = Some (int n)"
proof (induction n rule: show_nat.induct)
  case (1 n)
  show ?case
  proof (cases "n < 10")
    case True
    then show ?thesis
      by (subst show_nat.simps) (simp add: is_digit_char_of code_char_of)
  next
    case False
    from int_digits_snoc [OF _ 1 [OF False], of "n mod 10"]
    have "int_digits False 0 (show_nat (n div 10) @ [char_of (48 + n mod 10)])
        = Some (10 * int (n div 10) + int (n mod 10))" by simp
    moreover have "10 * int (n div 10) + int (n mod 10) = int n"
      by (metis of_nat_add of_nat_mult of_nat_numeral mult_div_mod_eq)
    ultimately show ?thesis using False by (subst show_nat.simps) simp
  qed
qed

lemma show_nat_digits: "\<forall>c \<in> set (show_nat n). is_digit c"
proof (induction n rule: show_nat.induct)
  case (1 n)
  then show ?case
    by (subst show_nat.simps) (simp add: is_digit_char_of)
qed

lemma show_nat_nonempty: "show_nat n \<noteq> []"
  by (subst show_nat.simps) simp

lemma digit_not_space: "is_digit c \<Longrightarrow> \<not> is_space c"
  by (auto simp: is_digit_def is_space_def)

lemma strip_id: "s \<noteq> [] \<Longrightarrow> \<not> is_space (hd s) \<Longrightarrow> \<not> is_space (last s) \<Longrightarrow> strip s = s"
proof -
  assume a: "s \<noteq> []" "\<not> is_space (hd s)" "\<not> is_space (last s)"
  then have "dropWhile is_space s = s" by (cases s) auto
  moreover from a have "dropWhile is_space (rev s) = rev s"
    by (cases s rule: rev_cases) auto
  ultimately show ?thesis by (simp add: strip_def)
qed

lemma py_int_show_int: "py_int (show_int i) = Some i"
proof -
  obtain c cs where sn: "show_nat (nat \<bar>i\<bar>) = c # cs"
    using show_nat_nonempty by (cases "show_nat (nat \<bar>i\<bar>)") auto
  from show_nat_digits [of "nat \<bar>i\<bar>"] have dig: "\<forall>x\<in>set (c # cs). is_digit x"
    by (simp add: sn)
  then have c: "c \<noteq> CHR ''-''" "c \<noteq> CHR ''+''" "\<not> is_space c" "\<not> is_space (last (c # cs))"
    using digit_not_space last_in_set [of "c # cs"] by (auto simp: is_digit_def code_def)
  have v: "int_digits False 0 (c # cs) = Some \<bar>i\<bar>"
    using int_digits_show_nat [of "nat \<bar>i\<bar>"] by (simp add: sn)
  show ?thesis
  proof (cases "i < 0")
    case True
    then have "show_int i = CHR ''-'' # c # cs" using sn by (simp add: show_int_def)
    moreover have "strip (CHR ''-'' # c # cs) = CHR ''-'' # c # cs"
      using c by (intro strip_id) (auto simp: is_space_def code_def)
    ultimately show ?thesis using v True by (simp add: py_int_def del: int_digits.simps)
  next
    case False
    then have "show_int i = c # cs" using sn by (simp add: show_int_def)
    moreover have "strip (c # cs) = c # cs" using c by (intro strip_id) auto
    ultimately show ?thesis using v c False by (simp add: py_int_def del: int_digits.simps)
  qed
qed

lemma strip_length: "length (strip s) \<le> length s"
proof -
  have "length (dropWhile P xs) \<le> length xs" for P and xs :: "char list"
    by (induction xs) auto
  then have "length (dropWhile is_space (rev (dropWhile is_space s))) \<le> length (dropWhile is_space s)"
      and "length (dropWhile is_space s) \<le> length s"
    by (metis length_rev, blast)
  then show ?thesis by (simp add: strip_def)
qed

lemma strip_ends:
  assumes "strip s \<noteq> []"
  shows "\<not> is_space (hd (strip s))" and "\<not> is_space (last (strip s))"
proof -
  let ?a = "dropWhile is_space s" and ?b = "dropWhile is_space (rev (dropWhile is_space s))"
  from assms have b: "?b \<noteq> []" by (simp add: strip_def)
  then show "\<not> is_space (last (strip s))"
    using hd_dropWhile [OF b] by (simp add: strip_def last_rev)
  have "suffix ?b (rev ?a)" by (rule suffix_dropWhile)
  then obtain zs where "rev ?a = zs @ ?b" by (auto simp: suffix_def)
  then have a: "?a = rev ?b @ rev zs" by (metis rev_append rev_rev_ident)
  from b have rb: "rev ?b \<noteq> []" by simp
  have "hd ?a = hd (rev ?b)" by (subst a) (simp only: hd_append2 [OF rb])
  moreover have "?a \<noteq> []" using rb a by (metis append_is_Nil_conv)
  ultimately show "\<not> is_space (hd (strip s))"
    using hd_dropWhile [of is_space s] by (simp add: strip_def)
qed

end
