(* ===== verification/Models.thy ===== *)
theory Models
  imports Python
begin

text \<open>
  The enumerations and the request of \<open>models.py\<close>, and the parts of \<open>config.py\<close> that are
  constants of the program (the rest of the configuration comes from the environment, see the
  theory of the system state).
\<close>

section \<open>Enumerations\<close>

datatype db_type = Postgres | Clickhouse

datatype scope = Database | Tables

datatype status = Issuing | Active | Revoking | Revoked | Expired | Failed

fun db_value :: "db_type \<Rightarrow> string" where
  "db_value Postgres = ''postgres''"
| "db_value Clickhouse = ''clickhouse''"

fun scope_value :: "scope \<Rightarrow> string" where
  "scope_value Database = ''database''"
| "scope_value Tables = ''tables''"

fun status_value :: "status \<Rightarrow> string" where
  "status_value Issuing = ''issuing''"
| "status_value Active = ''active''"
| "status_value Revoking = ''revoking''"
| "status_value Revoked = ''revoked''"
| "status_value Expired = ''expired''"
| "status_value Failed = ''failed''"

text \<open>The members of an enumeration, in the order of the class: what \<open>for m in DbType\<close> goes through.\<close>

instantiation db_type :: enum
begin

definition enum_db_type :: "db_type list" where "enum_db_type = [Postgres, Clickhouse]"

definition enum_all_db_type :: "(db_type \<Rightarrow> bool) \<Rightarrow> bool" where
  "enum_all_db_type P \<longleftrightarrow> list_all P enum_class.enum"

definition enum_ex_db_type :: "(db_type \<Rightarrow> bool) \<Rightarrow> bool" where
  "enum_ex_db_type P \<longleftrightarrow> list_ex P enum_class.enum"

instance
proof
  show "(UNIV :: db_type set) = set enum_class.enum" by (auto simp: enum_db_type_def intro: db_type.exhaust)
  then show "enum_class.enum_all P \<longleftrightarrow> Ball UNIV P" "enum_class.enum_ex P \<longleftrightarrow> Bex UNIV P" for P :: "db_type \<Rightarrow> bool"
    by (simp_all add: enum_all_db_type_def enum_ex_db_type_def list_all_iff list_ex_iff)
qed (simp add: enum_db_type_def)

end

instantiation scope :: enum
begin

definition enum_scope :: "scope list" where "enum_scope = [Database, Tables]"

definition enum_all_scope :: "(scope \<Rightarrow> bool) \<Rightarrow> bool" where
  "enum_all_scope P \<longleftrightarrow> list_all P enum_class.enum"

definition enum_ex_scope :: "(scope \<Rightarrow> bool) \<Rightarrow> bool" where
  "enum_ex_scope P \<longleftrightarrow> list_ex P enum_class.enum"

instance
proof
  show "(UNIV :: scope set) = set enum_class.enum" by (auto simp: enum_scope_def intro: scope.exhaust)
  then show "enum_class.enum_all P \<longleftrightarrow> Ball UNIV P" "enum_class.enum_ex P \<longleftrightarrow> Bex UNIV P" for P :: "scope \<Rightarrow> bool"
    by (simp_all add: enum_all_scope_def enum_ex_scope_def list_all_iff list_ex_iff)
qed (simp add: enum_scope_def)

end

instantiation status :: enum
begin

definition enum_status :: "status list" where
  "enum_status = [Issuing, Active, Revoking, Revoked, Expired, Failed]"

definition enum_all_status :: "(status \<Rightarrow> bool) \<Rightarrow> bool" where
  "enum_all_status P \<longleftrightarrow> list_all P enum_class.enum"

definition enum_ex_status :: "(status \<Rightarrow> bool) \<Rightarrow> bool" where
  "enum_ex_status P \<longleftrightarrow> list_ex P enum_class.enum"

instance
proof
  show "(UNIV :: status set) = set enum_class.enum" by (auto simp: enum_status_def intro: status.exhaust)
  then show "enum_class.enum_all P \<longleftrightarrow> Ball UNIV P" "enum_class.enum_ex P \<longleftrightarrow> Bex UNIV P" for P :: "status \<Rightarrow> bool"
    by (simp_all add: enum_all_status_def enum_ex_status_def list_all_iff list_ex_iff)
qed (simp add: enum_status_def)

end

definition db_types :: "db_type list" where
  "db_types = enum_class.enum"

text \<open>
  \<open>StrEnum\<close>: \<open>DbType(text)\<close> and the like are the member with this value. Looking a member up by its value gives it
  back, because no two members of an enumeration have the same value.
\<close>

definition member_of :: "string \<Rightarrow> ('a :: enum \<Rightarrow> string) \<Rightarrow> string \<Rightarrow> exn + 'a" where
  "member_of cls value_of t =
     (case find (\<lambda>m. value_of m = t) enum_class.enum of
        Some m \<Rightarrow> Inr m
      | None \<Rightarrow> Inl (Exn ValueError (py_repr t @ '' is not a valid '' @ cls)))"

locale str_enum =
  fixes value_of :: "'a :: enum \<Rightarrow> string"
  assumes values_differ: "value_of m = value_of n \<Longrightarrow> m = n"
begin

lemma member_value: "member_of cls value_of (value_of m) = Inr m"
proof -
  have "m \<in> set enum_class.enum" using UNIV_enum by blast
  then have "find (\<lambda>n. value_of n = value_of m) enum_class.enum \<noteq> None" by (auto simp: find_None_iff)
  then obtain n where n: "find (\<lambda>n. value_of n = value_of m) enum_class.enum = Some n" by auto
  then have "n = m" by (auto simp: find_Some_iff intro: values_differ)
  then show ?thesis using n by (simp add: member_of_def)
qed

lemma member_is: "member_of cls value_of t = Inr m \<longleftrightarrow> value_of m = t"
proof
  assume "member_of cls value_of t = Inr m"
  then show "value_of m = t" by (auto simp: member_of_def find_Some_iff split: option.splits)
qed (auto simp: member_value)

end

interpretation db_values: str_enum db_value
proof unfold_locales
  show "db_value m = db_value n \<Longrightarrow> m = n" for m n by (cases m; cases n) simp_all
qed

interpretation scope_values: str_enum scope_value
proof unfold_locales
  show "scope_value m = scope_value n \<Longrightarrow> m = n" for m n by (cases m; cases n) simp_all
qed

interpretation status_values: str_enum status_value
proof unfold_locales
  show "status_value m = status_value n \<Longrightarrow> m = n" for m n by (cases m; cases n) simp_all
qed

definition TERMINAL :: "status set" where
  "TERMINAL = {Revoked, Expired, Failed}"

section \<open>Constants of config.py\<close>

definition VAULT_TIMEOUT :: int where "VAULT_TIMEOUT = 10"
definition POSTGRES_DB :: string where "POSTGRES_DB = ''appdb''"
definition CLICKHOUSE_DB :: string where "CLICKHOUSE_DB = ''appdb''"
definition DB_TIMEOUT :: int where "DB_TIMEOUT = 8"
definition ADMIN_POLICY_NAME :: string where "ADMIN_POLICY_NAME = ''db-access-admin''"
definition TOKEN_ROLE_NAME :: string where "TOKEN_ROLE_NAME = ''vdba-grant''"
definition ROLE_PREFIX :: string where "ROLE_PREFIX = ''vdba_''"
definition TOKEN_GRACE_SECONDS :: int where "TOKEN_GRACE_SECONDS = 120"
definition HELPER_TTL_SECONDS :: int where "HELPER_TTL_SECONDS = 60"

definition ALLOWED_POSTGRES_COMMANDS :: "string list" where
  "ALLOWED_POSTGRES_COMMANDS = [''SELECT'', ''INSERT'', ''UPDATE'', ''DELETE'']"

definition ALLOWED_CLICKHOUSE_COMMANDS :: "string list" where
  "ALLOWED_CLICKHOUSE_COMMANDS = [''SELECT'', ''INSERT'', ''ALTER UPDATE'', ''ALTER DELETE'']"

definition SESSION_ABSOLUTE_SECONDS :: int where "SESSION_ABSOLUTE_SECONDS = 8 * 3600"
definition SESSION_IDLE_SECONDS :: int where "SESSION_IDLE_SECONDS = 30 * 60"
definition BODY_LIMIT :: nat where "BODY_LIMIT = 64 * 1024"
definition MAX_ISSUE_OPS :: nat where "MAX_ISSUE_OPS = 6"
definition MAX_REVOKE_OPS :: nat where "MAX_REVOKE_OPS = 4"
definition MAX_AUTH_OPS :: nat where "MAX_AUTH_OPS = 4"
definition MAX_SESSION_CHECKS :: nat where "MAX_SESSION_CHECKS = 8"

fun connection_name :: "db_type \<Rightarrow> string" where
  "connection_name Postgres = ''postgres''"
| "connection_name Clickhouse = ''clickhouse''"

section \<open>The grant request\<close>

record grant_request =
  rq_db_type :: db_type
  rq_scope :: scope
  rq_tables :: "string list"
  rq_commands :: "string list"
  rq_ttl_seconds :: int
  rq_requested_for :: string

text \<open>\<open>re.compile(r"[^\x00-\x1f\x7f]+")\<close>, with \<open>fullmatch\<close>.\<close>

definition printable :: "string \<Rightarrow> bool" where
  "printable s \<longleftrightarrow> s \<noteq> [] \<and> list_all (\<lambda>c. 32 \<le> code c \<and> code c \<noteq> 127) s"

definition invalid :: "string \<Rightarrow> exn" where
  "invalid m = Exn ValidationError m"

definition clean_requested_for :: "string \<Rightarrow> exn + string" where
  "clean_requested_for v =
     (let v = strip v
      in if v = [] \<or> \<not> printable v then Inl (invalid ''must be non-empty printable text'') else Inr v)"

text \<open>
  The fields as the model declares them: the two enumerations by value, lists of strings with a
  bound on their length, an integer that is neither a boolean nor a string (\<open>StrictInt\<close>), and a
  string of 1 to 120 characters, cleaned after that check.
\<close>

fun field_db_type :: "json \<Rightarrow> exn + db_type" where
  "field_db_type (JStr s) =
     (if s = ''postgres'' then Inr Postgres
      else if s = ''clickhouse'' then Inr Clickhouse
      else Inl (invalid ''db_type''))"
| "field_db_type _ = Inl (invalid ''db_type'')"

fun field_scope :: "json \<Rightarrow> exn + scope" where
  "field_scope (JStr s) =
     (if s = ''database'' then Inr Database
      else if s = ''tables'' then Inr Tables
      else Inl (invalid ''scope''))"
| "field_scope _ = Inl (invalid ''scope'')"

definition field_strings :: "nat \<Rightarrow> nat \<Rightarrow> json \<Rightarrow> exn + string list" where
  "field_strings lo hi v =
     (case as_string_list v of
        Inl e \<Rightarrow> Inl (invalid ''list of strings'')
      | Inr xs \<Rightarrow> if lo \<le> length xs \<and> length xs \<le> hi then Inr xs else Inl (invalid ''length''))"

fun field_strict_int :: "json \<Rightarrow> exn + int" where
  "field_strict_int (JInt i) = Inr i"
| "field_strict_int _ = Inl (invalid ''int'')"

fun field_requested_for :: "json \<Rightarrow> exn + string" where
  "field_requested_for (JStr s) =
     (if 1 \<le> length s \<and> length s \<le> 120 then clean_requested_for s else Inl (invalid ''length''))"
| "field_requested_for _ = Inl (invalid ''string'')"

definition request_fields :: "string list" where
  "request_fields =
     [''db_type'', ''scope'', ''tables'', ''commands'', ''ttl_seconds'', ''requested_for'']"

definition required :: "(string \<times> json) list \<Rightarrow> string \<Rightarrow> exn + json" where
  "required kvs k = (case map_of kvs k of Some v \<Rightarrow> Inr v | None \<Rightarrow> Inl (invalid k))"

text \<open>
  \<open>GrantRequest.model_validate\<close>. Pydantic collects the errors of all fields in one
  \<open>ValidationError\<close>; here it is raised at the first one.
\<close>

fun validate_request :: "json \<Rightarrow> exn + grant_request" where
  "validate_request (JObj kvs) =
     (if list_all (\<lambda>(k, v). k \<in> set request_fields) kvs then
        sbind (sbind (required kvs ''db_type'') field_db_type) (\<lambda>db.
        sbind (sbind (required kvs ''scope'') field_scope) (\<lambda>sc.
        sbind (case map_of kvs ''tables'' of None \<Rightarrow> Inr [] | Some v \<Rightarrow> field_strings 0 200 v) (\<lambda>ts.
        sbind (sbind (required kvs ''commands'') (field_strings 1 8)) (\<lambda>cs.
        sbind (sbind (required kvs ''ttl_seconds'') field_strict_int) (\<lambda>ttl.
        sbind (sbind (required kvs ''requested_for'') field_requested_for) (\<lambda>who.
        Inr \<lparr>rq_db_type = db, rq_scope = sc, rq_tables = ts, rq_commands = cs,
             rq_ttl_seconds = ttl, rq_requested_for = who\<rparr>))))))
      else Inl (invalid ''extra fields not permitted''))"
| "validate_request _ = Inl (invalid ''not an object'')"

section \<open>Lemmas\<close>

lemma db_value_inj: "db_value a = db_value b \<Longrightarrow> a = b"
  by (cases a; cases b) auto

lemma status_value_inj: "status_value a = status_value b \<Longrightarrow> a = b"
  by (cases a; cases b) auto

lemma TERMINAL_simps [simp]:
  "Revoked \<in> TERMINAL" "Expired \<in> TERMINAL" "Failed \<in> TERMINAL"
  "Issuing \<notin> TERMINAL" "Active \<notin> TERMINAL" "Revoking \<notin> TERMINAL"
  by (simp_all add: TERMINAL_def)

lemma not_TERMINAL: "st \<notin> TERMINAL \<longleftrightarrow> st = Issuing \<or> st = Active \<or> st = Revoking"
  by (cases st) simp_all

lemma field_strings_length:
  "field_strings lo hi v = Inr xs \<Longrightarrow> lo \<le> length xs \<and> length xs \<le> hi"
  by (auto simp: field_strings_def split: sum.splits if_splits)

lemma clean_requested_for_Inr:
  assumes "clean_requested_for v = Inr w"
  shows "w = strip v \<and> w \<noteq> [] \<and> printable w \<and> length w \<le> length v"
  using assms strip_length [of v] by (auto simp: clean_requested_for_def Let_def split: if_splits)

section \<open>Properties\<close>

text \<open>The JSON body a client sends for a request, and the requests that validation lets through unchanged.\<close>

definition request_json :: "grant_request \<Rightarrow> json" where
  "request_json r =
     JObj [(''db_type'', JStr (db_value (rq_db_type r))), (''scope'', JStr (scope_value (rq_scope r))),
       (''tables'', JArr (map JStr (rq_tables r))), (''commands'', JArr (map JStr (rq_commands r))),
       (''ttl_seconds'', JInt (rq_ttl_seconds r)), (''requested_for'', JStr (rq_requested_for r))]"

definition request_ok :: "grant_request \<Rightarrow> bool" where
  "request_ok r \<longleftrightarrow>
     length (rq_tables r) \<le> 200 \<and> 1 \<le> length (rq_commands r) \<and> length (rq_commands r) \<le> 8
     \<and> length (rq_requested_for r) \<le> 120 \<and> printable (rq_requested_for r)
     \<and> strip (rq_requested_for r) = rq_requested_for r"

lemma as_strings_map: "as_strings (map JStr xs) = Inr xs"
  by (induction xs) simp_all

lemma strip_strip: "strip (strip s) = strip s"
proof (cases "strip s = []")
  case True
  show ?thesis unfolding True by (simp add: strip_def)
next
  case False
  then show ?thesis using strip_ends [of s] by (intro strip_id) auto
qed

lemma fields_Inl:
  "field_db_type v = Inl e \<Longrightarrow> exc_class e = ValidationError"
  "field_scope v = Inl e \<Longrightarrow> exc_class e = ValidationError"
  "field_strings lo hi v = Inl e \<Longrightarrow> exc_class e = ValidationError"
  "field_strict_int v = Inl e \<Longrightarrow> exc_class e = ValidationError"
  "field_requested_for v = Inl e \<Longrightarrow> exc_class e = ValidationError"
  "required kvs k = Inl e \<Longrightarrow> exc_class e = ValidationError"
  by (cases v; auto simp: invalid_def field_strings_def clean_requested_for_def Let_def split: if_splits sum.splits)+
     (auto simp: invalid_def required_def split: option.splits)

lemma validate_request_Inl: "validate_request j = Inl e \<Longrightarrow> exc_class e = ValidationError"
  by (cases j) (auto simp: sbind_Inl split: option.splits if_splits dest: fields_Inl, auto simp: invalid_def)

lemma field_requested_for_Inr:
  "field_requested_for v = Inr w \<Longrightarrow> length w \<le> 120 \<and> printable w \<and> strip w = w"
  by (cases v) (auto dest!: clean_requested_for_Inr simp: strip_strip split: if_splits)

lemma validate_request_Inr: "validate_request j = Inr r \<Longrightarrow> request_ok r"
  by (cases j)
     (auto simp: sbind_Inr request_ok_def split: option.splits if_splits
        dest!: field_requested_for_Inr field_strings_length)

lemma validate_request_json: "request_ok r \<Longrightarrow> validate_request (request_json r) = Inr r"
  by (cases "rq_db_type r"; cases "rq_scope r"; cases r)
     (auto simp: request_json_def request_ok_def request_fields_def required_def field_strings_def as_strings_map
        clean_requested_for_def printable_def Let_def sbind_Inr Suc_le_eq)

text \<open>
  C25. Validation of a request body, for every JSON value: what is accepted has at most 200 tables, one to
  eight commands and a printable name of at most 120 characters without space at its ends, what is
  refused is a \<open>ValidationError\<close>, and validation is the inverse of writing the request as JSON: a request
  passes unchanged exactly when it keeps those bounds. So validating twice is validating once.
\<close>

theorem validation_round_trip:
  "(case validate_request j of Inl e \<Rightarrow> exc_class e = ValidationError | Inr r \<Rightarrow> request_ok r)
   \<and> (validate_request (request_json r) = Inr r \<longleftrightarrow> request_ok r)"
  using validate_request_Inl validate_request_Inr validate_request_json by (auto split: sum.split)

end
