(* ===== verification/Config.thy ===== *)
theory Config
  imports Models
begin

text \<open>
  \<open>config.py\<close>: the settings read from the environment when the module is imported. The
  environment is a map from variable names to values; a number that does not parse is the
  \<open>ValueError\<close> that stops the import.
\<close>

record config =
  VAULT_ADDR :: string
  APPROLE_DIR :: string
  DB_PATH :: string
  POSTGRES_HOST :: string
  POSTGRES_PORT :: int
  CLICKHOUSE_HOST :: string
  CLICKHOUSE_HTTP_PORT :: int
  CLICKHOUSE_NATIVE_PORT :: int
  PG_SSLROOTCERT :: string
  ALLOW_INSECURE :: bool
  PG_SSLMODE :: string
  CH_SECURE :: bool
  CH_CA_CERT :: string
  TTL_MIN :: int
  TTL_MAX :: int
  SESSION_RECHECK_SECONDS :: int
  RECONCILE_INTERVAL :: int
  TEST_HOOKS :: bool
  FAULT_FILE :: string
  PUBLIC_ORIGIN :: string
  EXTRA_ORIGINS :: "string list"
  COOKIE_SECURE :: string

type_synonym environ = "string \<rightharpoonup> string"

definition env_get :: "environ \<Rightarrow> string \<Rightarrow> string \<Rightarrow> string" where
  "env_get env name dflt = (case env name of Some v \<Rightarrow> v | None \<Rightarrow> dflt)"

text \<open>\<open>_int\<close>: the default is already an integer.\<close>

definition env_int :: "environ \<Rightarrow> string \<Rightarrow> int \<Rightarrow> exn + int" where
  "env_int env name dflt =
     (case env name of
        None \<Rightarrow> Inr dflt
      | Some v \<Rightarrow> (case py_int v of
            Some i \<Rightarrow> Inr i
          | None \<Rightarrow> Inl (Exn ValueError (''invalid literal for int() with base 10: '' @ py_repr v))))"

text \<open>\<open>s.split(c)\<close> for one character: always at least one part.\<close>

fun split_on :: "char \<Rightarrow> string \<Rightarrow> string list" where
  "split_on c [] = [[]]"
| "split_on c (x # xs) =
     (if x = c then [] # split_on c xs
      else case split_on c xs of [] \<Rightarrow> [[x]] | p # ps \<Rightarrow> (x # p) # ps)"

definition sslmode_of :: "environ \<Rightarrow> string" where
  "sslmode_of env =
     (let mode = env_get env ''VDBA_PG_SSLMODE'' [] in
      if mode \<noteq> [] then mode
      else if env_get env ''VDBA_PG_SSLROOTCERT'' [] \<noteq> [] then ''verify-full''
      else if env ''VDBA_ALLOW_INSECURE'' = Some ''1'' then ''prefer''
      else ''require'')"

definition load_config :: "environ \<Rightarrow> exn + config" where
  "load_config env =
     sbind (env_int env ''VDBA_POSTGRES_PORT'' 5432) (\<lambda>pg_port.
     sbind (env_int env ''VDBA_CLICKHOUSE_HTTP_PORT'' 8123) (\<lambda>ch_http.
     sbind (env_int env ''VDBA_CLICKHOUSE_NATIVE_PORT'' 9000) (\<lambda>ch_native.
     sbind (env_int env ''VDBA_TTL_MIN_SECONDS'' 10) (\<lambda>ttl_min.
     sbind (env_int env ''VDBA_TTL_MAX_SECONDS'' 86400) (\<lambda>ttl_max.
     sbind (env_int env ''VDBA_SESSION_RECHECK_SECONDS'' (5 * 60)) (\<lambda>recheck.
     sbind (env_int env ''VDBA_RECONCILE_INTERVAL'' 60) (\<lambda>interval.
     Inr \<lparr>VAULT_ADDR = env_get env ''VAULT_ADDR'' ''http://vault:8200'',
          APPROLE_DIR = env_get env ''VDBA_APPROLE_DIR'' ''/run/vdba/approle'',
          DB_PATH = env_get env ''VDBA_DB_PATH'' ''/data/vdba.sqlite3'',
          POSTGRES_HOST = env_get env ''VDBA_POSTGRES_HOST'' ''postgres'',
          POSTGRES_PORT = pg_port,
          CLICKHOUSE_HOST = env_get env ''VDBA_CLICKHOUSE_HOST'' ''clickhouse'',
          CLICKHOUSE_HTTP_PORT = ch_http,
          CLICKHOUSE_NATIVE_PORT = ch_native,
          PG_SSLROOTCERT = env_get env ''VDBA_PG_SSLROOTCERT'' [],
          ALLOW_INSECURE = (env ''VDBA_ALLOW_INSECURE'' = Some ''1''),
          PG_SSLMODE = sslmode_of env,
          CH_SECURE = (env ''VDBA_CH_SECURE'' = Some ''1''),
          CH_CA_CERT = env_get env ''VDBA_CH_CA_CERT'' [],
          TTL_MIN = ttl_min,
          TTL_MAX = ttl_max,
          SESSION_RECHECK_SECONDS = recheck,
          RECONCILE_INTERVAL = interval,
          TEST_HOOKS = (env ''VDBA_TEST_HOOKS'' = Some ''1''),
          FAULT_FILE = env_get env ''VDBA_FAULT_FILE'' ''/data/fault-point'',
          PUBLIC_ORIGIN = env_get env ''VDBA_PUBLIC_ORIGIN'' [],
          EXTRA_ORIGINS = filter (\<lambda>o'. o' \<noteq> []) (split_on CHR '','' (env_get env ''VDBA_ALLOWED_ORIGINS'' [])),
          COOKIE_SECURE = env_get env ''VDBA_COOKIE_SECURE'' ''auto''\<rparr>)))))))"

end
