(* ===== verification/System.thy ===== *)
theory System
  imports Config
begin

text \<open>
  The state the middleware runs on and what it calls outside its own code. The state is the SQLite
  file (\<open>store.py\<close>'s three tables), the process's memory (the open connection, the service client of
  \<open>vault_client.py\<close>, the locks, in-flight set and semaphores of \<open>grants.py\<close>), and the rest of the
  world. The world is a type parameter: Vault, the databases, the clock, the random numbers and the
  fault file are functions on it, given by the record \<open>env\<close> that every operation takes. Nothing is
  assumed of them here, so every call may return anything, raise anything or be the last thing the
  process does; what a theorem needs of them is a named hypothesis there.
\<close>

section \<open>The tables\<close>

record grant =
  g_id :: string
  g_db_type :: db_type
  g_scope :: scope
  g_tables :: "string list"
  g_commands :: "string list"
  g_requested_for :: string
  g_issued_by :: string
  g_ttl_seconds :: int
  g_status :: status
  g_created_at :: real
  g_expires_at :: "real option"
  g_username :: "string option"
  g_lease_id :: "string option"
  g_token_accessor :: "string option"
  g_last_error :: "string option"
  g_updated_at :: real

record audit_row =
  a_id :: nat
  a_ts :: real
  a_request_id :: "string option"
  a_grant_id :: "string option"
  a_actor :: string
  a_action :: string
  a_result :: string
  a_detail :: string

record session =
  s_sid :: string
  s_username :: string
  s_csrf :: string
  s_vault_token :: string
  s_created_at :: real
  s_last_seen :: real
  s_last_check :: real

text \<open>A table is the list of its rows in the order of insertion.\<close>

record database =
  grants_tab :: "grant list"
  audit_tab :: "audit_row list"
  sessions_tab :: "session list"
  audit_seq :: nat

definition empty_database :: database where
  "empty_database = \<lparr>grants_tab = [], audit_tab = [], sessions_tab = [], audit_seq = 0\<rparr>"

section \<open>The process\<close>

datatype kind = KIssue | KRevoke | KAuth | KSession

record 'w sys =
  disk :: database
  opened :: bool
  svc_client :: "string option"
  svc_logged_in_at :: real
  locks :: "db_type \<Rightarrow> bool"
  inflight :: "string set"
  slots :: "kind \<Rightarrow> nat"
  world :: 'w

fun max_ops :: "kind \<Rightarrow> nat" where
  "max_ops KIssue = MAX_ISSUE_OPS"
| "max_ops KRevoke = MAX_REVOKE_OPS"
| "max_ops KAuth = MAX_AUTH_OPS"
| "max_ops KSession = MAX_SESSION_CHECKS"

text \<open>
  A new process on the same file: what a crash or a stop leaves, with \<open>store.init()\<close> done. The
  commits of \<open>_tx\<close> are on disk (WAL with \<open>synchronous=FULL\<close>), so the file is as it was.
\<close>

definition restart :: "'w sys \<Rightarrow> 'w sys" where
  "restart s =
     \<lparr>disk = disk s, opened = True, svc_client = None, svc_logged_in_at = 0,
      locks = (\<lambda>_. False), inflight = {}, slots = max_ops, world = world s\<rparr>"

section \<open>The outside\<close>

type_synonym ('w, 'a) ext = "'w \<Rightarrow> 'a outcome \<times> 'w"

text \<open>The arguments of \<open>psycopg.connect\<close> and \<open>clickhouse_connect.get_client\<close>.\<close>

record pg_conninfo =
  pc_host :: string
  pc_port :: int
  pc_user :: string
  pc_password :: string
  pc_dbname :: string
  pc_connect_timeout :: int
  pc_options :: string
  pc_ssl :: "(string \<times> string) list"

record ch_conninfo =
  cc_host :: string
  cc_port :: int
  cc_username :: string
  cc_password :: string
  cc_connect_timeout :: int
  cc_send_receive_timeout :: int
  cc_ssl :: "(string \<times> json) list"

text \<open>
  A hvac client is its token (\<open>None\<close> for a client without one); \<open>vault_write c p a\<close> is
  \<open>c.write(p, **a)\<close>. \<open>clock\<close> is \<open>time.time()\<close>, with \<open>None\<close> for a process that is killed there: as every
  transaction of the store reads the clock first, a crash can fall before and after each of them.
  \<open>loop_rounds\<close> is the number of rounds the model gives the one loop of the code that has no bound
  but the clock.
\<close>

record 'w env =
  cfg :: config
  loop_rounds :: nat
  clock :: "'w \<Rightarrow> real option \<times> 'w"
  sleep :: "real \<Rightarrow> 'w \<Rightarrow> 'w"
  token_hex :: "nat \<Rightarrow> 'w \<Rightarrow> string \<times> 'w"
  token_urlsafe :: "nat \<Rightarrow> 'w \<Rightarrow> string \<times> 'w"
  sha256_hex :: "string \<Rightarrow> string"
  read_text :: "string \<Rightarrow> ('w, string) ext"
  unlink :: "string \<Rightarrow> 'w \<Rightarrow> 'w"
  vault_write :: "string option \<Rightarrow> string \<Rightarrow> (string \<times> json) list \<Rightarrow> ('w, json) ext"
  vault_read :: "string option \<Rightarrow> string \<Rightarrow> ('w, json) ext"
  vault_list :: "string option \<Rightarrow> string \<Rightarrow> ('w, json) ext"
  vault_delete :: "string option \<Rightarrow> string \<Rightarrow> ('w, json) ext"
  kv_read :: "string option \<Rightarrow> string \<Rightarrow> ('w, json) ext"
  approle_login :: "string \<Rightarrow> string \<Rightarrow> ('w, string) ext"
  userpass_auth :: "string \<Rightarrow> string \<Rightarrow> ('w, json) ext"
  token_revoke_self :: "string option \<Rightarrow> ('w, json) ext"
  token_lookup_self :: "string option \<Rightarrow> ('w, json) ext"
  pg_connect :: "pg_conninfo \<Rightarrow> ('w, nat) ext"
  pg_texts :: "nat \<Rightarrow> string \<Rightarrow> string list \<Rightarrow> ('w, string list) ext"
  pg_pairs :: "nat \<Rightarrow> string \<Rightarrow> ('w, (string \<times> string) list) ext"
  pg_count :: "nat \<Rightarrow> string \<Rightarrow> string list \<Rightarrow> ('w, int) ext"
  ch_connect :: "ch_conninfo \<Rightarrow> ('w, nat) ext"
  ch_texts :: "nat \<Rightarrow> string \<Rightarrow> (string \<times> string) list \<Rightarrow> ('w, string list) ext"

text \<open>An external call as a program, and the effects that only read or change the world.\<close>

definition call_ext :: "('w, 'a) ext \<Rightarrow> ('w sys, 'a) prog" where
  "call_ext f s = (case f (world s) of (r, w) \<Rightarrow> (r, s\<lparr>world := w\<rparr>))"

definition now :: "'w env \<Rightarrow> ('w sys, real) prog" where
  "now E = call_ext (\<lambda>w. case clock E w of (t, w') \<Rightarrow> ((case t of Some x \<Rightarrow> Ret x | None \<Rightarrow> Halt), w'))"

text \<open>A time the clock may show.\<close>

definition read_clock :: "'w env \<Rightarrow> real \<Rightarrow> bool" where
  "read_clock E t \<longleftrightarrow> (\<exists>w. fst (clock E w) = Some t)"

lemma now_Ret [returned]:
  "now E s = (Ret t, s') \<longleftrightarrow> (\<exists>w. clock E (world s) = (Some t, w) \<and> s' = s\<lparr>world := w\<rparr>)"
  by (auto simp: now_def call_ext_def split: prod.splits option.splits)

lemma now_read: "now E s = (Ret t, s') \<Longrightarrow> read_clock E t"
  unfolding now_Ret read_clock_def by (metis fst_conv)

definition draw_hex :: "'w env \<Rightarrow> nat \<Rightarrow> ('w sys, string) prog" where
  "draw_hex E n = call_ext (\<lambda>w. case token_hex E n w of (x, w') \<Rightarrow> (Ret x, w'))"

definition draw_urlsafe :: "'w env \<Rightarrow> nat \<Rightarrow> ('w sys, string) prog" where
  "draw_urlsafe E n = call_ext (\<lambda>w. case token_urlsafe E n w of (x, w') \<Rightarrow> (Ret x, w'))"

definition do_sleep :: "'w env \<Rightarrow> real \<Rightarrow> ('w sys, unit) prog" where
  "do_sleep E d = call_ext (\<lambda>w. (Ret (), sleep E d w))"

definition do_unlink :: "'w env \<Rightarrow> string \<Rightarrow> ('w sys, unit) prog" where
  "do_unlink E p = call_ext (\<lambda>w. (Ret (), unlink E p w))"

section \<open>Frames of the state\<close>

text \<open>What a call to the outside, and the code that only makes such calls, leaves alone.\<close>

definition same_disk :: "'w sys \<Rightarrow> 'w sys \<Rightarrow> bool" where
  "same_disk s s' \<longleftrightarrow> disk s' = disk s \<and> opened s' = opened s"

definition same_control :: "'w sys \<Rightarrow> 'w sys \<Rightarrow> bool" where
  "same_control s s' \<longleftrightarrow> locks s' = locks s \<and> inflight s' = inflight s \<and> slots s' = slots s"

definition outside_only :: "'w sys \<Rightarrow> 'w sys \<Rightarrow> bool" where
  "outside_only s s' \<longleftrightarrow> same_disk s s' \<and> same_control s s'"

interpretation disk_frame: frame same_disk
  by unfold_locales (auto simp: same_disk_def)

interpretation control: frame same_control
  by unfold_locales (auto simp: same_control_def)

interpretation outside: frame outside_only
  by unfold_locales (auto simp: outside_only_def same_disk_def same_control_def)

lemmas frame_defs = outside_only_def same_disk_def same_control_def

named_theorems outside_keeps

lemma call_ext_outside [outside_keeps]: "keeps outside_only (call_ext f)"
  by (rule keepsI) (auto simp: call_ext_def frame_defs split: prod.splits)

lemma world_programs_outside [outside_keeps]:
  "keeps outside_only (now E)" "keeps outside_only (draw_hex E n)"
  "keeps outside_only (draw_urlsafe E n)" "keeps outside_only (do_sleep E d)"
  "keeps outside_only (do_unlink E p)"
  by (simp_all add: now_def draw_hex_def draw_urlsafe_def do_sleep_def do_unlink_def call_ext_outside)

lemma outside_disk: "keeps outside_only m \<Longrightarrow> keeps same_disk m"
  by (erule keeps_mono) (simp add: outside_only_def)

lemma outside_control: "keeps outside_only m \<Longrightarrow> keeps same_control m"
  by (erule keeps_mono) (simp add: outside_only_def)

end
