(* ===== verification/Table.thy ===== *)
theory Table
  imports Prelude
begin

text \<open>
  Tables with a primary key, as the list of their rows, and the interface their users rely on: what
  a lookup returns after an insert, an update and a delete. The users of the interface prove what
  they need of it inside the locale; the store interprets it on its own tables.
\<close>

section \<open>Rows in a list\<close>

definition tab_get :: "('r \<Rightarrow> 'k) \<Rightarrow> 'k \<Rightarrow> 'r list \<Rightarrow> 'r option" where
  "tab_get key k t = find (\<lambda>r. key r = k) t"

definition tab_insert :: "('r \<Rightarrow> 'k) \<Rightarrow> 'r \<Rightarrow> 'r list \<Rightarrow> 'r list option" where
  "tab_insert key r t = (if key r \<in> set (map key t) then None else Some (t @ [r]))"

definition tab_update :: "('r \<Rightarrow> 'k) \<Rightarrow> 'k \<Rightarrow> ('r \<Rightarrow> 'r) \<Rightarrow> 'r list \<Rightarrow> 'r list" where
  "tab_update key k f t = map (\<lambda>r. if key r = k then f r else r) t"

definition tab_delete :: "('r \<Rightarrow> 'k) \<Rightarrow> 'k \<Rightarrow> 'r list \<Rightarrow> 'r list" where
  "tab_delete key k t = filter (\<lambda>r. key r \<noteq> k) t"

text \<open>Every key once: what \<open>PRIMARY KEY\<close> enforces.\<close>

definition keys_unique :: "('r \<Rightarrow> 'k) \<Rightarrow> 'r list \<Rightarrow> bool" where
  "keys_unique key t \<longleftrightarrow> distinct (map key t)"

lemma tab_get_None: "tab_get key k t = None \<longleftrightarrow> k \<notin> set (map key t)"
  by (auto simp: tab_get_def find_None_iff)

lemma tab_get_Some: "tab_get key k t = Some r \<Longrightarrow> r \<in> set t \<and> key r = k"
  by (auto simp: tab_get_def find_Some_iff)

lemma tab_get_unique: "keys_unique key t \<Longrightarrow> r \<in> set t \<Longrightarrow> tab_get key (key r) t = Some r"
  by (induction t) (auto simp: tab_get_def keys_unique_def)

lemma tab_get_snoc:
  "tab_get key k (t @ [r]) =
     (case tab_get key k t of Some x \<Rightarrow> Some x | None \<Rightarrow> if key r = k then Some r else None)"
  by (induction t) (simp_all add: tab_get_def)

lemma tab_get_insert:
  "tab_insert key r t = Some t' \<Longrightarrow> tab_get key k t' = (if k = key r then Some r else tab_get key k t)"
proof -
  assume "tab_insert key r t = Some t'"
  then have "t' = t @ [r]" "tab_get key (key r) t = None"
    by (auto simp: tab_insert_def tab_get_None split: if_splits)
  then show ?thesis by (simp add: tab_get_snoc split: option.split)
qed

lemma tab_get_update:
  assumes "\<And>r. key r = k \<Longrightarrow> key (f r) = k"
  shows "tab_get key j (tab_update key k f t) =
    (if j = k then map_option f (tab_get key k t) else tab_get key j t)"
  by (induction t) (auto simp: tab_get_def tab_update_def assms)

lemma tab_get_delete: "tab_get key j (tab_delete key k t) = (if j = k then None else tab_get key j t)"
  by (induction t) (auto simp: tab_get_def tab_delete_def)

lemma keys_unique_insert: "tab_insert key r t = Some t' \<Longrightarrow> keys_unique key t \<Longrightarrow> keys_unique key t'"
  by (auto simp: tab_insert_def keys_unique_def split: if_splits)

lemma keys_unique_update:
  assumes "\<And>r. key r = k \<Longrightarrow> key (f r) = k" "keys_unique key t"
  shows "keys_unique key (tab_update key k f t)"
proof -
  have "map key (tab_update key k f t) = map key t"
    by (simp add: tab_update_def assms(1) comp_def cong: map_cong)
  with assms(2) show ?thesis by (simp add: keys_unique_def)
qed

lemma keys_unique_delete: "keys_unique key t \<Longrightarrow> keys_unique key (tab_delete key k t)"
  by (simp add: keys_unique_def tab_delete_def distinct_map_filter)

section \<open>The interface\<close>

locale keyed_store =
  fixes get :: "'k \<Rightarrow> 't \<Rightarrow> 'r option"
    and ins :: "'r \<Rightarrow> 't \<Rightarrow> 't option"
    and upd :: "'k \<Rightarrow> ('r \<Rightarrow> 'r) \<Rightarrow> 't \<Rightarrow> 't"
    and del :: "'k \<Rightarrow> 't \<Rightarrow> 't"
    and key :: "'r \<Rightarrow> 'k"
    and inv :: "'t \<Rightarrow> bool"
  assumes get_key: "get k t = Some r \<Longrightarrow> key r = k"
    and ins_dup: "get (key r) t \<noteq> None \<Longrightarrow> ins r t = None"
    and ins_new: "get (key r) t = None \<Longrightarrow> \<exists>t'. ins r t = Some t'"
    and get_ins: "ins r t = Some t' \<Longrightarrow> get k t' = (if k = key r then Some r else get k t)"
    and get_upd: "(\<And>r. key (f r) = key r) \<Longrightarrow>
                    get j (upd k f t) = (if j = k then map_option f (get k t) else get j t)"
    and get_del: "get j (del k t) = (if j = k then None else get j t)"
    and inv_ins: "ins r t = Some t' \<Longrightarrow> inv t \<Longrightarrow> inv t'"
    and inv_upd: "(\<And>r. key (f r) = key r) \<Longrightarrow> inv t \<Longrightarrow> inv (upd k f t)"
    and inv_del: "inv t \<Longrightarrow> inv (del k t)"
begin

lemma ins_iff: "(\<exists>t'. ins r t = Some t') \<longleftrightarrow> get (key r) t = None"
  using ins_dup ins_new by (metis option.distinct(1))

lemma upd_upd:
  assumes "\<And>r. key (f r) = key r" "\<And>r. key (h r) = key r"
  shows "get j (upd k h (upd k f t)) = get j (upd k (h \<circ> f) t)"
  using assms by (simp add: get_upd option.map_comp)

lemma upd_absent: "(\<And>r. key (f r) = key r) \<Longrightarrow> get k t = None \<Longrightarrow> get j (upd k f t) = get j t"
  by (simp add: get_upd)

lemma upd_Some:
  "(\<And>r. key (f r) = key r) \<Longrightarrow> get k t = Some r \<Longrightarrow> get k (upd k f t) = Some (f r)"
  by (simp add: get_upd)

lemma upd_other: "(\<And>r. key (f r) = key r) \<Longrightarrow> j \<noteq> k \<Longrightarrow> get j (upd k f t) = get j t"
  by (simp add: get_upd)

text \<open>Updates never make a row appear or go away.\<close>

lemma upd_dom: "(\<And>r. key (f r) = key r) \<Longrightarrow> get j (upd k f t) = None \<longleftrightarrow> get j t = None"
  by (simp add: get_upd)

lemma ins_upd:
  "ins r t = Some t' \<Longrightarrow> (\<And>r. key (f r) = key r) \<Longrightarrow> get (key r) (upd (key r) f t') = Some (f r)"
  by (simp add: get_upd get_ins)

end

lemma tables_are_keyed_stores:
  "keyed_store (tab_get key) (tab_insert key) (tab_update key) (tab_delete key) key (keys_unique key)"
proof unfold_locales
  show "tab_get key (key r) t \<noteq> None \<Longrightarrow> tab_insert key r t = None" for r t
    by (simp add: tab_get_None tab_insert_def)
  show "tab_get key (key r) t = None \<Longrightarrow> \<exists>t'. tab_insert key r t = Some t'" for r t
    by (simp add: tab_get_None tab_insert_def)
qed (auto simp: tab_get_insert tab_get_update tab_get_delete keys_unique_insert keys_unique_update
      keys_unique_delete dest: tab_get_Some)

end
