(* ===== verification/Store.thy ===== *)
theory Store
  imports System Table "HOL-Library.Multiset"
begin

text \<open>
  \<open>store.py\<close>: the grant, audit and session tables in one SQLite file. Each function is its SQL on the
  database value (\<open>db_...\<close>), run inside a transaction by \<open>tx\<close>. SQLite's I/O errors are not
  modelled; a violated \<open>PRIMARY KEY\<close> is.
\<close>

section \<open>Transactions\<close>

definition not_open :: exn where
  "not_open = Exn AssertionError ''store.init() not called''"

text \<open>\<open>_tx\<close>: commit what the body leaves, or roll back and raise.\<close>

definition tx :: "(database \<Rightarrow> exn + 'a \<times> database) \<Rightarrow> ('w sys, 'a) prog" where
  "tx f s =
     (if \<not> opened s then (Raise not_open, s)
      else case f (disk s) of
             Inl e \<Rightarrow> (Raise e, s)
           | Inr (x, d) \<Rightarrow> (Ret x, s\<lparr>disk := d\<rparr>))"

definition query :: "(database \<Rightarrow> 'a) \<Rightarrow> ('w sys, 'a) prog" where
  "query f s = (if \<not> opened s then (Raise not_open, s) else (Ret (f (disk s)), s))"

definition init :: "('w sys, unit) prog" where
  "init = modify (\<lambda>s. s\<lparr>opened := True\<rparr>)"

section \<open>Grants\<close>

definition new_grant_id :: "'w env \<Rightarrow> ('w sys, string) prog" where
  "new_grant_id E = bindM (draw_hex E 5) (\<lambda>h. ret (ROLE_PREFIX @ h))"

record new_grant =
  n_id :: string
  n_db_type :: db_type
  n_scope :: scope
  n_tables :: "string list"
  n_commands :: "string list"
  n_requested_for :: string
  n_issued_by :: string
  n_ttl_seconds :: int

definition grant_row :: "new_grant \<Rightarrow> real \<Rightarrow> grant" where
  "grant_row n t =
     \<lparr>g_id = n_id n, g_db_type = n_db_type n, g_scope = n_scope n, g_tables = n_tables n,
      g_commands = n_commands n, g_requested_for = n_requested_for n, g_issued_by = n_issued_by n,
      g_ttl_seconds = n_ttl_seconds n, g_status = Issuing, g_created_at = t, g_expires_at = None,
      g_username = None, g_lease_id = None, g_token_accessor = None, g_last_error = None,
      g_updated_at = t\<rparr>"

definition db_insert_grant :: "new_grant \<Rightarrow> real \<Rightarrow> database \<Rightarrow> exn + unit \<times> database" where
  "db_insert_grant n t d =
     (case tab_insert g_id (grant_row n t) (grants_tab d) of
        None \<Rightarrow> Inl (Exn IntegrityError ''UNIQUE constraint failed: grants.id'')
      | Some tab \<Rightarrow> Inr ((), d\<lparr>grants_tab := tab\<rparr>))"

definition insert_grant :: "'w env \<Rightarrow> new_grant \<Rightarrow> ('w sys, unit) prog" where
  "insert_grant E n = bindM (now E) (\<lambda>t. tx (db_insert_grant n t))"

text \<open>The keyword arguments of \<open>update_grant\<close>: the columns the program ever sets.\<close>

datatype grant_field =
    Status status | Username string | Lease_id string | Expires_at real
  | Token_accessor string | Last_error "string option"

fun set_field :: "grant_field \<Rightarrow> grant \<Rightarrow> grant" where
  "set_field (Status st) g = g\<lparr>g_status := st\<rparr>"
| "set_field (Username u) g = g\<lparr>g_username := Some u\<rparr>"
| "set_field (Lease_id l) g = g\<lparr>g_lease_id := Some l\<rparr>"
| "set_field (Expires_at t) g = g\<lparr>g_expires_at := Some t\<rparr>"
| "set_field (Token_accessor a) g = g\<lparr>g_token_accessor := Some a\<rparr>"
| "set_field (Last_error e) g = g\<lparr>g_last_error := e\<rparr>"

definition set_fields :: "grant_field list \<Rightarrow> real \<Rightarrow> grant \<Rightarrow> grant" where
  "set_fields fs t g = (fold set_field fs g)\<lparr>g_updated_at := t\<rparr>"

definition db_update_grant ::
  "string \<Rightarrow> grant_field list \<Rightarrow> real \<Rightarrow> database \<Rightarrow> exn + unit \<times> database" where
  "db_update_grant gid fs t d =
     Inr ((), d\<lparr>grants_tab := tab_update g_id gid (set_fields fs t) (grants_tab d)\<rparr>)"

definition update_grant :: "'w env \<Rightarrow> string \<Rightarrow> grant_field list \<Rightarrow> ('w sys, unit) prog" where
  "update_grant E gid fs = bindM (now E) (\<lambda>t. tx (db_update_grant gid fs t))"

definition db_get_grant :: "string \<Rightarrow> database \<Rightarrow> grant option" where
  "db_get_grant gid d = tab_get g_id gid (grants_tab d)"

definition get_grant :: "string \<Rightarrow> ('w sys, grant option) prog" where
  "get_grant gid = query (db_get_grant gid)"

text \<open>
  \<open>ORDER BY created_at\<close>, descending or not, as a stable sort: rows with equal times stay in the order
  of insertion. An empty tuple of statuses selects every row, as \<open>None\<close> does.
\<close>

definition db_list_grants :: "status list option \<Rightarrow> nat \<Rightarrow> database \<Rightarrow> grant list" where
  "db_list_grants statuses n d =
     take n (sort_key (\<lambda>g. - g_created_at g)
       (case statuses of
          None \<Rightarrow> grants_tab d
        | Some sts \<Rightarrow> if sts = [] then grants_tab d
                      else filter (\<lambda>g. g_status g \<in> set sts) (grants_tab d)))"

definition list_grants :: "status list option \<Rightarrow> nat \<Rightarrow> ('w sys, grant list) prog" where
  "list_grants statuses n = query (db_list_grants statuses n)"

definition db_list_by_status :: "status list \<Rightarrow> database \<Rightarrow> grant list" where
  "db_list_by_status statuses d =
     sort_key g_created_at (filter (\<lambda>g. g_status g \<in> set statuses) (grants_tab d))"

definition list_by_status :: "status list \<Rightarrow> ('w sys, grant list) prog" where
  "list_by_status statuses = query (db_list_by_status statuses)"

section \<open>Audit\<close>

definition db_audit ::
  "string option \<Rightarrow> string option \<Rightarrow> string \<Rightarrow> string \<Rightarrow> string \<Rightarrow> string \<Rightarrow> real \<Rightarrow> database
     \<Rightarrow> exn + unit \<times> database" where
  "db_audit rid gid actor action result detail t d =
     Inr ((), d\<lparr>audit_tab := audit_tab d @
             [\<lparr>a_id = Suc (audit_seq d), a_ts = t, a_request_id = rid, a_grant_id = gid,
               a_actor = actor, a_action = action, a_result = result, a_detail = take 500 detail\<rparr>],
           audit_seq := Suc (audit_seq d)\<rparr>)"

text \<open>The clock is read inside the transaction, after the check that the store is open.\<close>

definition audit ::
  "'w env \<Rightarrow> string option \<Rightarrow> string option \<Rightarrow> string \<Rightarrow> string \<Rightarrow> string \<Rightarrow> string
     \<Rightarrow> ('w sys, unit) prog" where
  "audit E rid gid actor action result detail =
     seqM (query (\<lambda>_. ())) (bindM (now E) (\<lambda>t. tx (db_audit rid gid actor action result detail t)))"

definition audit_exists :: "string \<Rightarrow> string \<Rightarrow> ('w sys, bool) prog" where
  "audit_exists action detail =
     query (\<lambda>d. \<exists>a\<in>set (audit_tab d). a_action a = action \<and> a_detail a = detail)"

section \<open>Sessions\<close>

definition db_create_session :: "session \<Rightarrow> database \<Rightarrow> exn + unit \<times> database" where
  "db_create_session r d =
     (case tab_insert s_sid r (sessions_tab d) of
        None \<Rightarrow> Inl (Exn IntegrityError ''UNIQUE constraint failed: sessions.sid'')
      | Some tab \<Rightarrow> Inr ((), d\<lparr>sessions_tab := tab\<rparr>))"

definition create_session ::
  "'w env \<Rightarrow> string \<Rightarrow> string \<Rightarrow> ('w sys, string \<times> string) prog" where
  "create_session E username vault_token =
     bindM (draw_urlsafe E 32) (\<lambda>sid.
     bindM (draw_urlsafe E 32) (\<lambda>csrf.
     bindM (now E) (\<lambda>t.
     seqM (tx (db_create_session
       \<lparr>s_sid = sha256_hex E sid, s_username = username, s_csrf = csrf, s_vault_token = vault_token,
        s_created_at = t, s_last_seen = t, s_last_check = t\<rparr>))
     (ret (sid, csrf)))))"

definition get_session :: "'w env \<Rightarrow> string \<Rightarrow> ('w sys, session option) prog" where
  "get_session E sid = query (\<lambda>d. tab_get s_sid (sha256_hex E sid) (sessions_tab d))"

definition touch_session :: "'w env \<Rightarrow> string \<Rightarrow> bool \<Rightarrow> ('w sys, unit) prog" where
  "touch_session E sid checked =
     bindM (now E) (\<lambda>t.
     tx (\<lambda>d. Inr ((), d\<lparr>sessions_tab := tab_update s_sid (sha256_hex E sid)
       (\<lambda>r. if checked then r\<lparr>s_last_seen := t, s_last_check := t\<rparr> else r\<lparr>s_last_seen := t\<rparr>)
       (sessions_tab d)\<rparr>)))"

definition delete_session :: "'w env \<Rightarrow> string \<Rightarrow> ('w sys, unit) prog" where
  "delete_session E sid =
     tx (\<lambda>d. Inr ((), d\<lparr>sessions_tab := tab_delete s_sid (sha256_hex E sid) (sessions_tab d)\<rparr>))"

text \<open>The \<open>WHERE\<close> clause both statements of \<open>purge_sessions\<close> share.\<close>

definition session_over :: "real \<Rightarrow> session \<Rightarrow> bool" where
  "session_over t r \<longleftrightarrow>
     s_created_at r < t - real_of_int SESSION_ABSOLUTE_SECONDS
     \<or> s_last_seen r < t - real_of_int SESSION_IDLE_SECONDS"

definition purge_sessions :: "'w env \<Rightarrow> ('w sys, session list) prog" where
  "purge_sessions E =
     bindM (now E) (\<lambda>t.
     tx (\<lambda>d. Inr (filter (session_over t) (sessions_tab d),
                d\<lparr>sessions_tab := filter (\<lambda>r. \<not> session_over t r) (sessions_tab d)\<rparr>)))"

section \<open>Lemmas\<close>

text \<open>The grant and session tables are keyed stores.\<close>

interpretation gt: keyed_store "tab_get g_id" "tab_insert g_id" "tab_update g_id" "tab_delete g_id" g_id
  "keys_unique g_id"
  by (rule tables_are_keyed_stores)

interpretation st: keyed_store "tab_get s_sid" "tab_insert s_sid" "tab_update s_sid" "tab_delete s_sid" s_sid
  "keys_unique s_sid"
  by (rule tables_are_keyed_stores)

lemma wp_tx [wp_simps]:
  "wp (tx f) Q s =
     (if opened s then
        (case f (disk s) of Inl e \<Rightarrow> Q (Raise e) s | Inr (x, d) \<Rightarrow> Q (Ret x) (s\<lparr>disk := d\<rparr>))
      else Q (Raise not_open) s)"
  by (simp add: wp_def tx_def split: sum.split prod.split)

lemma query_Ret [returned]: "query f s = (Ret y, s') \<longleftrightarrow> opened s \<and> y = f (disk s) \<and> s' = s"
  by (auto simp: query_def)

lemma wp_query [wp_simps]:
  "wp (query f) Q s = (if opened s then Q (Ret (f (disk s))) s else Q (Raise not_open) s)"
  by (simp add: wp_def query_def)

lemma wp_call_ext [wp_simps]:
  "wp (call_ext f) Q s = (case f (world s) of (r, w) \<Rightarrow> Q r (s\<lparr>world := w\<rparr>))"
  by (simp add: wp_def call_ext_def split: prod.split)

lemma wp_now [wp_simps]:
  "wp (now E) Q s =
     (case clock E (world s) of (t, w) \<Rightarrow>
        (case t of Some x \<Rightarrow> Q (Ret x) (s\<lparr>world := w\<rparr>) | None \<Rightarrow> Q Halt (s\<lparr>world := w\<rparr>)))"
  by (simp add: now_def wp_call_ext split: prod.split option.split)

lemma key_set_field: "g_id (set_field f g) = g_id g"
  by (cases f) simp_all

lemma key_set_fields [simp]: "g_id (set_fields fs t g) = g_id g"
proof -
  have "g_id (fold set_field fs g) = g_id g"
    by (induction fs arbitrary: g) (simp_all add: key_set_field)
  then show ?thesis by (simp add: set_fields_def)
qed

text \<open>
  What an update does to a row: the fixed columns are untouched, and the status is the last one set.
\<close>

lemma fixed_set_field:
  "g_db_type (set_field f g) = g_db_type g" "g_scope (set_field f g) = g_scope g"
  "g_tables (set_field f g) = g_tables g" "g_commands (set_field f g) = g_commands g"
  "g_issued_by (set_field f g) = g_issued_by g" "g_ttl_seconds (set_field f g) = g_ttl_seconds g"
  "g_requested_for (set_field f g) = g_requested_for g" "g_created_at (set_field f g) = g_created_at g"
  by (cases f; simp)+

lemma db_type_set_fields [simp]: "g_db_type (set_fields fs t g) = g_db_type g"
proof -
  have "g_db_type (fold set_field fs g) = g_db_type g"
    by (induction fs arbitrary: g) (simp_all add: fixed_set_field)
  then show ?thesis by (simp add: set_fields_def)
qed

fun last_status :: "grant_field list \<Rightarrow> status \<Rightarrow> status" where
  "last_status [] st = st"
| "last_status (Status x # fs) st = last_status fs x"
| "last_status (_ # fs) st = last_status fs st"

lemma status_set_fields [simp]: "g_status (set_fields fs t g) = last_status fs (g_status g)"
proof -
  have "g_status (fold set_field fs g) = last_status fs (g_status g)"
  proof (induction fs arbitrary: g)
    case (Cons f fs)
    then show ?case by (cases f) simp_all
  qed simp
  then show ?thesis by (simp add: set_fields_def)
qed

text \<open>The row of a grant in a state, after each operation of the store.\<close>

definition row :: "string \<Rightarrow> 'w sys \<Rightarrow> grant option" where
  "row gid s = db_get_grant gid (disk s)"

lemma row_world [simp]: "row gid (s\<lparr>world := w\<rparr>) = row gid s"
  by (simp add: row_def)

lemma row_key: "row gid s = Some g \<Longrightarrow> g_id g = gid"
  by (auto simp: row_def db_get_grant_def dest: gt.get_key)

lemma row_same_disk: "same_disk s s' \<Longrightarrow> row gid s' = row gid s"
  by (simp add: row_def same_disk_def)

lemma db_get_update:
  "db_get_grant j (d\<lparr>grants_tab := tab_update g_id i (set_fields fs t) (grants_tab d)\<rparr>) =
     (if j = i then map_option (set_fields fs t) (db_get_grant i d) else db_get_grant j d)"
  by (simp add: db_get_grant_def gt.get_upd)

lemma db_get_audit [simp]:
  "db_get_grant j (d\<lparr>audit_tab := a, audit_seq := n\<rparr>) = db_get_grant j d"
  "db_get_grant j (d\<lparr>sessions_tab := t\<rparr>) = db_get_grant j d"
  by (simp_all add: db_get_grant_def)

text \<open>
  The writers as triples: they go through, or the process dies at the clock with the disk untouched.
\<close>

lemma wp_update_grant:
  assumes "opened s"
    and "\<And>w t. clock E (world s) = (Some t, w) \<Longrightarrow>
           Q (Ret ()) (s\<lparr>world := w, disk := (disk s)\<lparr>grants_tab :=
             tab_update g_id gid (set_fields fs t) (grants_tab (disk s))\<rparr>\<rparr>)"
    and "\<And>w. clock E (world s) = (None, w) \<Longrightarrow> Q Halt (s\<lparr>world := w\<rparr>)"
  shows "wp (update_grant E gid fs) Q s"
  using assms
  by (auto simp: update_grant_def wp_simps db_update_grant_def split: prod.split option.split)

lemma wp_audit:
  assumes "opened s"
    and "\<And>w t a. clock E (world s) = (Some t, w) \<Longrightarrow>
           Q (Ret ()) (s\<lparr>world := w, disk := (disk s)\<lparr>audit_tab := audit_tab (disk s) @ [a],
             audit_seq := Suc (audit_seq (disk s))\<rparr>\<rparr>)"
    and "\<And>w. clock E (world s) = (None, w) \<Longrightarrow> Q Halt (s\<lparr>world := w\<rparr>)"
  shows "wp (audit E rid gid actor action result detail) Q s"
  using assms by (auto simp: audit_def wp_simps db_audit_def split: prod.split option.split)

lemma wp_get_grant: "opened s \<Longrightarrow> wp (get_grant gid) Q s = Q (Ret (row gid s)) s"
  by (simp add: get_grant_def wp_simps row_def)

section \<open>Frames of the store\<close>

text \<open>What every operation keeps: the store stays open, no grant is removed, and the audit table
  only grows.\<close>

definition history_kept :: "'w sys \<Rightarrow> 'w sys \<Rightarrow> bool" where
  "history_kept s s' \<longleftrightarrow>
     opened s' = opened s
     \<and> prefix (audit_tab (disk s)) (audit_tab (disk s'))
     \<and> (\<forall>gid g. row gid s = Some g \<longrightarrow> (\<exists>g'. row gid s' = Some g' \<and> g_db_type g' = g_db_type g))"

interpretation history: frame history_kept
proof
  show "history_kept s s" for s :: "'w sys" by (simp add: history_kept_def)
  show "history_kept s t \<Longrightarrow> history_kept t u \<Longrightarrow> history_kept s u" for s t u :: "'w sys"
    unfolding history_kept_def by (metis prefix_order.order_trans)
qed

text \<open>Only the rows of the ids in \<open>A\<close> change, and a status that changes becomes one of \<open>S\<close>.\<close>

definition row_change :: "status set \<Rightarrow> grant option \<Rightarrow> grant option \<Rightarrow> bool" where
  "row_change S x y \<longleftrightarrow>
     y = x \<or> (\<exists>g'. y = Some g' \<and>
       (g_status g' \<in> S \<or> (\<exists>g. x = Some g \<and> g_status g' = g_status g)))"

definition rows_within :: "string set \<Rightarrow> status set \<Rightarrow> 'w sys \<Rightarrow> 'w sys \<Rightarrow> bool" where
  "rows_within A S s s' \<longleftrightarrow>
     opened s' = opened s
     \<and> (\<forall>i. (i \<notin> A \<longrightarrow> row i s' = row i s) \<and> row_change S (row i s) (row i s'))"

lemma row_change_refl [simp]: "row_change S x x"
  by (simp add: row_change_def)

lemma row_change_trans: "row_change S x y \<Longrightarrow> row_change S y z \<Longrightarrow> row_change S x z"
  by (auto simp: row_change_def)

interpretation within: frame "rows_within A S" for A S
  by unfold_locales (auto simp: rows_within_def intro: row_change_trans)

lemma rows_within_mono: "rows_within A S s s' \<Longrightarrow> A \<subseteq> B \<Longrightarrow> S \<subseteq> T \<Longrightarrow> rows_within B T s s'"
  unfolding rows_within_def row_change_def by blast

lemma outside_history: "keeps outside_only m \<Longrightarrow> keeps history_kept m"
  by (erule keeps_mono) (simp add: frame_defs history_kept_def row_def)

lemma outside_within: "keeps outside_only m \<Longrightarrow> keeps (rows_within A S) m"
  by (erule keeps_mono) (simp add: frame_defs rows_within_def row_def)

lemma query_outside [outside_keeps]: "keeps outside_only (query f)"
  by (simp add: keeps_def query_def frame_defs)

lemma get_grant_outside [outside_keeps]:
  "keeps outside_only (get_grant gid)" "keeps outside_only (list_grants sts n)"
  "keeps outside_only (list_by_status sts')" "keeps outside_only (audit_exists a d)"
  "keeps outside_only (get_session E sid)"
  by (simp_all add: get_grant_def list_grants_def list_by_status_def audit_exists_def get_session_def
      query_outside)

lemma keeps_tx:
  assumes "\<And>s x d. opened s \<Longrightarrow> f (disk s) = Inr (x, d) \<Longrightarrow> R s (s\<lparr>disk := d\<rparr>)" and "\<And>s. R s s"
  shows "keeps R (tx f)"
  using assms by (auto simp: keeps_def tx_def split: sum.split prod.split)

text \<open>The store's own operations do not touch the locks, the in-flight set or the semaphores.\<close>

lemma tx_control: "keeps same_control (tx f)"
  by (rule keeps_tx) (simp_all add: same_control_def)

lemma store_control:
  "keeps same_control (insert_grant E n)" "keeps same_control (update_grant E gid fs)"
  "keeps same_control (audit E rid gid' actor action result detail)"
  "keeps same_control (create_session E u v)" "keeps same_control (touch_session E sid b)"
  "keeps same_control (delete_session E sid)" "keeps same_control (purge_sessions E)"
  unfolding insert_grant_def update_grant_def audit_def create_session_def touch_session_def
    delete_session_def purge_sessions_def
  by (intro control.rules tx_control outside_control outside_keeps)+

lemma update_grant_history: "keeps history_kept (update_grant E gid fs)"
  unfolding update_grant_def
  by (intro history.bind outside_history outside_keeps keeps_tx)
     (auto simp: db_update_grant_def history_kept_def row_def db_get_update history.refl split: if_splits)

lemma row_change_set_fields:
  "(\<And>st. last_status fs st \<in> S \<or> last_status fs st = st) \<Longrightarrow> row_change S x (map_option (set_fields fs t) x)"
  by (cases x) (auto simp: row_change_def)

lemma update_grant_within:
  assumes "\<And>st. last_status fs st \<in> S \<or> last_status fs st = st"
  shows "keeps (rows_within {gid} S) (update_grant E gid fs)"
  unfolding update_grant_def
proof (rule within.bind [OF outside_within [OF world_programs_outside(1)]], rule keeps_tx)
  fix t and s :: "'w sys" and x d
  assume "db_update_grant gid fs t (disk s) = Inr (x, d)"
  then show "rows_within {gid} S s (s\<lparr>disk := d\<rparr>)"
    using row_change_set_fields [OF assms]
    by (auto simp: db_update_grant_def rows_within_def row_def db_get_update)
qed (rule within.refl)

text \<open>Transactions that leave the grant table and the past of the audit table alone.\<close>

lemma no_grant_change_rows:
  assumes "\<And>d x d'. f d = Inr (x, d') \<Longrightarrow> grants_tab d' = grants_tab d \<and> prefix (audit_tab d) (audit_tab d')"
  shows "keeps (rows_within A S) (tx f)" "keeps history_kept (tx f)"
  by (rule keeps_tx;
      auto simp: rows_within_def history_kept_def row_def db_get_grant_def within.refl history.refl dest!: assms)+

lemma audit_rows:
  "keeps (rows_within A S) (audit E rid gid actor action result detail)"
  "keeps history_kept (audit E rid gid actor action result detail)"
  unfolding audit_def
  by (intro within.rules history.rules outside_within outside_history outside_keeps no_grant_change_rows,
      force simp: db_audit_def)+

lemma session_rows:
  "keeps (rows_within A S) (create_session E u v)" "keeps history_kept (create_session E u v)"
  "keeps (rows_within A S) (touch_session E sid b)" "keeps history_kept (touch_session E sid b)"
  "keeps (rows_within A S) (delete_session E sid)" "keeps history_kept (delete_session E sid)"
  "keeps (rows_within A S) (purge_sessions E)" "keeps history_kept (purge_sessions E)"
  unfolding create_session_def touch_session_def delete_session_def purge_sessions_def
  by (intro within.rules history.rules outside_within outside_history outside_keeps no_grant_change_rows,
      force simp: db_create_session_def split: option.splits)+

section \<open>Properties\<close>

lemma grant_row_id [simp]: "g_id (grant_row n t) = n_id n"
  by (simp add: grant_row_def)

lemma db_insert_Inl:
  "db_insert_grant n t d = Inl e \<Longrightarrow> exc_class e = IntegrityError \<and> db_get_grant (n_id n) d \<noteq> None"
  using gt.ins_new [of "grant_row n t" "grants_tab d"]
  by (auto simp: db_insert_grant_def db_get_grant_def split: option.splits)

lemma db_insert_Inr:
  "db_insert_grant n t d = Inr (u, d') \<Longrightarrow>
     db_get_grant (n_id n) d = None
     \<and> (\<lambda>i. db_get_grant i d') = (\<lambda>i. db_get_grant i d)(n_id n \<mapsto> grant_row n t)"
  using gt.ins_iff [of "grant_row n t" "grants_tab d"]
  by (auto simp: db_insert_grant_def db_get_grant_def gt.get_ins fun_eq_iff split: option.splits)


text \<open>
  The reconciler's list is complete: it holds every row in the given statuses exactly once and no
  other, oldest first. The portal's list is the newest \<open>n\<close> such rows, newest first: what it leaves out comes
  after what it lists.
\<close>

theorem grant_lists_are_complete:
  "mset (db_list_by_status sts d) = {#g \<in># mset (grants_tab d). g_status g \<in> set sts#}
   \<and> sorted (map g_created_at (db_list_by_status sts d))
   \<and> (\<exists>rest. mset (db_list_grants None n d @ rest) = mset (grants_tab d)
        \<and> sorted (map (\<lambda>g. - g_created_at g) (db_list_grants None n d @ rest))
        \<and> length (db_list_grants None n d) = min n (length (grants_tab d)))"
proof -
  let ?all = "sort_key (\<lambda>g. - g_created_at g) (grants_tab d)"
  have "db_list_grants None n d @ drop n ?all = ?all" by (simp add: db_list_grants_def)
  moreover have "length (db_list_grants None n d) = min n (length (grants_tab d))"
    by (simp add: db_list_grants_def min.commute)
  ultimately have "\<exists>rest. mset (db_list_grants None n d @ rest) = mset (grants_tab d)
        \<and> sorted (map (\<lambda>g. - g_created_at g) (db_list_grants None n d @ rest))
        \<and> length (db_list_grants None n d) = min n (length (grants_tab d))"
    by (intro exI [of _ "drop n ?all"]) simp
  then show ?thesis by (simp add: db_list_by_status_def)
qed

text \<open>
  A session can be found by its id and only a digest of the id is stored: after a login that returned
  \<open>sid\<close> and a CSRF token, the lookup with \<open>sid\<close> gives that user's new row, whose key is the hash.
\<close>

lemma session_round_trip:
  "case create_session E u tok s of
     (Ret (sid, csrf), s') \<Rightarrow> (\<exists>t. get_session E sid s' =
        (Ret (Some \<lparr>s_sid = sha256_hex E sid, s_username = u, s_csrf = csrf, s_vault_token = tok,
           s_created_at = t, s_last_seen = t, s_last_check = t\<rparr>), s'))
   | (_, s') \<Rightarrow> disk s' = disk s"
proof -
  have "wp (create_session E u tok) (\<lambda>r s'. case r of
      Ret (sid, csrf) \<Rightarrow> (\<exists>t. opened s' \<and> tab_get s_sid (sha256_hex E sid) (sessions_tab (disk s')) =
        Some \<lparr>s_sid = sha256_hex E sid, s_username = u, s_csrf = csrf, s_vault_token = tok,
           s_created_at = t, s_last_seen = t, s_last_check = t\<rparr>)
    | _ \<Rightarrow> disk s' = disk s) s"
    by (auto simp: create_session_def draw_urlsafe_def wp_simps db_create_session_def st.get_ins
        split: prod.split option.split)
  then show ?thesis
    by (auto simp: wp_def get_session_def query_def split: prod.splits outcome.splits)
qed

text \<open>
  Purging sessions splits the table: for the time it reads, the rows it returns, whose tokens are then revoked, are
  exactly those past a limit, the rows it keeps exactly those within both, and no row is lost.
\<close>

theorem purge_splits_sessions:
  "case purge_sessions E s of
     (Ret over, s') \<Rightarrow> (\<exists>t. list_all (session_over t) over
        \<and> list_all (\<lambda>r. \<not> session_over t r) (sessions_tab (disk s'))
        \<and> mset over + mset (sessions_tab (disk s')) = mset (sessions_tab (disk s)))
   | (_, s') \<Rightarrow> disk s' = disk s"
proof -
  have "wp (purge_sessions E) (\<lambda>r s'. case r of
      Ret over \<Rightarrow> (\<exists>t. list_all (session_over t) over
        \<and> list_all (\<lambda>r. \<not> session_over t r) (sessions_tab (disk s'))
        \<and> mset over + mset (sessions_tab (disk s')) = mset (sessions_tab (disk s)))
    | _ \<Rightarrow> disk s' = disk s) s"
    by (auto simp: purge_sessions_def wp_simps list_all_iff split: prod.split option.split)
  then show ?thesis by (auto simp: wp_def split: prod.splits outcome.splits)
qed

end
