(* ===== verification/Vault_Client.thy ===== *)
theory Vault_Client
  imports Store
begin

text \<open>
  \<open>vault_client.py\<close>: the service client that logs in with the AppRole and logs in again after a 403,
  and the calls to Vault that issue, revoke and reconcile make through it. A client is its token;
  Vault's answers are JSON values, taken apart as the code does.
\<close>

section \<open>The service client\<close>

definition RELOGIN_AFTER :: real where "RELOGIN_AFTER = 45 * 60"

type_synonym client = "string option"

definition unavailable :: "string \<Rightarrow> exn \<Rightarrow> exn" where
  "unavailable what e = Exn VaultUnavailable (what @ type_name e)"

definition quiet :: "('s, unit) prog \<Rightarrow> ('s, unit) prog" where
  "quiet m = try_except m is_exception (\<lambda>_. skip)"

definition ignore :: "('s, 'a) prog \<Rightarrow> ('s, unit) prog" where
  "ignore m = bindM m (\<lambda>_. skip)"

definition read_approle :: "'w env \<Rightarrow> ('w sys, string \<times> string) prog" where
  "read_approle E =
     try_except
       (bindM (call_ext (read_text E (APPROLE_DIR (cfg E) @ ''/role_id''))) (\<lambda>r.
        bindM (call_ext (read_text E (APPROLE_DIR (cfg E) @ ''/secret_id''))) (\<lambda>s.
        ret (strip r, strip s))))
       is_os_error
       (\<lambda>_. raise (Exn VaultUnavailable ''AppRole credentials not available (has `make up` / setup run?)''))"

text \<open>\<open>Service._login\<close>: the old client's token is revoked once the new one is in place.\<close>

definition service_login :: "'w env \<Rightarrow> ('w sys, client) prog" where
  "service_login E =
     bindM (read_approle E) (\<lambda>(role_id, secret_id).
     bindM (try_except (call_ext (approle_login E role_id secret_id))
              (\<lambda>e. is_vault_error e \<or> is_os_error e)
              (\<lambda>e. raise (unavailable ''AppRole login failed: '' e))) (\<lambda>token.
     bindM (gets svc_client) (\<lambda>old.
     bindM (now E) (\<lambda>t.
     seqM (modify (\<lambda>s. s\<lparr>svc_client := Some token, svc_logged_in_at := t\<rparr>))
     (seqM (case old of
              None \<Rightarrow> skip
            | Some tok \<Rightarrow> quiet (ignore (call_ext (token_revoke_self E (Some tok)))))
     (ret (Some token)))))))"

definition service_client :: "'w env \<Rightarrow> ('w sys, client) prog" where
  "service_client E =
     bindM (gets svc_client) (\<lambda>c.
     case c of
       None \<Rightarrow> service_login E
     | Some tok \<Rightarrow>
         bindM (now E) (\<lambda>t.
         bindM (gets svc_logged_in_at) (\<lambda>since.
         if t - since > RELOGIN_AFTER then service_login E else ret (Some tok))))"

definition service_call :: "'w env \<Rightarrow> (client \<Rightarrow> ('w sys, 'a) prog) \<Rightarrow> ('w sys, 'a) prog" where
  "service_call E fn =
     catchM (bindM (service_client E) fn) (\<lambda>e.
       if exc_class e = Forbidden then bindM (service_login E) fn
       else if exc_class e = VaultDown \<or> is_os_error e then raise (unavailable ''Vault unavailable: '' e)
       else raise e)"

section \<open>Roles and grant tokens\<close>

definition seconds :: "int \<Rightarrow> json" where
  "seconds ttl = JStr (show_int ttl @ ''s'')"

definition write_role ::
  "'w env \<Rightarrow> string \<Rightarrow> db_type \<Rightarrow> string list \<Rightarrow> string list \<Rightarrow> int \<Rightarrow> ('w sys, unit) prog" where
  "write_role E role db creation revocation ttl =
     ignore (service_call E (\<lambda>c. call_ext (vault_write E c (''database/roles/'' @ role)
       [(''db_name'', JStr (connection_name db)),
        (''creation_statements'', JArr (map JStr creation)),
        (''revocation_statements'', JArr (map JStr revocation)),
        (''default_ttl'', seconds ttl),
        (''max_ttl'', seconds ttl)])))"

definition delete_role :: "'w env \<Rightarrow> string \<Rightarrow> ('w sys, unit) prog" where
  "delete_role E role =
     ignore (service_call E (\<lambda>c. call_ext (vault_delete E c (''database/roles/'' @ role))))"

definition create_grant_token :: "'w env \<Rightarrow> int \<Rightarrow> string \<Rightarrow> ('w sys, string \<times> string) prog" where
  "create_grant_token E ttl label =
     bindM (service_call E (\<lambda>c. call_ext (vault_write E c (''auth/token/create/'' @ TOKEN_ROLE_NAME)
       [(''ttl'', seconds (ttl + TOKEN_GRACE_SECONDS)), (''display_name'', JStr label)]))) (\<lambda>resp.
     bindM (lift (sbind (item resp ''auth'') (\<lambda>a. sbind (item a ''client_token'') as_string))) (\<lambda>token.
     bindM (lift (sbind (item resp ''auth'') (\<lambda>a. sbind (item a ''accessor'') as_string))) (\<lambda>accessor.
     ret (token, accessor))))"

definition MAX_ACCESSOR_SCAN :: int where "MAX_ACCESSOR_SCAN = 20000"

definition gone :: "exn \<Rightarrow> bool" where
  "gone e \<longleftrightarrow> (exc_class e = InvalidRequest \<or> exc_class e = InvalidPath)
              \<and> contains ''invalid accessor'' (lower (exc_msg e))"

text \<open>\<open>(resp or {}).get("data", {}).get("keys", [])\<close>.\<close>

definition list_keys :: "json \<Rightarrow> exn + string list" where
  "list_keys resp =
     sbind (get_item (if truthy resp then resp else JObj []) ''data'' (JObj [])) (\<lambda>d.
     sbind (get_item d ''keys'' (JArr [])) as_string_list)"

definition wanted_names :: "string \<Rightarrow> string list" where
  "wanted_names label =
     [''token-'' @ replace_char CHR ''_'' CHR ''-'' label, ''token-'' @ label, label]"

definition display_name_is :: "string list \<Rightarrow> json \<Rightarrow> exn + bool" where
  "display_name_is names info =
     sbind (item info ''data'') (\<lambda>d.
     sbind (get_item d ''display_name'' JNull) (\<lambda>n.
     Inr (case n of JStr s \<Rightarrow> s \<in> set names | _ \<Rightarrow> False)))"

definition lookup_accessor :: "'w env \<Rightarrow> string \<Rightarrow> ('w sys, json option) prog" where
  "lookup_accessor E acc =
     try_except
       (bindM (service_call E (\<lambda>c. call_ext (vault_write E c ''auth/token/lookup-accessor''
          [(''accessor'', JStr acc)]))) (\<lambda>info. ret (Some info)))
       is_exception
       (\<lambda>e. if gone e then ret None else raise e)"

definition find_token_accessors :: "'w env \<Rightarrow> string \<Rightarrow> ('w sys, string list) prog" where
  "find_token_accessors E label =
     bindM (service_call E (\<lambda>c. call_ext (vault_list E c ''auth/token/accessors''))) (\<lambda>resp.
     bindM (lift (list_keys resp)) (\<lambda>keys.
     if int (length keys) > MAX_ACCESSOR_SCAN then
       raise (Exn RuntimeError (show_nat (length keys) @
         '' tokens: too many to scan, cannot confirm the grant token is gone''))
     else filterM keys (\<lambda>acc.
       bindM (lookup_accessor E acc) (\<lambda>info.
       case info of
         None \<Rightarrow> ret False
       | Some i \<Rightarrow> lift (display_name_is (wanted_names label) i)))))"

section \<open>Credentials and leases\<close>

record creds =
  c_username :: string
  c_password :: string
  c_lease_id :: string
  c_lease_duration :: int

definition parse_creds :: "json \<Rightarrow> exn + creds" where
  "parse_creds resp =
     sbind (sbind (item resp ''data'') (\<lambda>d. sbind (item d ''username'') as_string)) (\<lambda>u.
     sbind (sbind (item resp ''data'') (\<lambda>d. sbind (item d ''password'') as_string)) (\<lambda>p.
     sbind (sbind (item resp ''lease_id'') as_string) (\<lambda>l.
     sbind (sbind (item resp ''lease_duration'') as_int) (\<lambda>n.
     Inr \<lparr>c_username = u, c_password = p, c_lease_id = l, c_lease_duration = n\<rparr>))))"

text \<open>Read with the grant's own token, not through the service client.\<close>

definition read_credentials :: "'w env \<Rightarrow> string \<Rightarrow> string \<Rightarrow> ('w sys, creds) prog" where
  "read_credentials E grant_token role =
     bindM (call_ext (vault_read E (Some grant_token) (''database/creds/'' @ role))) (\<lambda>resp.
     if resp = JNull then raise (Exn RuntimeError ''empty credentials response'')
     else lift (parse_creds resp))"

definition list_leases :: "'w env \<Rightarrow> string \<Rightarrow> ('w sys, string list) prog" where
  "list_leases E role =
     bindM (service_call E (\<lambda>c. call_ext (vault_list E c (''sys/leases/lookup/database/creds/'' @ role)))) (\<lambda>resp.
     bindM (lift (list_keys resp)) (\<lambda>keys.
     ret (map (\<lambda>k. ''database/creds/'' @ role @ ''/'' @ k) keys)))"

definition lease_gone :: "exn \<Rightarrow> bool" where
  "lease_gone e \<longleftrightarrow> (exc_class e = InvalidPath \<or> exc_class e = InvalidRequest)
     \<and> (contains ''not found'' (lower (exc_msg e)) \<or> contains ''invalid lease'' (lower (exc_msg e)))"

definition revoke_lease :: "'w env \<Rightarrow> string \<Rightarrow> ('w sys, unit) prog" where
  "revoke_lease E lease_id =
     try_except
       (ignore (service_call E (\<lambda>c. call_ext (vault_write E c (''sys/leases/revoke/'' @ lease_id)
          [(''sync'', JBool True)]))))
       (\<lambda>e. exc_class e = InvalidPath \<or> exc_class e = InvalidRequest)
       (\<lambda>e. if lease_gone e then skip else raise e)"

definition accessor_gone :: "exn \<Rightarrow> bool" where
  "accessor_gone e \<longleftrightarrow> contains ''invalid accessor'' (lower (exc_msg e))"

definition revoke_accessor :: "'w env \<Rightarrow> string \<Rightarrow> ('w sys, unit) prog" where
  "revoke_accessor E accessor =
     try_except
       (ignore (service_call E (\<lambda>c. call_ext (vault_write E c ''auth/token/revoke-accessor''
          [(''accessor'', JStr accessor)]))))
       (\<lambda>e. exc_class e \<in> {InvalidPath, InvalidRequest, Forbidden})
       (\<lambda>e. if accessor_gone e then skip else raise e)"

section \<open>Running statements as the manager\<close>

text \<open>
  The \<open>finally\<close> block sees the variables as far as they were assigned when the body stopped: the
  lease and the accessor are \<open>None\<close> before their assignments. Falsy values are skipped.
\<close>

fun given :: "string option \<Rightarrow> bool" where
  "given None = False"
| "given (Some x) = (x \<noteq> [])"

definition helper_cleanup :: "'w env \<Rightarrow> string \<Rightarrow> string option \<Rightarrow> string option \<Rightarrow> ('w sys, unit) prog" where
  "helper_cleanup E role lease accessor =
     seqM (whenM (given lease) (quiet (revoke_lease E (the lease))))
     (seqM (whenM (given accessor) (quiet (revoke_accessor E (the accessor))))
     (quiet (delete_role E role)))"

definition on_error :: "('s, 'a) prog \<Rightarrow> ('s, unit) prog \<Rightarrow> ('s, 'a) prog" where
  "on_error m f = catchM m (\<lambda>e. seqM f (raise e))"

definition run_as_manager :: "'w env \<Rightarrow> db_type \<Rightarrow> string \<Rightarrow> string list \<Rightarrow> ('w sys, unit) prog" where
  "run_as_manager E db label statements =
     seqM (on_error (write_role E label db statements [''SELECT 1''] HELPER_TTL_SECONDS)
             (helper_cleanup E label None None))
     (bindM (on_error (create_grant_token E HELPER_TTL_SECONDS label)
               (helper_cleanup E label None None)) (\<lambda>(token, accessor).
     bindM (on_error (read_credentials E token label)
               (helper_cleanup E label None (Some accessor))) (\<lambda>creds.
     helper_cleanup E label (Some (c_lease_id creds)) (Some accessor))))"

definition rotate_root :: "'w env \<Rightarrow> db_type \<Rightarrow> ('w sys, unit) prog" where
  "rotate_root E db =
     ignore (service_call E (\<lambda>c. call_ext (vault_write E c (''database/rotate-root/'' @ connection_name db) [])))"

definition introspect_credentials :: "'w env \<Rightarrow> db_type \<Rightarrow> ('w sys, string \<times> string) prog" where
  "introspect_credentials E db =
     bindM (service_call E (\<lambda>c. call_ext (kv_read E c (''vdba/introspect/'' @ db_value db)))) (\<lambda>resp.
     lift (sbind (item resp ''data'') (\<lambda>d. sbind (item d ''data'') (\<lambda>data.
       sbind (sbind (item data ''username'') as_string) (\<lambda>u.
       sbind (sbind (item data ''password'') as_string) (\<lambda>p. Inr (u, p)))))))"

section \<open>Admin login\<close>

definition userpass_login :: "'w env \<Rightarrow> string \<Rightarrow> string \<Rightarrow> ('w sys, string \<times> string list) prog" where
  "userpass_login E username password =
     bindM (catchM (call_ext (userpass_auth E username password)) (\<lambda>e.
              if exc_class e = InvalidRequest then raise (Exn PermissionError ''invalid credentials'')
              else if is_vault_error e \<or> is_os_error e then raise (unavailable ''Vault unavailable: '' e)
              else raise e)) (\<lambda>r.
     lift (sbind (sbind (item r ''auth'') (\<lambda>a. sbind (item a ''client_token'') as_string)) (\<lambda>token.
           sbind (sbind (item r ''auth'') (\<lambda>a. sbind (get_item a ''token_policies'' (JArr [])) as_string_list))
             (\<lambda>policies. Inr (token, policies)))))"

text \<open>\<open>re.fullmatch(r"[A-Za-z0-9_.@-]{1,128}", username)\<close>.\<close>

definition username_fullmatch :: "string \<Rightarrow> bool" where
  "username_fullmatch u \<longleftrightarrow> 1 \<le> length u \<and> length u \<le> 128
     \<and> list_all (\<lambda>c. is_alpha c \<or> is_digit c \<or> c \<in> {CHR ''_'', CHR ''.'', CHR ''@'', CHR ''-''}) u"

definition user_policies :: "'w env \<Rightarrow> string \<Rightarrow> ('w sys, string list option) prog" where
  "user_policies E username =
     (if \<not> username_fullmatch username then ret None
      else bindM
        (try_except
           (bindM (service_call E (\<lambda>c. call_ext (vault_read E c (''auth/userpass/users/'' @ username))))
              (\<lambda>resp. ret (Some resp)))
           (\<lambda>e. exc_class e = InvalidPath)
           (\<lambda>_. ret None)) (\<lambda>r.
        case r of
          None \<Rightarrow> ret None
        | Some resp \<Rightarrow>
            if resp = JNull then ret None
            else lift (sbind (item resp ''data'') (\<lambda>d.
                       sbind (get_item d ''token_policies'' JNull) (\<lambda>ps.
                       sbind (as_string_list (if truthy ps then ps else JArr [])) (\<lambda>xs. Inr (Some xs)))))))"

definition token_policies :: "'w env \<Rightarrow> string \<Rightarrow> ('w sys, string list option) prog" where
  "token_policies E token =
     catchM
       (bindM (call_ext (token_lookup_self E (Some token))) (\<lambda>r.
        lift (sbind (item r ''data'') (\<lambda>d. sbind (item d ''policies'') (\<lambda>ps.
              sbind (as_string_list ps) (\<lambda>xs. Inr (Some xs)))))))
       (\<lambda>e. if exc_class e = Forbidden then ret None
            else if is_vault_error e \<or> is_os_error e then raise (unavailable ''Vault unavailable: '' e)
            else raise e)"

definition revoke_token_quietly :: "'w env \<Rightarrow> string \<Rightarrow> ('w sys, unit) prog" where
  "revoke_token_quietly E token = quiet (ignore (call_ext (token_revoke_self E (Some token))))"

section \<open>Lemmas\<close>

text \<open>Nothing here touches the database file, the locks, the in-flight set or the semaphores.\<close>

lemma quiet_outside [outside_keeps]: "keeps outside_only m \<Longrightarrow> keeps outside_only (quiet m)"
  by (simp add: quiet_def outside.try_exc outside.ret)

lemma ignore_outside [outside_keeps]: "keeps outside_only m \<Longrightarrow> keeps outside_only (ignore m)"
  by (simp add: ignore_def outside.bind outside.ret)

lemma remember_client_outside:
  "keeps outside_only (modify (\<lambda>s. s\<lparr>svc_client := c, svc_logged_in_at := t\<rparr>))"
  by (rule keeps_modify) (simp add: frame_defs)

lemma service_login_outside [outside_keeps]: "keeps outside_only (service_login E)"
  unfolding service_login_def read_approle_def
  by (intro outside.rules outside_keeps remember_client_outside)

lemma service_client_outside [outside_keeps]: "keeps outside_only (service_client E)"
  unfolding service_client_def by (intro outside.rules outside_keeps)

lemma service_call_outside:
  "(\<And>c. keeps outside_only (fn c)) \<Longrightarrow> keeps outside_only (service_call E fn)"
  unfolding service_call_def by (intro outside.rules outside_keeps)

lemmas outside_intros = outside.rules service_call_outside

lemma vault_client_outside [outside_keeps]:
  "keeps outside_only (write_role E r db cs rs n)" "keeps outside_only (delete_role E r)"
  "keeps outside_only (create_grant_token E n r)" "keeps outside_only (lookup_accessor E a)"
  "keeps outside_only (read_credentials E tok r)" "keeps outside_only (list_leases E r)"
  "keeps outside_only (revoke_lease E l)" "keeps outside_only (revoke_accessor E a)"
  "keeps outside_only (introspect_credentials E db)" "keeps outside_only (rotate_root E db)"
  "keeps outside_only (user_policies E u)" "keeps outside_only (token_policies E tok)"
  "keeps outside_only (userpass_login E u pw)" "keeps outside_only (revoke_token_quietly E tok)"
  unfolding write_role_def delete_role_def create_grant_token_def lookup_accessor_def
    read_credentials_def list_leases_def revoke_lease_def revoke_accessor_def
    introspect_credentials_def rotate_root_def user_policies_def token_policies_def
    userpass_login_def revoke_token_quietly_def
  by (intro outside_intros outside_keeps)+

lemma find_token_accessors_outside [outside_keeps]: "keeps outside_only (find_token_accessors E r)"
  unfolding find_token_accessors_def by (intro outside_intros outside_keeps)

lemma helper_cleanup_outside [outside_keeps]: "keeps outside_only (helper_cleanup E r l a)"
  unfolding helper_cleanup_def by (intro outside_intros outside_keeps)

lemma on_error_outside [outside_keeps]:
  "keeps outside_only m \<Longrightarrow> keeps outside_only f \<Longrightarrow> keeps outside_only (on_error m f)"
  unfolding on_error_def by (intro outside.rules)

lemma run_as_manager_outside [outside_keeps]: "keeps outside_only (run_as_manager E db l sts)"
  unfolding run_as_manager_def by (intro outside_intros outside_keeps)

section \<open>Properties\<close>

text \<open>
  C23. What comes out of the service client when Vault cannot be reached. A connection error of the first attempt is
  always turned into \<open>VaultUnavailable\<close>; one that comes out as it is was raised by the second attempt, after
  a 403 and a new login.
\<close>

theorem transport_errors_escape_only_after_403:
  "case service_call E fn s of
     (Raise e, s') \<Rightarrow>
       (if exc_class e = VaultDown \<or> is_os_error e
        then \<exists>e0 s0. bindM (service_client E) fn s = (Raise e0, s0) \<and> exc_class e0 = Forbidden
               \<and> bindM (service_login E) fn s0 = (Raise e, s')
        else True)
   | _ \<Rightarrow> True"
proof -
  obtain r s1 where m: "bindM (service_client E) fn s = (r, s1)" by fastforce
  show ?thesis
    using m by (cases r) (auto simp: service_call_def catchM_def raise_def unavailable_def is_os_error_def
        split: prod.splits outcome.splits)
qed

text \<open>A call by a client that is logged in, to a Vault whose answer does not depend on the moment.\<close>

definition logged_in :: "'w env \<Rightarrow> 'w sys \<Rightarrow> bool" where
  "logged_in E s \<longleftrightarrow> svc_client s \<noteq> None
     \<and> (\<forall>w. \<exists>t w'. clock E w = (Some t, w') \<and> t - svc_logged_in_at s \<le> RELOGIN_AFTER)"

lemma logged_in_world [simp]: "logged_in E (s\<lparr>world := w\<rparr>) = logged_in E s"
  by (simp add: logged_in_def)

lemma logged_in_call:
  assumes "logged_in E s" and "\<And>c w. f c w = (r, w)"
    and "\<And>e. r = Raise e \<Longrightarrow> exc_class e = InvalidRequest"
  shows "\<exists>w. service_call E (\<lambda>c. call_ext (f c)) s = (r, s\<lparr>world := w\<rparr>)"
proof -
  obtain tok t w where c: "svc_client s = Some tok" "clock E (world s) = (Some t, w)"
    "t - svc_logged_in_at s \<le> RELOGIN_AFTER"
    using assms(1) unfolding logged_in_def by (metis not_None_eq)
  have "service_client E s = (Ret (Some tok), s\<lparr>world := w\<rparr>)"
    using c by (simp add: service_client_def bindM_def gets_def now_def call_ext_def ret_def)
  then have "bindM (service_client E) (\<lambda>c. call_ext (f c)) s = (r, s\<lparr>world := w\<rparr>)"
    by (simp add: bindM_def call_ext_def assms(2))
  moreover have "\<not> is_os_error e" if "r = Raise e" for e
    using assms(3) [OF that] by (simp add: is_os_error_def)
  ultimately show ?thesis
    using assms(3) by (cases r) (auto simp: service_call_def catchM_def raise_def)
qed

text \<open>
  Vault's documented answers to a listing of accessors and to the lookup of one: \<open>names a\<close> is the display
  name of the token with accessor \<open>a\<close>, \<open>None\<close> for one that has expired since it was listed.
\<close>

definition accessor_list :: "string list \<Rightarrow> json" where
  "accessor_list keys = JObj [(''data'', JObj [(''keys'', JArr (map JStr keys))])]"

fun token_answer :: "string option \<Rightarrow> json outcome" where
  "token_answer (Some n) = Ret (JObj [(''data'', JObj [(''display_name'', JStr n)])])"
| "token_answer None = Raise (Exn InvalidRequest ''invalid accessor'')"

definition token_directory :: "'w env \<Rightarrow> string list \<Rightarrow> (string \<rightharpoonup> string) \<Rightarrow> bool" where
  "token_directory E keys names \<longleftrightarrow>
     (\<forall>c w. vault_list E c ''auth/token/accessors'' w = (Ret (accessor_list keys), w))
     \<and> (\<forall>c w a. vault_write E c ''auth/token/lookup-accessor'' [(''accessor'', JStr a)] w = (token_answer (names a), w))"

lemma as_strings_JStr: "as_strings (map JStr xs) = Inr xs"
  by (induction xs) simp_all

lemma list_keys_accessors: "list_keys (accessor_list keys) = Inr keys"
  by (simp add: list_keys_def accessor_list_def as_strings_JStr)

lemma gone_invalid: "gone (Exn InvalidRequest ''invalid accessor'')"
  by (simp add: gone_def lower_def lower_char_def char_class_defs)

definition named :: "string \<Rightarrow> (string \<rightharpoonup> string) \<Rightarrow> string \<Rightarrow> bool" where
  "named label names a \<longleftrightarrow> (case names a of Some n \<Rightarrow> n \<in> set (wanted_names label) | None \<Rightarrow> False)"

lemma lookup_step:
  assumes "token_directory E keys names" "logged_in E s"
  shows "\<exists>w. bindM (lookup_accessor E a) (\<lambda>info. case info of None \<Rightarrow> ret False
      | Some i \<Rightarrow> lift (display_name_is (wanted_names label) i)) s = (Ret (named label names a), s\<lparr>world := w\<rparr>)"
proof -
  have "\<exists>w. service_call E (\<lambda>c. call_ext (vault_write E c ''auth/token/lookup-accessor'' [(''accessor'', JStr a)])) s
      = (token_answer (names a), s\<lparr>world := w\<rparr>)"
    using assms by (intro logged_in_call) (auto simp: token_directory_def elim: token_answer.elims)
  then show ?thesis
    by (cases "names a")
      (auto simp: lookup_accessor_def try_except_def catchM_def bindM_def ret_def raise_def lift_def named_def
        display_name_is_def gone_invalid is_exception_def)
qed

lemma search_step:
  assumes "token_directory E keys names" "logged_in E s"
  shows "\<exists>w. filterM xs (\<lambda>acc. bindM (lookup_accessor E acc) (\<lambda>info. case info of None \<Rightarrow> ret False
      | Some i \<Rightarrow> lift (display_name_is (wanted_names label) i))) s = (Ret (filter (named label names) xs), s\<lparr>world := w\<rparr>)"
  using assms(2)
proof (induction xs arbitrary: s)
  case (Cons a xs)
  obtain w where a: "bindM (lookup_accessor E a) (\<lambda>info. case info of None \<Rightarrow> ret False
      | Some i \<Rightarrow> lift (display_name_is (wanted_names label) i)) s = (Ret (named label names a), s\<lparr>world := w\<rparr>)"
    using lookup_step [OF assms(1) Cons.prems] by blast
  obtain w' where "filterM xs (\<lambda>acc. bindM (lookup_accessor E acc) (\<lambda>info. case info of None \<Rightarrow> ret False
      | Some i \<Rightarrow> lift (display_name_is (wanted_names label) i))) (s\<lparr>world := w\<rparr>)
      = (Ret (filter (named label names) xs), s\<lparr>world := w'\<rparr>)"
    using Cons.IH [of "s\<lparr>world := w\<rparr>"] Cons.prems by auto
  with a show ?case
    by (simp add: bindM_def [of "bindM m k" for m k] bindM_def [of "filterM m k" for m k] ret_def)
       (rule exI [of _ w'], rule HOL.refl)
next
  case Nil
  show ?case by (rule exI [of _ "world s"]) (simp add: ret_def)
qed

text \<open>
  C19. The search for a grant's token is complete. With the service logged in and the token list below the
  limit, it returns the accessors of exactly those listed tokens whose display name is one of the
  names Vault may give the grant's token; a token that expired in between is passed over. Above the
  limit it raises instead of returning a partial answer.
\<close>

theorem token_search_is_complete:
  assumes "token_directory E keys names" and "logged_in E s"
  shows "fst (find_token_accessors E label s) =
    (if length keys \<le> 20000 then Ret (filter (named label names) keys)
     else Raise (Exn RuntimeError (show_nat (length keys) @ '' tokens: too many to scan, cannot confirm the grant token is gone'')))"
proof -
  obtain w where l: "service_call E (\<lambda>c. call_ext (vault_list E c ''auth/token/accessors'')) s
      = (Ret (accessor_list keys), s\<lparr>world := w\<rparr>)"
    using assms logged_in_call [OF assms(2), of "\<lambda>c. vault_list E c ''auth/token/accessors''" "Ret (accessor_list keys)"]
    by (auto simp: token_directory_def)
  have limit: "int (length keys) > MAX_ACCESSOR_SCAN \<longleftrightarrow> \<not> length keys \<le> 20000"
    unfolding MAX_ACCESSOR_SCAN_def by linarith
  obtain w' where "filterM keys (\<lambda>acc. bindM (lookup_accessor E acc) (\<lambda>info. case info of None \<Rightarrow> ret False
      | Some i \<Rightarrow> lift (display_name_is (wanted_names label) i))) (s\<lparr>world := w\<rparr>)
      = (Ret (filter (named label names) keys), s\<lparr>world := w'\<rparr>)"
    using search_step [OF assms(1), of "s\<lparr>world := w\<rparr>"] assms(2) by auto
  then show ?thesis
    unfolding find_token_accessors_def bindM_def [of "service_call m k" for m k] l limit
    by (simp add: bindM_def lift_def list_keys_accessors raise_def limit)
qed

end
