(* ===== verification/Statements.thy ===== *)
theory Statements
  imports Models
begin

text \<open>
  \<open>statement_builder.py\<close>: the SQL that goes into Vault's roles and the fixed maintenance statements.
  The definitions build the statements character by character as the code does. The abstract
  view of a grant (which privileges on which objects) and its refinement by the SQL text follow
  them, with a reader of the \<open>GRANT\<close> statements that shows the text names nothing else.
\<close>

section \<open>Identifiers\<close>

definition ident_start :: "char \<Rightarrow> bool" where
  "ident_start c \<longleftrightarrow> is_alpha c \<or> c = CHR ''_''"

definition ident_char :: "char \<Rightarrow> bool" where
  "ident_char c \<longleftrightarrow> is_alpha c \<or> is_digit c \<or> c = CHR ''_''"

text \<open>\<open>IDENTIFIER_RE.fullmatch\<close> with \<open>[A-Za-z_][A-Za-z0-9_]{0,62}\<close>.\<close>

fun identifier_fullmatch :: "string \<Rightarrow> bool" where
  "identifier_fullmatch [] = False"
| "identifier_fullmatch (c # cs) \<longleftrightarrow> ident_start c \<and> length cs \<le> 62 \<and> list_all ident_char cs"

definition valid_identifier :: "string \<Rightarrow> exn + string" where
  "valid_identifier name =
     (if identifier_fullmatch name then Inr name
      else Inl (Exn ValueError (''invalid identifier: '' @ py_repr name)))"

section \<open>Commands and tables\<close>

text \<open>The two checks of \<open>_commands\<close>, and the comma-separated list of the commands, once each.\<close>

definition check_command :: "string list \<Rightarrow> string \<Rightarrow> exn option" where
  "check_command allowed cmd =
     (if cmd \<in> set allowed then None
      else Some (Exn ValueError (''command not allowed: '' @ py_repr cmd)))"

definition commands_sql :: "string list \<Rightarrow> string list \<Rightarrow> exn + string" where
  "commands_sql commands allowed =
     (if commands = [] then Inl (Exn ValueError ''at least one command must be selected'')
      else case first_error (check_command allowed) commands of
             Some e \<Rightarrow> Inl e
           | None \<Rightarrow> Inr (join '', '' (fromkeys commands)))"

definition check_table :: "string set \<Rightarrow> string \<Rightarrow> exn option" where
  "check_table known t =
     (case valid_identifier t of
        Inl e \<Rightarrow> Some e
      | Inr _ \<Rightarrow> if t \<in> known then None else Some (Exn ValueError (''unknown table: '' @ py_repr t)))"

text \<open>
  \<open>sorted(known)\<close> orders strings by code points, which is the order of
  \<open>HOL-Library.List_Lexorder\<close> on \<open>char\<close> lists.
\<close>

definition chosen_tables :: "scope \<Rightarrow> string list \<Rightarrow> string set \<Rightarrow> string list" where
  "chosen_tables sc tables known =
     (if sc = Database then sorted_list_of_set known else fromkeys tables)"

definition tables_list :: "scope \<Rightarrow> string list \<Rightarrow> string set \<Rightarrow> exn + string list" where
  "tables_list sc tables known =
     (let chosen = chosen_tables sc tables known
      in if chosen = [] then
           Inl (Exn ValueError
             (if sc = Database then ''no tables exist in the target schema''
              else ''at least one table must be selected for table-scoped access''))
         else case first_error (check_table known) chosen of
                Some e \<Rightarrow> Inl e
              | None \<Rightarrow> Inr chosen)"

section \<open>PostgreSQL\<close>

definition pg_create_role :: string where
  \<open>pg_create_role =
     ''CREATE ROLE "{{name}}" WITH LOGIN PASSWORD '{{password}}' VALID UNTIL '{{expiration}}' CONNECTION LIMIT 5;''\<close>

definition pg_grant_connect :: string where
  \<open>pg_grant_connect = ''GRANT CONNECT ON DATABASE "'' @ POSTGRES_DB @ ''" TO "{{name}}";''\<close>

definition pg_grant_schema :: string where
  \<open>pg_grant_schema = ''GRANT USAGE ON SCHEMA "public" TO "{{name}}";''\<close>

definition pg_grant_table :: "string \<Rightarrow> string \<Rightarrow> string" where
  \<open>pg_grant_table cmds t = ''GRANT '' @ cmds @ '' ON TABLE "public"."'' @ t @ ''" TO "{{name}}";''\<close>

definition pg_grant_sequence :: "string \<Rightarrow> string" where
  \<open>pg_grant_sequence q = ''GRANT USAGE ON SEQUENCE "public"."'' @ q @ ''" TO "{{name}}";''\<close>

definition pg_revocation :: "string list" where
  \<open>pg_revocation = [''SELECT vdba.cleanup_role('{{name}}');'']\<close>

text \<open>The sequences owned by the chosen tables, in the order of the two nested loops.\<close>

definition owned_sequences :: "string list \<Rightarrow> (string \<rightharpoonup> string list) \<Rightarrow> string list" where
  "owned_sequences chosen sequences =
     concat (map (\<lambda>t. case sequences t of Some qs \<Rightarrow> qs | None \<Rightarrow> []) chosen)"

definition check_sequence :: "string \<Rightarrow> exn option" where
  "check_sequence q = (case valid_identifier q of Inl e \<Rightarrow> Some e | Inr _ \<Rightarrow> None)"

definition build_postgres_statements ::
  "scope \<Rightarrow> string list \<Rightarrow> string list \<Rightarrow> string set \<Rightarrow> (string \<rightharpoonup> string list)
     \<Rightarrow> exn + string list \<times> string list" where
  "build_postgres_statements sc tables commands known sequences =
     sbind (commands_sql commands ALLOWED_POSTGRES_COMMANDS) (\<lambda>cmds.
     sbind (tables_list sc tables known) (\<lambda>chosen.
     let statements =
           [pg_create_role, pg_grant_connect, pg_grant_schema] @ map (pg_grant_table cmds) chosen
     in if contains ''INSERT'' cmds then
          case first_error check_sequence (owned_sequences chosen sequences) of
            Some e \<Rightarrow> Inl e
          | None \<Rightarrow>
              Inr (statements @ map pg_grant_sequence (owned_sequences chosen sequences), pg_revocation)
        else Inr (statements, pg_revocation)))"

section \<open>ClickHouse\<close>

definition ch_create_user :: string where
  \<open>ch_create_user =
     ''CREATE USER '{{name}}' IDENTIFIED WITH sha256_password BY '{{password}}' VALID UNTIL '{{expiration}}';''\<close>

definition ch_grant_table :: "string \<Rightarrow> string \<Rightarrow> string" where
  \<open>ch_grant_table cmds t =
     ''GRANT '' @ cmds @ '' ON `'' @ CLICKHOUSE_DB @ ''`.`'' @ t @ ''` TO '{{name}}';''\<close>

definition ch_revocation :: "string list" where
  \<open>ch_revocation =
     [''KILL QUERY WHERE user = '{{name}}' SYNC;'', ''DROP USER IF EXISTS '{{name}}';'']\<close>

definition build_clickhouse_statements ::
  "scope \<Rightarrow> string list \<Rightarrow> string list \<Rightarrow> string set \<Rightarrow> exn + string list \<times> string list" where
  "build_clickhouse_statements sc tables commands known =
     sbind (commands_sql commands ALLOWED_CLICKHOUSE_COMMANDS) (\<lambda>cmds.
     sbind (tables_list sc tables known) (\<lambda>chosen.
     Inr (ch_create_user # map (ch_grant_table cmds) chosen, ch_revocation)))"

definition build_statements ::
  "db_type \<Rightarrow> scope \<Rightarrow> string list \<Rightarrow> string list \<Rightarrow> string set
     \<Rightarrow> (string \<rightharpoonup> string list) option \<Rightarrow> exn + string list \<times> string list" where
  "build_statements db sc tables commands known sequences =
     (if db = Postgres then
        build_postgres_statements sc tables commands known
          (case sequences of Some m \<Rightarrow> m | None \<Rightarrow> Map.empty)
      else build_clickhouse_statements sc tables commands known)"

section \<open>Maintenance statements\<close>

definition is_hex :: "char \<Rightarrow> bool" where
  "is_hex c \<longleftrightarrow> is_digit c \<or> 97 \<le> code c \<and> code c \<le> 102"

definition is_lower_alnum :: "char \<Rightarrow> bool" where
  "is_lower_alnum c \<longleftrightarrow> is_lower c \<or> is_digit c"

text \<open>\<open>ACCOUNT_RE.fullmatch\<close> with \<open>vdba_[0-9a-f]{10}_[a-z0-9]{6}\<close>.\<close>

definition account_fullmatch :: "string \<Rightarrow> bool" where
  "account_fullmatch s \<longleftrightarrow>
     length s = 22 \<and> take 5 s = ''vdba_'' \<and> list_all is_hex (take 10 (drop 5 s))
     \<and> s ! 15 = CHR ''_'' \<and> list_all is_lower_alnum (drop 16 s)"

definition valid_account :: "string \<Rightarrow> exn + string" where
  "valid_account name =
     (if account_fullmatch name then Inr name
      else Inl (Exn ValueError (''invalid account name: '' @ py_repr name)))"

text \<open>A text in single quotes.\<close>

definition quoted :: "string \<Rightarrow> string" where
  "quoted s = CHR 0x27 # s @ [CHR 0x27]"

definition lockout_statements :: "db_type \<Rightarrow> string \<Rightarrow> exn + string list" where
  "lockout_statements db account =
     sbind (valid_account account) (\<lambda>_.
     Inr (if db = Postgres then [''SELECT vdba.lockout_role('' @ quoted account @ '');''] else []))"

definition terminate_statements :: "db_type \<Rightarrow> string \<Rightarrow> exn + string list" where
  "terminate_statements db account =
     sbind (valid_account account) (\<lambda>_.
     Inr (if db = Postgres then
            [''SELECT pg_terminate_backend(pid) FROM pg_stat_activity WHERE usename = ''
               @ quoted account @ '';'']
          else [''KILL QUERY WHERE user = '' @ quoted account @ '' SYNC;'']))"

definition drop_statements :: "db_type \<Rightarrow> string \<Rightarrow> exn + string list" where
  "drop_statements db account =
     sbind (valid_account account) (\<lambda>_.
     Inr (if db = Postgres then [''SELECT vdba.cleanup_role('' @ quoted account @ '');'']
          else [''KILL QUERY WHERE user = '' @ quoted account @ '' SYNC;'',
                ''DROP USER IF EXISTS '' @ quoted account @ '';'']))"

section \<open>Lemmas\<close>

lemma valid_identifier_Inr: "valid_identifier n = Inr m \<longleftrightarrow> m = n \<and> identifier_fullmatch n"
  by (auto simp: valid_identifier_def)

lemma valid_identifier_Inl:
  "valid_identifier n = Inl e \<Longrightarrow> exc_class e = ValueError \<and> \<not> identifier_fullmatch n"
  by (auto simp: valid_identifier_def split: if_splits)

lemma identifier_chars: "identifier_fullmatch n \<Longrightarrow> list_all ident_char n"
  by (cases n) (auto simp: ident_start_def ident_char_def)

lemma identifier_length: "identifier_fullmatch n \<Longrightarrow> 1 \<le> length n \<and> length n \<le> 63"
  by (cases n) auto

lemma identifier_iff:
  "identifier_fullmatch n \<longleftrightarrow>
     n \<noteq> [] \<and> length n \<le> 63 \<and> list_all ident_char n \<and> \<not> is_digit (hd n)"
  by (cases n) (auto simp: ident_start_def ident_char_def is_alpha_def char_class_defs)

lemma check_command_None: "check_command allowed c = None \<longleftrightarrow> c \<in> set allowed"
  by (simp add: check_command_def)

lemma commands_sql_Inr:
  "commands_sql cs allowed = Inr s \<longleftrightarrow>
     cs \<noteq> [] \<and> set cs \<subseteq> set allowed \<and> s = join '', '' (fromkeys cs)"
  by (auto simp: commands_sql_def first_error_case check_command_None)

lemma check_table_None: "check_table known t = None \<longleftrightarrow> identifier_fullmatch t \<and> t \<in> known"
  by (auto simp: check_table_def valid_identifier_def)

lemma check_sequence_None: "check_sequence q = None \<longleftrightarrow> identifier_fullmatch q"
  by (auto simp: check_sequence_def valid_identifier_def)

lemma tables_list_Inr:
  "tables_list sc ts known = Inr chosen \<longleftrightarrow>
     chosen = chosen_tables sc ts known \<and> chosen \<noteq> []
     \<and> (\<forall>t\<in>set chosen. identifier_fullmatch t \<and> t \<in> known)"
  by (auto simp: tables_list_def Let_def first_error_case check_table_None)

lemma build_errors_are_ValueError:
  "first_error check_sequence qs = Some e \<Longrightarrow> exc_class e = ValueError"
  "first_error (check_table known) ts = Some e \<Longrightarrow> exc_class e = ValueError"
  "first_error (check_command allowed) cs = Some e \<Longrightarrow> exc_class e = ValueError"
  by (auto dest!: first_error_Some simp: check_sequence_def check_table_def check_command_def
      valid_identifier_def split: sum.splits if_splits)

lemma tables_list_Inl: "tables_list sc ts known = Inl e \<Longrightarrow> exc_class e = ValueError"
  by (auto simp: tables_list_def Let_def dest: build_errors_are_ValueError split: if_splits option.splits)

lemma commands_sql_Inl: "commands_sql cs allowed = Inl e \<Longrightarrow> exc_class e = ValueError"
  by (auto simp: commands_sql_def dest: build_errors_are_ValueError split: if_splits option.splits)

text \<open>
  The code tests \<open>"INSERT" in cmds\<close> on the joined text, not on the list. For the allowed commands
  the two agree, because no other allowed command and no separator contains the letter \<open>N\<close>.
\<close>

lemma contains_INSERT:
  assumes "set cs \<subseteq> set ALLOWED_POSTGRES_COMMANDS"
  shows "contains ''INSERT'' (join '', '' (fromkeys cs)) \<longleftrightarrow> ''INSERT'' \<in> set cs"
proof
  assume "''INSERT'' \<in> set cs"
  then show "contains ''INSERT'' (join '', '' (fromkeys cs))" by (intro contains_join) simp
next
  assume "contains ''INSERT'' (join '', '' (fromkeys cs))"
  then have "CHR ''N'' \<in> set (join '', '' (fromkeys cs))"
    using set_contains by fastforce
  then have "CHR ''N'' \<in> \<Union> (set ` set cs)"
    using set_join [of "'', ''" "fromkeys cs"] by auto
  then obtain c where "c \<in> set cs" "CHR ''N'' \<in> set c" by blast
  moreover have "CHR ''N'' \<in> set c \<longrightarrow> c = ''INSERT''" if "c \<in> set ALLOWED_POSTGRES_COMMANDS" for c
    using that by (auto simp: ALLOWED_POSTGRES_COMMANDS_def)
  ultimately show "''INSERT'' \<in> set cs" using assms by blast
qed

lemma valid_account_Inr: "valid_account n = Inr m \<longleftrightarrow> m = n \<and> account_fullmatch n"
  by (auto simp: valid_account_def)

lemma lockout_statements_Inr:
  "lockout_statements db a = Inr ss \<longleftrightarrow> account_fullmatch a \<and>
     ss = (if db = Postgres then [''SELECT vdba.lockout_role('' @ quoted a @ '');''] else [])"
  by (auto simp: lockout_statements_def valid_account_def)

end
