(* ===== verification/Introspect.thy ===== *)
theory Introspect
  imports Vault_Client Statements
begin

text \<open>
  \<open>db_introspect.py\<close>: catalog and account lookups with the introspection accounts. The drivers
  (\<open>psycopg\<close>, \<open>clickhouse_connect\<close>) are functions of the environment: a connection is a handle, a
  query returns the column or the pairs its SQL selects. Closing a connection is not modelled.
\<close>

record catalogue =
  cat_tables :: "string list"
  cat_sequences :: "string \<rightharpoonup> string list"

definition ok_names :: "string list \<Rightarrow> string list" where
  "ok_names names = filter identifier_fullmatch names"

definition pg_ssl_kwargs :: "config \<Rightarrow> (string \<times> string) list" where
  "pg_ssl_kwargs c =
     (''sslmode'', PG_SSLMODE c) # (if PG_SSLROOTCERT c \<noteq> [] then [(''sslrootcert'', PG_SSLROOTCERT c)] else [])"

definition ch_ssl_kwargs :: "config \<Rightarrow> (string \<times> json) list" where
  "ch_ssl_kwargs c =
     (''secure'', JBool (CH_SECURE c)) #
       (if CH_SECURE c then (''verify'', JBool True) #
          (if CH_CA_CERT c \<noteq> [] then [(''ca_cert'', JStr (CH_CA_CERT c))] else [])
        else [])"

definition open_pg :: "'w env \<Rightarrow> ('w sys, nat) prog" where
  "open_pg E =
     bindM (introspect_credentials E Postgres) (\<lambda>(user, password).
     call_ext (pg_connect E
       \<lparr>pc_host = POSTGRES_HOST (cfg E), pc_port = POSTGRES_PORT (cfg E), pc_user = user,
        pc_password = password, pc_dbname = POSTGRES_DB, pc_connect_timeout = DB_TIMEOUT,
        pc_options = ''-c statement_timeout='' @ show_int (DB_TIMEOUT * 1000),
        pc_ssl = pg_ssl_kwargs (cfg E)\<rparr>))"

definition open_ch :: "'w env \<Rightarrow> ('w sys, nat) prog" where
  "open_ch E =
     bindM (introspect_credentials E Clickhouse) (\<lambda>(user, password).
     call_ext (ch_connect E
       \<lparr>cc_host = CLICKHOUSE_HOST (cfg E), cc_port = CLICKHOUSE_HTTP_PORT (cfg E), cc_username = user,
        cc_password = password, cc_connect_timeout = DB_TIMEOUT, cc_send_receive_timeout = DB_TIMEOUT,
        cc_ssl = ch_ssl_kwargs (cfg E)\<rparr>))"

definition TABLES_SQL :: string where
  "TABLES_SQL = ''SELECT tablename FROM pg_catalog.pg_tables WHERE schemaname = 'public' ORDER BY tablename''"

definition SEQ_SQL :: string where
  "SEQ_SQL = ''
SELECT t.relname, s.relname
FROM pg_class s
JOIN pg_depend d ON d.objid = s.oid AND d.classid = 'pg_class'::regclass
                AND d.refclassid = 'pg_class'::regclass AND d.deptype IN ('a', 'i')
JOIN pg_class t ON t.oid = d.refobjid
WHERE s.relkind = 'S' AND t.relkind IN ('r', 'p') AND t.relnamespace = 'public'::regnamespace
''"

text \<open>\<open>seqs.setdefault(table, []).append(seq)\<close> for each row that passes the test.\<close>

definition add_sequence ::
  "string list \<Rightarrow> string \<times> string \<Rightarrow> (string \<rightharpoonup> string list) \<Rightarrow> (string \<rightharpoonup> string list)" where
  "add_sequence tables r m =
     (case r of (table, seq) \<Rightarrow>
        if table \<in> set tables \<and> identifier_fullmatch seq
        then m(table \<mapsto> (case m table of Some qs \<Rightarrow> qs @ [seq] | None \<Rightarrow> [seq]))
        else m)"

definition postgres_catalog :: "'w env \<Rightarrow> ('w sys, catalogue) prog" where
  "postgres_catalog E =
     bindM (open_pg E) (\<lambda>conn.
     bindM (call_ext (pg_texts E conn TABLES_SQL [])) (\<lambda>names.
     bindM (call_ext (pg_pairs E conn SEQ_SQL)) (\<lambda>pairs.
     ret \<lparr>cat_tables = ok_names names,
          cat_sequences = fold (add_sequence (ok_names names)) pairs Map.empty\<rparr>)))"

definition clickhouse_catalog :: "'w env \<Rightarrow> ('w sys, catalogue) prog" where
  "clickhouse_catalog E =
     bindM (open_ch E) (\<lambda>conn.
     bindM (call_ext (ch_texts E conn
       ''SELECT name FROM system.tables WHERE database = %(db)s AND NOT is_temporary ORDER BY name''
       [(''db'', CLICKHOUSE_DB)])) (\<lambda>names.
     ret \<lparr>cat_tables = ok_names names, cat_sequences = Map.empty\<rparr>))"

definition catalog :: "'w env \<Rightarrow> db_type \<Rightarrow> ('w sys, catalogue) prog" where
  "catalog E db = (if db = Postgres then postgres_catalog E else clickhouse_catalog E)"

text \<open>The prefix with each underscore escaped by a backslash, and a percent sign.\<close>

definition prefix_pattern :: string where
  "prefix_pattern = concat (map (\<lambda>c. if c = CHR ''_'' then [CHR 0x5C, CHR ''_''] else [c]) ROLE_PREFIX) @ ''%''"

definition leftover_users :: "'w env \<Rightarrow> db_type \<Rightarrow> ('w sys, string list) prog" where
  "leftover_users E db =
     (if db = Postgres then
        bindM (open_pg E) (\<lambda>conn.
        call_ext (pg_texts E conn ''SELECT rolname FROM pg_roles WHERE rolname LIKE %s'' [prefix_pattern]))
      else
        bindM (open_ch E) (\<lambda>conn.
        call_ext (ch_texts E conn ''SELECT name FROM system.users WHERE name LIKE %(p)s''
          [(''p'', prefix_pattern)])))"

definition PG_ACCOUNTS_SQL :: string where
  "PG_ACCOUNTS_SQL = ''SELECT rolname FROM pg_roles WHERE starts_with(rolname, %s)''"

definition CH_ACCOUNTS_SQL :: string where
  "CH_ACCOUNTS_SQL = ''SELECT name FROM system.users WHERE startsWith(name, %(p)s)''"

definition account_prefix :: "string \<Rightarrow> string" where
  "account_prefix gid = gid @ ''_''"

definition find_accounts :: "'w env \<Rightarrow> db_type \<Rightarrow> string \<Rightarrow> ('w sys, string list) prog" where
  "find_accounts E db gid =
     (if db = Postgres then
        bindM (open_pg E) (\<lambda>conn. call_ext (pg_texts E conn PG_ACCOUNTS_SQL [account_prefix gid]))
      else
        bindM (open_ch E) (\<lambda>conn. call_ext (ch_texts E conn CH_ACCOUNTS_SQL [(''p'', account_prefix gid)])))"

definition pg_backends :: "'w env \<Rightarrow> string \<Rightarrow> ('w sys, int) prog" where
  "pg_backends E account =
     bindM (open_pg E) (\<lambda>conn.
     call_ext (pg_count E conn ''SELECT count(*) FROM pg_stat_activity WHERE usename = %s'' [account]))"

section \<open>Lemmas\<close>

lemma open_outside [outside_keeps]: "keeps outside_only (open_pg E)" "keeps outside_only (open_ch E)"
  unfolding open_pg_def open_ch_def by (intro outside_intros outside_keeps)+

lemma introspect_outside [outside_keeps]:
  "keeps outside_only (catalog E db)" "keeps outside_only (leftover_users E db)"
  "keeps outside_only (find_accounts E db gid)" "keeps outside_only (pg_backends E a)"
  unfolding catalog_def postgres_catalog_def clickhouse_catalog_def leftover_users_def
    find_accounts_def pg_backends_def
  by (intro outside_intros outside_keeps)+

text \<open>What a catalog holds: only valid names, and sequences only of the tables it lists.\<close>

definition valid_catalogue :: "catalogue \<Rightarrow> bool" where
  "valid_catalogue c \<longleftrightarrow>
     list_all identifier_fullmatch (cat_tables c) \<and> dom (cat_sequences c) \<subseteq> set (cat_tables c)
     \<and> (\<forall>t qs. cat_sequences c t = Some qs \<longrightarrow> list_all identifier_fullmatch qs)"

lemma ok_names_valid: "list_all identifier_fullmatch (ok_names names)"
  by (simp add: ok_names_def list_all_iff)

lemma add_sequences_valid:
  assumes "valid_catalogue \<lparr>cat_tables = ts, cat_sequences = m\<rparr>"
  shows "valid_catalogue \<lparr>cat_tables = ts, cat_sequences = fold (add_sequence ts) pairs m\<rparr>"
  using assms
proof (induction pairs arbitrary: m)
  case (Cons p pairs)
  obtain t q where p: "p = (t, q)" by fastforce
  have "valid_catalogue \<lparr>cat_tables = ts, cat_sequences = add_sequence ts p m\<rparr>"
    using Cons.prems by (auto simp: p add_sequence_def valid_catalogue_def split: option.splits)
  then show ?case by (simp add: Cons.IH)
qed simp

lemma catalog_valid: "catalog E db s = (Ret c, s') \<Longrightarrow> valid_catalogue c"
  by (cases db)
     (auto simp: catalog_def postgres_catalog_def clickhouse_catalog_def returned ok_names_valid
       intro!: add_sequences_valid, auto simp: valid_catalogue_def ok_names_valid)

end
