(* ===== verification/Faults.thy ===== *)
theory Faults
  imports System
begin

text \<open>
  \<open>faults.py\<close>: the test hooks that kill the process at a named point or spoil a statement list.
  A killed process is the outcome \<open>Halt\<close>: no handler and no \<open>finally\<close> runs.
\<close>

definition armed :: "'w env \<Rightarrow> ('w sys, string option) prog" where
  "armed E =
     try_except
       (bindM (call_ext (read_text E (FAULT_FILE (cfg E)))) (\<lambda>t. ret (Some (strip t))))
       is_os_error
       (\<lambda>_. ret None)"

definition point :: "'w env \<Rightarrow> string \<Rightarrow> ('w sys, unit) prog" where
  "point E name =
     (if \<not> TEST_HOOKS (cfg E) then skip
      else bindM (armed E) (\<lambda>a.
           if a = Some name then seqM (do_unlink E (FAULT_FILE (cfg E))) halt else skip))"

definition bogus_statement :: string where
  "bogus_statement = ''GRANT BOGUS PRIVILEGE ON nothing TO '{{name}}';''"

text \<open>An \<open>OSError\<close> of the removal is swallowed as well, but removing a missing file is no error.\<close>

definition mutate_statements :: "'w env \<Rightarrow> string list \<Rightarrow> ('w sys, string list) prog" where
  "mutate_statements E creation =
     (if \<not> TEST_HOOKS (cfg E) then ret creation
      else bindM (armed E) (\<lambda>a.
           if a = Some ''bad_statement'' then
             seqM (do_unlink E (FAULT_FILE (cfg E))) (ret (creation @ [bogus_statement]))
           else ret creation))"

lemma faults_outside [outside_keeps]:
  "keeps outside_only (armed E)" "keeps outside_only (point E name)"
  "keeps outside_only (mutate_statements E sts)"
  unfolding armed_def point_def mutate_statements_def by (intro outside.rules outside_keeps)+

end
