(* ===== verification/Sql.thy ===== *)
theory Sql
  imports Statements
begin

text \<open>
  What the statements of \<open>statement_builder.py\<close> mean. A lexer for the quoting rules of the two SQL
  dialects reads a statement as a list of tokens; the abstract view of a request is the list of
  privileges it gives, each with the tokens of the statement that gives it. The refinement says
  that the text the code builds is, token for token, those privileges: a table name always ends up
  as one quoted token and never as SQL.
\<close>

section \<open>Lexer\<close>

datatype token =
    Word string       \<comment> \<open>keyword, number or bare identifier\<close>
  | DQuoted string    \<comment> \<open>between double quotes: a PostgreSQL identifier\<close>
  | BQuoted string    \<comment> \<open>between back quotes: a ClickHouse identifier\<close>
  | SQuoted string    \<comment> \<open>between single quotes: a string literal\<close>
  | Sym char

definition dq :: char where "dq = CHR 0x22"
definition sq :: char where "sq = CHR 0x27"
definition bq :: char where "bq = CHR 0x60"

lemmas quote_defs = dq_def sq_def bq_def

fun quote_token :: "char \<Rightarrow> string \<Rightarrow> token" where
  "quote_token c q = (if c = dq then DQuoted q else if c = bq then BQuoted q else SQuoted q)"

function sql_lex :: "string \<Rightarrow> token list option" where
  "sql_lex [] = Some []"
| "sql_lex (c # cs) =
     (if c = CHR '' '' then sql_lex cs
      else if ident_char c then
        map_option ((#) (Word (c # takeWhile ident_char cs))) (sql_lex (dropWhile ident_char cs))
      else if c \<in> {dq, sq, bq} then
        (case dropWhile (\<lambda>x. x \<noteq> c) cs of
           [] \<Rightarrow> None
         | _ # r \<Rightarrow> map_option ((#) (quote_token c (takeWhile (\<lambda>x. x \<noteq> c) cs))) (sql_lex r))
      else map_option ((#) (Sym c)) (sql_lex cs))"
  by pat_completeness auto

termination
proof (relation "measure length")
  fix c cs x r
  assume "dropWhile (\<lambda>x. x \<noteq> c) cs = x # r"
  then have "length (x # r) \<le> length cs" by (metis length_dropWhile_le)
  then show "(r, c # cs) \<in> measure length" by simp
qed (simp_all add: length_dropWhile_le less_Suc_eq_le)

declare sql_lex.simps(2) [simp del]

lemma lex_space: "sql_lex (CHR '' '' # cs) = sql_lex cs"
  by (simp add: sql_lex.simps)

definition ends_word :: "string \<Rightarrow> bool" where
  "ends_word r \<longleftrightarrow> (case r of [] \<Rightarrow> True | c # _ \<Rightarrow> \<not> ident_char c)"

lemma lex_word:
  assumes "w \<noteq> []" "list_all ident_char w" "ends_word r"
  shows "sql_lex (w @ r) = map_option ((#) (Word w)) (sql_lex r)"
proof -
  obtain c cs where w: "w = c # cs" using assms(1) by (cases w) auto
  have r: "takeWhile ident_char r = []" "dropWhile ident_char r = r"
    using assms(3) by (cases r; simp add: ends_word_def)+
  have "c \<noteq> CHR '' ''" using assms(2) w by (auto simp: ident_char_def char_class_defs)
  moreover have "takeWhile ident_char (cs @ r) = cs" "dropWhile ident_char (cs @ r) = r"
    using assms(2) w r by (simp_all add: list_all_iff)
  ultimately show ?thesis using assms(2) w by (simp add: sql_lex.simps)
qed

lemma lex_quoted:
  assumes "c \<in> {dq, sq, bq}" "c \<notin> set q"
  shows "sql_lex (c # q @ c # r) = map_option ((#) (quote_token c q)) (sql_lex r)"
proof -
  have "c \<noteq> CHR '' ''" "\<not> ident_char c"
    using assms(1) by (auto simp: quote_defs ident_char_def char_class_defs)
  moreover have "takeWhile (\<lambda>x. x \<noteq> c) (q @ c # r) = q" "dropWhile (\<lambda>x. x \<noteq> c) (q @ c # r) = c # r"
    using assms(2) by (auto simp: takeWhile_append dropWhile_append)
  ultimately show ?thesis using assms(1) by (simp add: sql_lex.simps)
qed

lemma lex_sym:
  "c \<noteq> CHR '' '' \<Longrightarrow> \<not> ident_char c \<Longrightarrow> c \<notin> {dq, sq, bq} \<Longrightarrow>
     sql_lex (c # cs) = map_option ((#) (Sym c)) (sql_lex cs)"
  by (simp add: sql_lex.simps)

lemma identifier_no_quote:
  "identifier_fullmatch n \<Longrightarrow> dq \<notin> set n \<and> sq \<notin> set n \<and> bq \<notin> set n \<and> CHR '';'' \<notin> set n"
  using identifier_chars [of n]
  by (auto simp: list_all_iff quote_defs ident_char_def char_class_defs)

section \<open>Privileges\<close>

datatype privilege =
    On_Table "string list" string     \<comment> \<open>commands on a table\<close>
  | On_Sequence string                \<comment> \<open>\<open>USAGE\<close> on a sequence\<close>

text \<open>The words of a command; the two ClickHouse ones have two.\<close>

definition command_words :: "string \<Rightarrow> token list" where
  "command_words c =
     (if c = ''ALTER UPDATE'' then [Word ''ALTER'', Word ''UPDATE'']
      else if c = ''ALTER DELETE'' then [Word ''ALTER'', Word ''DELETE'']
      else [Word c])"

fun command_tokens :: "string list \<Rightarrow> token list" where
  "command_tokens [] = []"
| "command_tokens [c] = command_words c"
| "command_tokens (c # d # ds) = command_words c @ Sym CHR '','' # command_tokens (d # ds)"

fun pg_tokens :: "privilege \<Rightarrow> token list" where
  "pg_tokens (On_Table cs t) =
     Word ''GRANT'' # command_tokens cs
       @ [Word ''ON'', Word ''TABLE'', DQuoted ''public'', Sym CHR ''.'', DQuoted t,
          Word ''TO'', DQuoted ''{{name}}'', Sym CHR '';'']"
| "pg_tokens (On_Sequence q) =
     [Word ''GRANT'', Word ''USAGE'', Word ''ON'', Word ''SEQUENCE'', DQuoted ''public'', Sym CHR ''.'',
      DQuoted q, Word ''TO'', DQuoted ''{{name}}'', Sym CHR '';'']"

fun ch_tokens :: "privilege \<Rightarrow> token list" where
  "ch_tokens (On_Table cs t) =
     Word ''GRANT'' # command_tokens cs
       @ [Word ''ON'', BQuoted ''appdb'', Sym CHR ''.'', BQuoted t,
          Word ''TO'', SQuoted ''{{name}}'', Sym CHR '';'']"
| "ch_tokens (On_Sequence q) = []"

text \<open>
  What a request asks for: the chosen commands, once each, on every chosen table, and, when rows may
  be inserted into a PostgreSQL table, the sequences that table owns.
\<close>

definition privileges ::
  "db_type \<Rightarrow> scope \<Rightarrow> string list \<Rightarrow> string list \<Rightarrow> string set \<Rightarrow> (string \<rightharpoonup> string list)
     \<Rightarrow> privilege list" where
  "privileges db sc tables commands known sequences =
     (let chosen = chosen_tables sc tables known
      in map (On_Table (fromkeys commands)) chosen
         @ (if db = Postgres \<and> ''INSERT'' \<in> set commands
            then map On_Sequence (owned_sequences chosen sequences) else []))"

section \<open>Lexing the statements\<close>

lemma allowed_commands:
  "c \<in> set ALLOWED_POSTGRES_COMMANDS \<union> set ALLOWED_CLICKHOUSE_COMMANDS \<Longrightarrow>
     c = ''SELECT'' \<or> c = ''INSERT'' \<or> c = ''UPDATE'' \<or> c = ''DELETE''
     \<or> c = ''ALTER UPDATE'' \<or> c = ''ALTER DELETE''"
  by (auto simp: ALLOWED_POSTGRES_COMMANDS_def ALLOWED_CLICKHOUSE_COMMANDS_def)

text \<open>
  Evaluating the lexer on the fixed text of a statement; the variable parts are the commands
  (\<open>commands_lex\<close>) and a name inside quotes that does not contain that quote.
\<close>

lemma takeWhile_quote: "c \<notin> set q \<Longrightarrow> takeWhile (\<lambda>x. x \<noteq> c) (q @ c # r) = q"
  by (auto simp: takeWhile_append)

lemma dropWhile_quote: "c \<notin> set q \<Longrightarrow> dropWhile (\<lambda>x. x \<noteq> c) (q @ c # r) = c # r"
  by (auto simp: dropWhile_append)

lemmas lex_eval = sql_lex.simps(2) takeWhile_quote dropWhile_quote quote_defs
  ident_char_def is_alpha_def is_lower_def is_upper_def is_digit_def code_def

lemma command_words_lex:
  assumes "c \<in> set ALLOWED_POSTGRES_COMMANDS \<union> set ALLOWED_CLICKHOUSE_COMMANDS" "ends_word r"
  shows "sql_lex (c @ r) = map_option ((@) (command_words c)) (sql_lex r)"
proof -
  have r: "takeWhile ident_char r = []" "dropWhile ident_char r = r"
    using assms(2) by (cases r; simp add: ends_word_def)+
  show ?thesis
    using allowed_commands [OF assms(1)]
    by (cases "sql_lex r"; elim disjE; simp add: lex_eval command_words_def r)
qed

lemma commands_lex:
  assumes "cs \<noteq> []" "set cs \<subseteq> set ALLOWED_POSTGRES_COMMANDS \<union> set ALLOWED_CLICKHOUSE_COMMANDS"
    and "ends_word r"
  shows "sql_lex (join '', '' cs @ r) = map_option ((@) (command_tokens cs)) (sql_lex r)"
  using assms
proof (induction cs rule: command_tokens.induct)
  case (2 c)
  then show ?case using command_words_lex [of c r] by simp
next
  case (3 c d ds)
  have "sql_lex (c @ '', '' @ join '', '' (d # ds) @ r)
      = map_option ((@) (command_words c)) (sql_lex ('', '' @ join '', '' (d # ds) @ r))"
    using 3 by (intro command_words_lex) (simp_all add: ends_word_def ident_char_def char_class_defs)
  also have "sql_lex ('', '' @ join '', '' (d # ds) @ r)
      = map_option ((#) (Sym CHR '','')) (sql_lex (join '', '' (d # ds) @ r))"
    by (simp add: lex_sym lex_space ident_char_def char_class_defs quote_defs)
  finally show ?case using 3 by (cases "sql_lex r") simp_all
qed simp

lemma pg_grant_table_lex:
  assumes "cs \<noteq> []" "set cs \<subseteq> set ALLOWED_POSTGRES_COMMANDS" "identifier_fullmatch t"
  shows "sql_lex (pg_grant_table (join '', '' cs) t) = Some (pg_tokens (On_Table cs t))"
proof -
  have t: "CHR 0x22 \<notin> set t" using identifier_no_quote [OF assms(3)] by (simp add: dq_def)
  note commands_lex [of cs \<open>'' ON TABLE "public"."'' @ t @ ''" TO "{{name}}";''\<close>]
  with assms t show ?thesis
    by (simp add: pg_grant_table_def lex_eval ends_word_def le_supI1)
qed

lemma pg_grant_sequence_lex:
  assumes "identifier_fullmatch q"
  shows "sql_lex (pg_grant_sequence q) = Some (pg_tokens (On_Sequence q))"
proof -
  have "CHR 0x22 \<notin> set q" using identifier_no_quote [OF assms] by (simp add: dq_def)
  then show ?thesis by (simp add: pg_grant_sequence_def lex_eval)
qed

lemma ch_grant_table_lex:
  assumes "cs \<noteq> []" "set cs \<subseteq> set ALLOWED_CLICKHOUSE_COMMANDS" "identifier_fullmatch t"
  shows "sql_lex (ch_grant_table (join '', '' cs) t) = Some (ch_tokens (On_Table cs t))"
proof -
  have t: "CHR 0x60 \<notin> set t" using identifier_no_quote [OF assms(3)] by (simp add: bq_def)
  note commands_lex [of cs "'' ON `'' @ CLICKHOUSE_DB @ ''`.`'' @ t @ ''` TO '{{name}}';''"]
  with assms t show ?thesis
    by (simp add: ch_grant_table_def CLICKHOUSE_DB_def lex_eval ends_word_def le_supI2)
qed

section \<open>What a successful build contains\<close>

fun allowed_commands_of :: "db_type \<Rightarrow> string list" where
  "allowed_commands_of Postgres = ALLOWED_POSTGRES_COMMANDS"
| "allowed_commands_of Clickhouse = ALLOWED_CLICKHOUSE_COMMANDS"

fun fixed_statements :: "db_type \<Rightarrow> string list" where
  "fixed_statements Postgres = [pg_create_role, pg_grant_connect, pg_grant_schema]"
| "fixed_statements Clickhouse = [ch_create_user]"

fun fixed_revocation :: "db_type \<Rightarrow> string list" where
  "fixed_revocation Postgres = pg_revocation"
| "fixed_revocation Clickhouse = ch_revocation"

fun privilege_sql :: "db_type \<Rightarrow> privilege \<Rightarrow> string" where
  "privilege_sql Postgres (On_Table cs t) = pg_grant_table (join '', '' cs) t"
| "privilege_sql Postgres (On_Sequence q) = pg_grant_sequence q"
| "privilege_sql Clickhouse (On_Table cs t) = ch_grant_table (join '', '' cs) t"
| "privilege_sql Clickhouse (On_Sequence q) = []"

fun privilege_tokens :: "db_type \<Rightarrow> privilege \<Rightarrow> token list" where
  "privilege_tokens Postgres p = pg_tokens p"
| "privilege_tokens Clickhouse p = ch_tokens p"

text \<open>The requests the builder accepts.\<close>

definition acceptable ::
  "db_type \<Rightarrow> scope \<Rightarrow> string list \<Rightarrow> string list \<Rightarrow> string set \<Rightarrow> (string \<rightharpoonup> string list) \<Rightarrow> bool" where
  "acceptable db sc tables commands known sequences \<longleftrightarrow>
     commands \<noteq> [] \<and> set commands \<subseteq> set (allowed_commands_of db)
     \<and> chosen_tables sc tables known \<noteq> []
     \<and> (\<forall>t\<in>set (chosen_tables sc tables known). identifier_fullmatch t \<and> t \<in> known)
     \<and> (db = Postgres \<and> ''INSERT'' \<in> set commands \<longrightarrow>
          (\<forall>q\<in>set (owned_sequences (chosen_tables sc tables known) sequences). identifier_fullmatch q))"

lemma build_statements_Inr:
  "build_statements db sc ts cs known (Some seqs) = Inr r \<longleftrightarrow>
     acceptable db sc ts cs known seqs
     \<and> r = (fixed_statements db @ map (privilege_sql db) (privileges db sc ts cs known seqs),
            fixed_revocation db)"
proof (cases db)
  case Postgres
  then show ?thesis
    by (auto simp: build_statements_def build_postgres_statements_def acceptable_def sbind_Inr
        commands_sql_Inr tables_list_Inr contains_INSERT first_error_case check_sequence_None
        privileges_def Let_def)
next
  case Clickhouse
  then show ?thesis
    by (auto simp: build_statements_def build_clickhouse_statements_def acceptable_def sbind_Inr
        commands_sql_Inr tables_list_Inr privileges_def Let_def)
qed

lemma build_statements_Inl:
  "build_statements db sc ts cs known seqs = Inl e \<Longrightarrow> exc_class e = ValueError"
  by (auto simp: build_statements_def build_postgres_statements_def build_clickhouse_statements_def
      sbind_Inl Let_def dest: commands_sql_Inl tables_list_Inl build_errors_are_ValueError
      split: if_splits option.splits)

lemma privilege_lex:
  assumes "acceptable db sc ts cs known seqs" and "p \<in> set (privileges db sc ts cs known seqs)"
  shows "sql_lex (privilege_sql db p) = Some (privilege_tokens db p)"
proof (cases p)
  case (On_Table cs' t)
  with assms have "cs' = fromkeys cs" "identifier_fullmatch t"
    by (auto simp: privileges_def acceptable_def Let_def split: if_splits)
  with assms(1) On_Table show ?thesis
    using pg_grant_table_lex [of cs' t] ch_grant_table_lex [of cs' t]
    by (cases db) (auto simp: acceptable_def)
next
  case (On_Sequence q)
  with assms have "db = Postgres" "identifier_fullmatch q"
    by (auto simp: privileges_def acceptable_def Let_def split: if_splits)
  with On_Sequence show ?thesis using pg_grant_sequence_lex [of q] by simp
qed

text \<open>Exactly one semicolon, at the end: Vault splits its statements on semicolons.\<close>

definition single_statement :: "string \<Rightarrow> bool" where
  "single_statement s \<longleftrightarrow> s \<noteq> [] \<and> last s = CHR '';'' \<and> CHR '';'' \<notin> set (butlast s)"

lemma single_statement_snoc: "single_statement (s @ '';'') \<longleftrightarrow> CHR '';'' \<notin> set s"
  by (simp add: single_statement_def butlast_append)

lemma join_no_semicolon:
  assumes "set cs \<subseteq> set (allowed_commands_of db)"
  shows "CHR '';'' \<notin> set (join '', '' cs)"
proof
  assume "CHR '';'' \<in> set (join '', '' cs)"
  then have "CHR '';'' \<in> \<Union> (set ` set cs)" using set_join [of "'', ''" cs] by auto
  then obtain c where "c \<in> set cs" "CHR '';'' \<in> set c" by blast
  with assms have "c \<in> set ALLOWED_POSTGRES_COMMANDS \<union> set ALLOWED_CLICKHOUSE_COMMANDS"
    by (cases db) auto
  from allowed_commands [OF this] have "CHR '';'' \<notin> set c" by auto
  with \<open>CHR '';'' \<in> set c\<close> show False by simp
qed

lemma privilege_single:
  assumes "acceptable db sc ts cs known seqs" and "p \<in> set (privileges db sc ts cs known seqs)"
  shows "single_statement (privilege_sql db p)"
proof (cases p)
  case (On_Table cs' t)
  with assms have t: "cs' = fromkeys cs" "CHR '';'' \<notin> set t"
    using identifier_no_quote [of t]
    by (auto simp: privileges_def acceptable_def Let_def split: if_splits)
  have c: "CHR '';'' \<notin> set (join '', '' cs')"
    using assms(1) t(1) by (intro join_no_semicolon [where db = db]) (simp add: acceptable_def)
  show ?thesis
    using On_Table t c
      single_statement_snoc [of \<open>''GRANT '' @ join '', '' cs' @ '' ON TABLE "public"."'' @ t @ ''" TO "{{name}}"''\<close>]
      single_statement_snoc [of \<open>''GRANT '' @ join '', '' cs' @ '' ON `appdb`.`'' @ t @ ''` TO '{{name}}' ''\<close>]
    by (cases db)
      (simp_all add: pg_grant_table_def ch_grant_table_def CLICKHOUSE_DB_def single_statement_def butlast_append)
next
  case (On_Sequence q)
  with assms have "db = Postgres" "CHR '';'' \<notin> set q"
    using identifier_no_quote [of q]
    by (auto simp: privileges_def acceptable_def Let_def split: if_splits)
  with On_Sequence show ?thesis
    by (simp add: pg_grant_sequence_def single_statement_def butlast_append)
qed

lemma fixed_single: "list_all single_statement (fixed_statements db @ fixed_revocation db)"
  by (cases db) (simp_all add: single_statement_def pg_create_role_def pg_grant_connect_def
      pg_grant_schema_def pg_revocation_def ch_create_user_def ch_revocation_def POSTGRES_DB_def)

section \<open>Properties\<close>

text \<open>
  C9. Refinement of the SQL builder. A request is turned into statements exactly when its
  commands are a non-empty list of allowed ones and its tables (all known tables for
  database scope) are a non-empty list of known, valid identifiers, as are the sequences it needs.
  The statements are then the fixed header of the database followed by one statement for each
  privilege of the request (commands on a chosen table; for PostgreSQL inserts, use of an owned
  sequence), in order, and that statement reads, as SQL tokens, as exactly this privilege: the names
  are single quoted tokens and contribute no SQL. Every refusal is a \<open>ValueError\<close>.
\<close>

theorem build_statements_refines_privileges:
  "(case build_statements db sc ts cs known (Some seqs) of
      Inr (creation, revocation) \<Rightarrow>
        acceptable db sc ts cs known seqs
        \<and> (\<exists>grants. creation = fixed_statements db @ grants
             \<and> map sql_lex grants = map (Some \<circ> privilege_tokens db) (privileges db sc ts cs known seqs))
        \<and> revocation = fixed_revocation db
    | Inl e \<Rightarrow> \<not> acceptable db sc ts cs known seqs \<and> exc_class e = ValueError)"
proof (cases "build_statements db sc ts cs known (Some seqs)")
  case (Inl e)
  then show ?thesis
    using build_statements_Inl [OF Inl] build_statements_Inr [of db sc ts cs known seqs] by auto
next
  case (Inr r)
  then have acc: "acceptable db sc ts cs known seqs" by (simp add: build_statements_Inr)
  then have "map sql_lex (map (privilege_sql db) (privileges db sc ts cs known seqs))
      = map (Some \<circ> privilege_tokens db) (privileges db sc ts cs known seqs)"
    by (simp add: privilege_lex)
  moreover from Inr have "r = (fixed_statements db @ map (privilege_sql db)
      (privileges db sc ts cs known seqs), fixed_revocation db)"
    by (simp add: build_statements_Inr)
  ultimately show ?thesis unfolding Inr using acc by simp
qed


definition example_build :: "exn + string list \<times> string list" where
  "example_build =
     build_statements Postgres Tables [''orders'', ''orders''] [''SELECT'', ''INSERT''] {''items'', ''orders''}
       (Some [''orders'' \<mapsto> [''orders_id_seq'']])"

lemma example_build:
  "\<exists>creation revocation. example_build = Inr (creation, revocation)"
proof -
  have "case example_build of Inr (creation, revocation) \<Rightarrow> length creation = 5 | Inl _ \<Rightarrow> False"
    by code_simp
  then show ?thesis by (auto split: sum.splits prod.splits)
qed


text \<open>
  C20. Vault splits a role's statements on semicolons: every creation and revocation statement the
  builder returns holds exactly one semicolon, its last character, so Vault runs the statements as
  built and no part of a name as a statement of its own.
\<close>

theorem built_statements_are_single:
  assumes "build_statements db sc ts cs known (Some seqs) = Inr (creation, revocation)"
  shows "\<forall>s \<in> set (creation @ revocation). single_statement s"
proof -
  have acc: "acceptable db sc ts cs known seqs"
    and r: "creation = fixed_statements db @ map (privilege_sql db) (privileges db sc ts cs known seqs)"
      "revocation = fixed_revocation db"
    using assms by (simp_all add: build_statements_Inr)
  show ?thesis
    using fixed_single [of db] privilege_single [OF acc] r by (auto simp: list_all_iff)
qed

theorem built_statements_are_single_witness:
  "\<exists>creation revocation. example_build = Inr (creation, revocation)
     \<and> (\<forall>s \<in> set (creation @ revocation). single_statement s)"
proof -
  obtain creation revocation where c: "example_build = Inr (creation, revocation)"
    using example_build by blast
  from built_statements_are_single [OF c [unfolded example_build_def]] c show ?thesis by blast
qed

section \<open>Statements about an account\<close>

text \<open>What the maintenance statements say of one account.\<close>

fun call_tokens :: "string \<Rightarrow> string \<Rightarrow> token list" where
  "call_tokens f a =
     [Word ''SELECT'', Word ''vdba'', Sym CHR ''.'', Word f, Sym CHR ''('', SQuoted a, Sym CHR '')'', Sym CHR '';'']"

definition kill_tokens :: "string \<Rightarrow> token list" where
  "kill_tokens a =
     [Word ''KILL'', Word ''QUERY'', Word ''WHERE'', Word ''user'', Sym CHR ''='', SQuoted a, Word ''SYNC'', Sym CHR '';'']"

fun drop_tokens :: "db_type \<Rightarrow> string \<Rightarrow> token list list" where
  "drop_tokens Postgres a = [call_tokens ''cleanup_role'' a]"
| "drop_tokens Clickhouse a =
     [kill_tokens a, [Word ''DROP'', Word ''USER'', Word ''IF'', Word ''EXISTS'', SQuoted a, Sym CHR '';'']]"

fun lockout_tokens :: "db_type \<Rightarrow> string \<Rightarrow> token list list" where
  "lockout_tokens Postgres a = [call_tokens ''lockout_role'' a]"
| "lockout_tokens Clickhouse a = []"

fun terminate_tokens :: "db_type \<Rightarrow> string \<Rightarrow> token list list" where
  "terminate_tokens Postgres a =
     [[Word ''SELECT'', Word ''pg_terminate_backend'', Sym CHR ''('', Word ''pid'', Sym CHR '')'', Word ''FROM'',
       Word ''pg_stat_activity'', Word ''WHERE'', Word ''usename'', Sym CHR ''='', SQuoted a, Sym CHR '';'']]"
| "terminate_tokens Clickhouse a = [kill_tokens a]"

lemma account_parts:
  assumes "account_fullmatch a"
  shows "\<exists>h x. a = ''vdba_'' @ h @ ''_'' @ x \<and> length h = 10 \<and> list_all is_hex h
    \<and> length x = 6 \<and> list_all is_lower_alnum x"
proof (intro exI conjI)
  have a: "length a = 22" "take 5 a = ''vdba_''" "a ! 15 = CHR ''_''"
    using assms by (simp_all add: account_fullmatch_def)
  have "drop 15 a = a ! 15 # drop 16 a" using Cons_nth_drop_Suc [of 15 a] a(1) by simp
  then have "drop 5 a = take 10 (drop 5 a) @ ''_'' @ drop 16 a"
    using append_take_drop_id [of 10 "drop 5 a"] a(3) by simp
  then show "a = ''vdba_'' @ take 10 (drop 5 a) @ ''_'' @ drop 16 a"
    using append_take_drop_id [of 5 a] a(2) by metis
qed (use assms in \<open>simp_all add: account_fullmatch_def\<close>)

lemma account_no_quote:
  assumes "account_fullmatch a"
  shows "CHR 0x27 \<notin> set a \<and> CHR '';'' \<notin> set a"
proof -
  have no: "c \<notin> set y" if "list_all is_hex y \<or> list_all is_lower_alnum y" "c = CHR 0x27 \<or> c = CHR '';''" for c y
  proof -
    have "\<not> is_hex c" "\<not> is_lower_alnum c"
      using that(2) by (auto simp: is_hex_def is_lower_alnum_def char_class_defs)
    then show ?thesis using that(1) by (metis list_all_iff)
  qed
  obtain h x where a: "a = ''vdba_'' @ h @ ''_'' @ x" and hx: "list_all is_hex h" "list_all is_lower_alnum x"
    using account_parts [OF assms] by blast
  have "c \<notin> set a" if "c = CHR 0x27 \<or> c = CHR '';''" for c
    using no [of h c] no [of x c] that hx unfolding a by auto
  then show ?thesis by simp
qed

text \<open>The result of a builder of statements for one account.\<close>

definition only_about :: "string \<Rightarrow> token list list \<Rightarrow> exn + string list \<Rightarrow> bool" where
  "only_about a tokens r \<longleftrightarrow>
     (case r of
        Inr sts \<Rightarrow> account_fullmatch a \<and> map sql_lex sts = map Some tokens \<and> list_all single_statement sts
      | Inl e \<Rightarrow> \<not> account_fullmatch a \<and> exc_class e = ValueError)"

text \<open>
  C21. The statements that lock out, terminate and drop an account are built exactly for names of the shape
  of a grant's account, and a \<open>ValueError\<close> otherwise. Read as SQL tokens each is the intended call
  with the name as one string literal, and it is a single statement: a name cannot smuggle in SQL.
\<close>

theorem maintenance_statements_name_one_account:
  "only_about a (drop_tokens db a) (drop_statements db a)
   \<and> only_about a (lockout_tokens db a) (lockout_statements db a)
   \<and> only_about a (terminate_tokens db a) (terminate_statements db a)"
proof (cases "account_fullmatch a")
  case False
  then show ?thesis
    by (simp add: only_about_def drop_statements_def lockout_statements_def terminate_statements_def valid_account_def)
next
  case True
  note q = account_no_quote [OF True]
  show ?thesis using True q
    by (cases db)
      (simp_all add: only_about_def drop_statements_def lockout_statements_def terminate_statements_def valid_account_def
        quoted_def lex_eval kill_tokens_def single_statement_def butlast_append)
qed

end
