(* ===== verification/Grants.thy ===== *)
theory Grants
  imports Introspect Faults Sql
begin

text \<open>
  \<open>grants.py\<close>: issue, revoke and reconcile, with the teardown they share. A whole call is one
  program on the system state. The per-database lock is a flag: a call that finds it taken is the
  call whose wait of 60 seconds runs out. The logging calls are left out.
\<close>

section \<open>Admission and the per-database locks\<close>

definition busy :: "string \<Rightarrow> exn" where
  "busy m = Exn Busy m"

fun kind_name :: "kind \<Rightarrow> string" where
  "kind_name KIssue = ''issue''"
| "kind_name KRevoke = ''revoke''"
| "kind_name KAuth = ''auth''"
| "kind_name KSession = ''session''"

text \<open>\<open>with admit(kind): m\<close>: a semaphore that is taken without waiting and given back at the end.\<close>

definition admit :: "kind \<Rightarrow> ('w sys, 'a) prog \<Rightarrow> ('w sys, 'a) prog" where
  "admit k m =
     bindM (gets slots) (\<lambda>free.
     if free k = 0 then raise (busy (''too many concurrent '' @ kind_name k @ '' operations''))
     else seqM (modify (\<lambda>s. s\<lparr>slots := (slots s)(k := slots s k - 1)\<rparr>))
            (finallyM m (modify (\<lambda>s. s\<lparr>slots := (slots s)(k := Suc (slots s k))\<rparr>))))"

definition begin_op :: "db_type \<Rightarrow> string \<Rightarrow> ('w sys, unit) prog" where
  "begin_op db gid =
     bindM (gets locks) (\<lambda>held.
     if held db then raise (busy (''another '' @ db_value db @ '' operation is taking too long''))
     else modify (\<lambda>s. s\<lparr>locks := (locks s)(db := True), inflight := insert gid (inflight s)\<rparr>))"

definition end_op :: "db_type \<Rightarrow> string \<Rightarrow> ('w sys, unit) prog" where
  "end_op db gid = modify (\<lambda>s. s\<lparr>inflight := inflight s - {gid}, locks := (locks s)(db := False)\<rparr>)"

definition validate_ttl :: "config \<Rightarrow> int \<Rightarrow> exn + unit" where
  "validate_ttl c ttl =
     (if TTL_MIN c \<le> ttl \<and> ttl \<le> TTL_MAX c then Inr ()
      else Inl (Exn ValueError (''ttl_seconds must be between '' @ show_int (TTL_MIN c) @ '' and ''
             @ show_int (TTL_MAX c))))"

section \<open>What the API shows\<close>

text \<open>
  \<open>datetime.fromtimestamp(ts, UTC).strftime("%Y-%m-%dT%H:%M:%SZ")\<close>: microseconds are rounded, then
  cut off. The date is the proleptic Gregorian one of the day number.
\<close>

definition civil_from_days :: "int \<Rightarrow> int \<times> int \<times> int" where
  "civil_from_days days =
     (let z = days + 719468; era = z div 146097; doe = z mod 146097;
          yoe = (doe - doe div 1460 + doe div 36524 - doe div 146096) div 365;
          doy = doe - (365 * yoe + yoe div 4 - yoe div 100);
          mp = (5 * doy + 2) div 153;
          d = doy - (153 * mp + 2) div 5 + 1;
          m = (if mp < 10 then mp + 3 else mp - 9)
      in (yoe + era * 400 + (if m \<le> 2 then 1 else 0), m, d))"

definition two_digits :: "int \<Rightarrow> string" where
  "two_digits i = (if i < 10 then ''0'' @ show_int i else show_int i)"

definition iso_text :: "real \<Rightarrow> string" where
  "iso_text ts =
     (let secs = \<lfloor>ts * 1000000 + 1 / 2\<rfloor> div 1000000; days = secs div 86400; r = secs mod 86400
      in case civil_from_days days of (y, m, d) \<Rightarrow>
           show_int y @ ''-'' @ two_digits m @ ''-'' @ two_digits d @ ''T'' @ two_digits (r div 3600)
           @ '':'' @ two_digits (r mod 3600 div 60) @ '':'' @ two_digits (r mod 60) @ ''Z'')"

definition iso :: "real option \<Rightarrow> string option" where
  "iso ts = (case ts of None \<Rightarrow> None | Some t \<Rightarrow> if t = 0 then None else Some (iso_text t))"

record public_grant =
  p_grant_id :: string
  p_db_type :: db_type
  p_scope :: scope
  p_tables :: "string list"
  p_commands :: "string list"
  p_requested_for :: string
  p_issued_by :: string
  p_ttl_seconds :: int
  p_status :: status
  p_username :: "string option"
  p_created_at :: "string option"
  p_expires_at :: "string option"

definition public :: "grant \<Rightarrow> public_grant" where
  "public g =
     \<lparr>p_grant_id = g_id g, p_db_type = g_db_type g, p_scope = g_scope g, p_tables = g_tables g,
      p_commands = g_commands g, p_requested_for = g_requested_for g, p_issued_by = g_issued_by g,
      p_ttl_seconds = g_ttl_seconds g, p_status = g_status g, p_username = g_username g,
      p_created_at = iso (Some (g_created_at g)), p_expires_at = iso (g_expires_at g)\<rparr>"

text \<open>\<open>public(store.get_grant(grant_id))\<close>: a missing row is \<open>None["id"]\<close>.\<close>

definition public_of :: "string \<Rightarrow> ('w sys, public_grant) prog" where
  "public_of gid =
     bindM (get_grant gid) (\<lambda>g.
     case g of None \<Rightarrow> raise (Exn TypeError ''NoneType'') | Some r \<Rightarrow> ret (public r))"

section \<open>Teardown\<close>

definition run_statements :: "'w env \<Rightarrow> db_type \<Rightarrow> string \<Rightarrow> string list \<Rightarrow> ('w sys, unit) prog" where
  "run_statements E db gid statements =
     (if statements = [] then skip
      else bindM (draw_hex E 2) (\<lambda>h. run_as_manager E db (gid @ ''_h'' @ h) statements))"

text \<open>
  The loop that terminates a role's backends until none is left or 20 seconds are over; the number
  of rounds is the model's own bound.
\<close>

primrec terminate_loop :: "nat \<Rightarrow> 'w env \<Rightarrow> db_type \<Rightarrow> string \<Rightarrow> string \<Rightarrow> real \<Rightarrow> ('w sys, unit) prog" where
  "terminate_loop 0 E db account gid deadline = diverge"
| "terminate_loop (Suc n) E db account gid deadline =
     bindM (pg_backends E account) (\<lambda>alive.
     if alive > 0 then
       bindM (now E) (\<lambda>t.
       if t > deadline then
         raise (Exn RuntimeError (''backends of '' @ account @ '' still alive after termination attempts''))
       else
         seqM (bindM (lift (terminate_statements db account)) (run_statements E db gid))
         (seqM (do_sleep E (3 / 10)) (terminate_loop n E db account gid deadline)))
     else skip)"

definition lock_out_and_terminate :: "'w env \<Rightarrow> db_type \<Rightarrow> string \<Rightarrow> string \<Rightarrow> ('w sys, unit) prog" where
  "lock_out_and_terminate E db account gid =
     (if db \<noteq> Postgres then skip
      else seqM (bindM (lift (lockout_statements db account)) (run_statements E db gid))
             (bindM (now E) (\<lambda>t. terminate_loop (loop_rounds E) E db account gid (t + 20))))"

text \<open>The accessors of the grant's token: the stored one, or what the search by name finds.\<close>

definition grant_accessors :: "'w env \<Rightarrow> grant \<Rightarrow> ('w sys, string list) prog" where
  "grant_accessors E g =
     (if given (g_token_accessor g) then ret [the (g_token_accessor g)]
      else bindM (find_token_accessors E (g_id g)) (\<lambda>xs. ret (remdups xs)))"

definition known_leases :: "grant \<Rightarrow> string list \<Rightarrow> string list" where
  "known_leases g listed =
     sorted_list_of_set (set listed \<union> (if given (g_lease_id g) then {the (g_lease_id g)} else {}))"

definition drop_account :: "'w env \<Rightarrow> db_type \<Rightarrow> string \<Rightarrow> string \<Rightarrow> ('w sys, unit) prog" where
  "drop_account E db gid account =
     seqM (lock_out_and_terminate E db account gid)
          (bindM (lift (drop_statements db account)) (run_statements E db gid))"

text \<open>The body of the \<open>try\<close>; \<open>confirm_gone\<close> is its check that no account is left.\<close>

definition confirm_gone :: "'w env \<Rightarrow> db_type \<Rightarrow> string \<Rightarrow> ('w sys, unit) prog" where
  "confirm_gone E db gid =
     bindM (find_accounts E db gid) (\<lambda>left.
     if left \<noteq> [] then raise (Exn RuntimeError (''accounts still present after cleanup: '' @ py_repr_list left))
     else skip)"

definition teardown_steps :: "'w env \<Rightarrow> string \<Rightarrow> grant \<Rightarrow> ('w sys, unit) prog" where
  "teardown_steps E gid g =
     bindM (grant_accessors E g) (\<lambda>accessors.
     bindM (find_accounts E (g_db_type g) gid) (\<lambda>accounts.
     seqM (foreach accounts (\<lambda>a. lock_out_and_terminate E (g_db_type g) a gid))
     (bindM (list_leases E gid) (\<lambda>listed.
     seqM (foreach (known_leases g listed) (revoke_lease E))
     (bindM (find_accounts E (g_db_type g) gid) (\<lambda>accounts'.
     seqM (foreach accounts' (drop_account E (g_db_type g) gid))
     (seqM (confirm_gone E (g_db_type g) gid)
     (seqM (foreach accessors (revoke_accessor E))
     (delete_role E gid)))))))))"

text \<open>The handler of the \<open>try\<close> (the row stays \<open>revoking\<close>), and what follows when nothing was raised.\<close>

definition teardown_failed ::
  "'w env \<Rightarrow> string \<Rightarrow> string option \<Rightarrow> string \<Rightarrow> bool \<Rightarrow> exn \<Rightarrow> ('w sys, bool) prog" where
  "teardown_failed E gid rid actor raise_errors e =
     seqM (update_grant E gid [Status Revoking, Last_error (Some (type_name e))])
     (seqM (audit E rid (Some gid) actor ''teardown'' ''error'' (type_name e))
     (if raise_errors then raise e else ret False))"

definition teardown_finished ::
  "'w env \<Rightarrow> string \<Rightarrow> status \<Rightarrow> string option \<Rightarrow> string \<Rightarrow> ('w sys, unit) prog" where
  "teardown_finished E gid final rid actor =
     seqM (update_grant E gid [Status final, Last_error None])
          (audit E rid (Some gid) actor ''teardown'' (status_value final) [])"

definition teardown ::
  "'w env \<Rightarrow> string \<Rightarrow> status \<Rightarrow> string option \<Rightarrow> string \<Rightarrow> bool \<Rightarrow> ('w sys, unit) prog" where
  "teardown E gid final rid actor raise_errors =
     bindM (get_grant gid) (\<lambda>row.
     case row of
       None \<Rightarrow> skip
     | Some g \<Rightarrow>
         bindM (try_except (seqM (teardown_steps E gid g) (ret True)) is_exception
                  (teardown_failed E gid rid actor raise_errors)) (\<lambda>clean.
         if clean then teardown_finished E gid final rid actor else skip))"

section \<open>Issue\<close>

definition issue_steps ::
  "'w env \<Rightarrow> grant_request \<Rightarrow> string \<Rightarrow> string list \<Rightarrow> string list \<Rightarrow> ('w sys, creds) prog" where
  "issue_steps E req gid creation revocation =
     seqM (write_role E gid (rq_db_type req) creation revocation (rq_ttl_seconds req))
     (seqM (point E ''after_role_create'')
     (bindM (create_grant_token E (rq_ttl_seconds req) gid) (\<lambda>(token, accessor).
     seqM (point E ''after_token_create'')
     (seqM (update_grant E gid [Token_accessor accessor])
     (bindM (read_credentials E token gid) (\<lambda>creds.
     seqM (point E ''after_creds_read'')
     (bindM (now E) (\<lambda>t.
     seqM (update_grant E gid
       [Status Active, Username (c_username creds), Lease_id (c_lease_id creds),
        Expires_at (t + real_of_int (c_lease_duration creds))])
     (ret creds)))))))))"

definition new_row :: "grant_request \<Rightarrow> string \<Rightarrow> string \<Rightarrow> new_grant" where
  "new_row req actor gid =
     \<lparr>n_id = gid, n_db_type = rq_db_type req, n_scope = rq_scope req,
      n_tables = (if rq_scope req = Tables then rq_tables req else []),
      n_commands = rq_commands req, n_requested_for = rq_requested_for req, n_issued_by = actor,
      n_ttl_seconds = rq_ttl_seconds req\<rparr>"

text \<open>The handler of the inner \<open>try\<close>, and what runs between \<open>_begin\<close> and \<open>_end\<close>.\<close>

definition issue_failed ::
  "'w env \<Rightarrow> string \<Rightarrow> string \<Rightarrow> string \<Rightarrow> exn \<Rightarrow> ('w sys, 'a) prog" where
  "issue_failed E gid actor rid e =
     seqM (audit E (Some rid) (Some gid) actor ''issue'' ''error'' (type_name e))
     (seqM (teardown E gid Failed (Some rid) ''system'' False)
     (raise e))"

definition issue_locked ::
  "'w env \<Rightarrow> grant_request \<Rightarrow> string \<Rightarrow> string \<Rightarrow> string \<Rightarrow> string list \<Rightarrow> string list
     \<Rightarrow> ('w sys, creds) prog" where
  "issue_locked E req actor rid gid creation revocation =
     seqM (insert_grant E (new_row req actor gid))
     (bindM (catchM (issue_steps E req gid creation revocation) (issue_failed E gid actor rid)) (\<lambda>creds.
     seqM (audit E (Some rid) (Some gid) actor ''issue'' ''ok''
             (db_value (rq_db_type req) @ '' '' @ scope_value (rq_scope req)))
     (ret creds)))"

definition issue ::
  "'w env \<Rightarrow> grant_request \<Rightarrow> string \<Rightarrow> string \<Rightarrow> ('w sys, public_grant \<times> string) prog" where
  "issue E req actor rid =
     seqM (lift (validate_ttl (cfg E) (rq_ttl_seconds req)))
     (bindM (catalog E (rq_db_type req)) (\<lambda>cat.
     bindM (lift (build_statements (rq_db_type req) (rq_scope req) (rq_tables req) (rq_commands req)
              (set (cat_tables cat)) (Some (cat_sequences cat)))) (\<lambda>(creation, revocation).
     bindM (mutate_statements E creation) (\<lambda>creation'.
     bindM (new_grant_id E) (\<lambda>gid.
     seqM (begin_op (rq_db_type req) gid)
     (bindM (finallyM (issue_locked E req actor rid gid creation' revocation)
               (end_op (rq_db_type req) gid)) (\<lambda>creds.
     bindM (public_of gid) (\<lambda>out.
     ret (out, c_password creds)))))))))"

section \<open>Revoke\<close>

definition revoke_locked :: "'w env \<Rightarrow> string \<Rightarrow> string \<Rightarrow> string \<Rightarrow> ('w sys, unit) prog" where
  "revoke_locked E gid actor rid =
     seqM (update_grant E gid [Status Revoking])
     (seqM (audit E (Some rid) (Some gid) actor ''revoke'' ''started'' [])
     (teardown E gid Revoked (Some rid) actor True))"

definition revoke :: "'w env \<Rightarrow> string \<Rightarrow> string \<Rightarrow> string \<Rightarrow> ('w sys, public_grant) prog" where
  "revoke E gid actor rid =
     bindM (get_grant gid) (\<lambda>row.
     case row of
       None \<Rightarrow> raise (Exn NotFound gid)
     | Some g \<Rightarrow>
         if g_status g \<in> {Revoked, Expired, Failed} then ret (public g)
         else seqM (begin_op (g_db_type g) gid)
              (seqM (finallyM (revoke_locked E gid actor rid) (end_op (g_db_type g) gid))
              (public_of gid)))"

section \<open>Reconcile\<close>

definition final_for :: "grant \<Rightarrow> real \<Rightarrow> status option" where
  "final_for g t =
     (if g_status g = Issuing then Some Failed
      else if g_status g = Revoking then Some Revoked
      else if g_status g = Active \<and>
              (case g_expires_at g of Some x \<Rightarrow> x \<noteq> 0 \<and> t > x + 15 | None \<Rightarrow> False)
           then Some Expired
      else None)"

definition reconcile_locked :: "'w env \<Rightarrow> string \<Rightarrow> ('w sys, unit) prog" where
  "reconcile_locked E gid =
     bindM (get_grant gid) (\<lambda>fresh.
     case fresh of
       None \<Rightarrow> skip
     | Some g \<Rightarrow>
         bindM (now E) (\<lambda>t.
         case final_for g t of
           None \<Rightarrow> skip
         | Some final \<Rightarrow> teardown E gid final None ''system'' False))"

definition reconcile_one :: "'w env \<Rightarrow> string \<Rightarrow> ('w sys, unit) prog" where
  "reconcile_one E gid =
     bindM (get_grant gid) (\<lambda>row.
     case row of
       None \<Rightarrow> skip
     | Some g \<Rightarrow>
         seqM (begin_op (g_db_type g) gid)
              (finallyM (reconcile_locked E gid) (end_op (g_db_type g) gid)))"

text \<open>The loop over the rows: \<open>t\<close> is the time the round began, the row is from the snapshot.\<close>

definition reconcile_row :: "'w env \<Rightarrow> real \<Rightarrow> grant \<Rightarrow> ('w sys, unit) prog" where
  "reconcile_row E t g =
     bindM (gets inflight) (\<lambda>busy_ids.
     if g_id g \<in> busy_ids then skip
     else if final_for g t \<noteq> None then quiet (reconcile_one E (g_id g))
     else skip)"

definition orphan_scan :: "'w env \<Rightarrow> string set \<Rightarrow> db_type \<Rightarrow> ('w sys, unit) prog" where
  "orphan_scan E live db =
     bindM (try_except (leftover_users E db) is_exception (\<lambda>_. ret [])) (\<lambda>names.
     foreach names (\<lambda>name.
       if name \<in> live then skip
       else bindM (audit_exists ''orphan_account'' name) (\<lambda>seen.
            whenM (\<not> seen) (audit E None None ''system'' ''orphan_account'' ''warning'' name))))"

definition report_orphans :: "'w env \<Rightarrow> ('w sys, unit) prog" where
  "report_orphans E =
     bindM (list_by_status [Active, Revoking, Issuing]) (\<lambda>rows.
     if \<exists>g\<in>set rows. g_status g = Issuing then skip
     else foreach db_types (orphan_scan E {u. \<exists>g\<in>set rows. g_username g = Some u \<and> u \<noteq> []}))"

definition reconcile_once :: "'w env \<Rightarrow> ('w sys, unit) prog" where
  "reconcile_once E =
     bindM (now E) (\<lambda>t.
     bindM (list_by_status [Issuing, Revoking, Active]) (\<lambda>rows.
     seqM (foreach rows (reconcile_row E t))
     (bindM (purge_sessions E) (\<lambda>over.
     seqM (foreach over (\<lambda>r. revoke_token_quietly E (s_vault_token r)))
     (report_orphans E)))))"

text \<open>\<open>reconcile_loop\<close>, for a stop event that is set after \<open>n\<close> rounds.\<close>

primrec reconcile_loop :: "nat \<Rightarrow> 'w env \<Rightarrow> ('w sys, unit) prog" where
  "reconcile_loop 0 E = skip"
| "reconcile_loop (Suc n) E =
     seqM (quiet (reconcile_once E))
     (seqM (do_sleep E (real_of_int (RECONCILE_INTERVAL (cfg E)))) (reconcile_loop n E))"

end
