(* ===== verification/Urls.thy ===== *)
theory Urls
  imports Python
begin

text \<open>
  The parts of \<open>urllib.parse.urlsplit\<close> that \<open>main.py\<close> and \<open>config.py\<close> use: the scheme, the
  network location and the host name of a URL. The checks of \<open>urlsplit\<close> on a network location with
  brackets (an IP literal) or with characters outside ASCII are the parameter \<open>ip_check\<close>, which may
  refuse it with a \<open>ValueError\<close>.
\<close>

record split_url =
  u_scheme :: string
  u_netloc :: string

definition is_ascii :: "char \<Rightarrow> bool" where
  "is_ascii c \<longleftrightarrow> code c < 128"

text \<open>\<open>s.partition(c)\<close>: what is before the first \<open>c\<close>, and what is after it if there is one.\<close>

fun partition_at :: "char \<Rightarrow> string \<Rightarrow> string \<times> string option" where
  "partition_at c [] = ([], None)"
| "partition_at c (x # xs) =
     (if x = c then ([], Some xs)
      else case partition_at c xs of (a, b) \<Rightarrow> (x # a, b))"

text \<open>The part after the last \<open>c\<close>, or everything: \<open>s.rpartition(c)[2]\<close>.\<close>

definition after_last :: "char \<Rightarrow> string \<Rightarrow> string" where
  "after_last c s = rev (takeWhile (\<lambda>x. x \<noteq> c) (rev s))"

definition scheme_char :: "char \<Rightarrow> bool" where
  "scheme_char c \<longleftrightarrow> is_alpha c \<or> is_digit c \<or> c \<in> {CHR ''+'', CHR ''-'', CHR ''.''}"

text \<open>Leading control characters and spaces are dropped, tabs and line ends removed everywhere.\<close>

definition clean_url :: "string \<Rightarrow> string" where
  "clean_url u = filter (\<lambda>c. code c \<notin> {9, 10, 13}) (dropWhile (\<lambda>c. code c \<le> 32) u)"

definition split_scheme :: "string \<Rightarrow> string \<times> string" where
  "split_scheme u =
     (case partition_at CHR '':'' u of
        (s, Some r) \<Rightarrow> if s \<noteq> [] \<and> is_alpha (hd s) \<and> list_all scheme_char s then (lower s, r) else ([], u)
      | (_, None) \<Rightarrow> ([], u))"

definition netloc_end :: "char \<Rightarrow> bool" where
  "netloc_end c \<longleftrightarrow> c \<in> {CHR ''/'', CHR ''?'', CHR ''#''}"

definition check_netloc :: "(string \<Rightarrow> exn option) \<Rightarrow> string \<Rightarrow> exn option" where
  "check_netloc ip_check n =
     (if (CHR ''['' \<in> set n) \<noteq> (CHR '']'' \<in> set n) then Some (Exn ValueError ''Invalid IPv6 URL'')
      else if CHR ''['' \<in> set n \<or> \<not> list_all is_ascii n then ip_check n
      else None)"

definition urlsplit :: "(string \<Rightarrow> exn option) \<Rightarrow> string \<Rightarrow> exn + split_url" where
  "urlsplit ip_check url =
     (case split_scheme (clean_url url) of (s, u) \<Rightarrow>
        if prefix ''//'' u then
          let n = takeWhile (\<lambda>c. \<not> netloc_end c) (drop 2 u) in
          case check_netloc ip_check n of
            Some e \<Rightarrow> Inl e
          | None \<Rightarrow> Inr \<lparr>u_scheme = s, u_netloc = n\<rparr>
        else Inr \<lparr>u_scheme = s, u_netloc = []\<rparr>)"

text \<open>\<open>SplitResult.hostname\<close>: without user and port, in lower case up to a zone; \<open>None\<close> when empty.\<close>

definition hostname :: "split_url \<Rightarrow> string option" where
  "hostname u =
     (let hostinfo = after_last CHR ''@'' (u_netloc u);
          h = (case partition_at CHR ''['' hostinfo of
                 (_, Some b) \<Rightarrow> fst (partition_at CHR '']'' b)
               | (_, None) \<Rightarrow> fst (partition_at CHR '':'' hostinfo))
      in if h = [] then None
         else case partition_at CHR ''%'' h of
                (a, None) \<Rightarrow> Some (lower a)
              | (a, Some z) \<Rightarrow> Some (lower a @ ''%'' @ z))"

section \<open>Lemmas\<close>

definition host_char :: "char \<Rightarrow> bool" where
  "host_char c \<longleftrightarrow> is_ascii c \<and> 33 \<le> code c \<and> \<not> netloc_end c \<and> c \<noteq> CHR ''['' \<and> c \<noteq> CHR '']''"

lemma clean_url_id: "u \<noteq> [] \<Longrightarrow> list_all (\<lambda>c. 33 \<le> code c) u \<Longrightarrow> clean_url u = u"
  by (cases u) (auto simp: clean_url_def list_all_iff filter_id_conv)

lemma partition_at_new: "c \<notin> set s \<Longrightarrow> partition_at c (s @ c # r) = (s, Some r)"
  by (induction s) auto

lemma host_chars:
  assumes "list_all host_char h"
  shows "list_all (\<lambda>c. 33 \<le> code c) h" "takeWhile (\<lambda>c. \<not> netloc_end c) h = h" "check_netloc ip_check h = None"
  using assms by (auto simp: list_all_iff host_char_def check_netloc_def takeWhile_eq_all_conv)

text \<open>A web origin with an ordinary host has that host as its network location.\<close>

lemma urlsplit_web:
  assumes "s = ''http'' \<or> s = ''https''" and "list_all host_char h"
  shows "urlsplit ip_check (s @ ''://'' @ h) = Inr \<lparr>u_scheme = s, u_netloc = h\<rparr>"
proof -
  have s: "CHR '':'' \<notin> set s" "s \<noteq> []" "is_alpha (hd s)" "list_all scheme_char s" "lower s = s"
    "list_all (\<lambda>c. 33 \<le> code c) (s @ ''://'')"
    using assms(1) by (auto simp: scheme_char_def lower_def lower_char_def char_class_defs)
  have "clean_url (s @ ''://'' @ h) = s @ CHR '':'' # ''//'' @ h"
    using s host_chars(1) [OF assms(2)] by (subst clean_url_id) auto
  moreover have "split_scheme (s @ CHR '':'' # ''//'' @ h) = (s, ''//'' @ h)"
    using s unfolding split_scheme_def by (subst partition_at_new) simp_all
  ultimately show ?thesis
    by (simp add: urlsplit_def Let_def host_chars(2,3) [OF assms(2)])
qed

end
