(* ===== verification/Portal.thy ===== *)
theory Portal
  imports Grants Urls
begin

text \<open>
  \<open>main.py\<close>: the request handlers on top of \<open>grants.py\<close>. A request is what the handlers read of it;
  an answer is a value, an error is an \<open>HTTPException\<close> with its status or one of the exceptions with
  a handler of their own (\<open>error_status\<close>). Pages, cookies and routes are in Pages, the ASGI wrapper in Guard.
\<close>

section \<open>Requests and errors\<close>

record request =
  r_method :: string
  r_path :: string
  r_headers :: "string \<rightharpoonup> string"      \<comment> \<open>names in lower case\<close>
  r_sid :: "string option"                \<comment> \<open>the cookie \<open>vdba_sid\<close>\<close>
  r_pre :: "string option"                \<comment> \<open>the cookie \<open>vdba_pre\<close>\<close>
  r_form :: "(string \<times> string) list"    \<comment> \<open>the parsed form body, in order\<close>
  r_query :: "string \<rightharpoonup> string"        \<comment> \<open>the query parameters\<close>
  r_json :: "json option"                 \<comment> \<open>the parsed JSON body, \<open>None\<close> if it is none\<close>
  r_scheme :: string
  r_id :: string

text \<open>\<open>form.get\<close> returns the last value of a field, \<open>form.getlist\<close> all of them.\<close>

definition form_get :: "request \<Rightarrow> string \<Rightarrow> string option" where
  "form_get r k = map_of (rev (r_form r)) k"

definition form_list :: "request \<Rightarrow> string \<Rightarrow> string list" where
  "form_list r k = [v. (n, v) \<leftarrow> r_form r, n = k]"

definition form_field :: "request \<Rightarrow> string \<Rightarrow> string" where
  "form_field r k = (case form_get r k of Some v \<Rightarrow> v | None \<Rightarrow> [])"

definition http :: "nat \<Rightarrow> string \<Rightarrow> exn" where
  "http status detail = Exn (HTTPException status) detail"

definition header :: "request \<Rightarrow> string \<Rightarrow> string" where
  "header r h = (case r_headers r h of Some v \<Rightarrow> v | None \<Rightarrow> [])"

definition wants_json :: "request \<Rightarrow> bool" where
  "wants_json r \<longleftrightarrow> prefix ''/api/'' (r_path r) \<or> contains ''application/json'' (header r ''content-type'')"

text \<open>The status of the answer to an exception: the registered handlers.\<close>

definition error_status :: "request \<Rightarrow> exn \<Rightarrow> nat" where
  "error_status r e =
     (case exc_class e of
        HTTPException n \<Rightarrow> n
      | NotAuthenticated \<Rightarrow> (if wants_json r then 401 else 303)
      | VaultUnavailable \<Rightarrow> 503
      | OtherExc n \<Rightarrow> (if n = ''TooLarge'' then 413 else 500)
      | _ \<Rightarrow> 500)"

section \<open>Origin and CSRF\<close>

definition SAFE :: "string set" where
  "SAFE = {''GET'', ''HEAD'', ''OPTIONS''}"

fun netlocs :: "(string \<Rightarrow> exn option) \<Rightarrow> string list \<Rightarrow> exn + string list" where
  "netlocs ip_check [] = Inr []"
| "netlocs ip_check (o' # os) =
     sbind (urlsplit ip_check o') (\<lambda>u. sbind (netlocs ip_check os) (\<lambda>ns. Inr (u_netloc u # ns)))"

definition allowed_netlocs :: "(string \<Rightarrow> exn option) \<Rightarrow> config \<Rightarrow> request \<Rightarrow> exn + string set" where
  "allowed_netlocs ip_check c r =
     sbind (netlocs ip_check (EXTRA_ORIGINS c)) (\<lambda>extra.
     sbind (if PUBLIC_ORIGIN c \<noteq> [] then netlocs ip_check [PUBLIC_ORIGIN c] else Inr []) (\<lambda>public.
     Inr ({header r ''host''} \<union> set extra \<union> set public)))"

definition check_origin :: "(string \<Rightarrow> exn option) \<Rightarrow> config \<Rightarrow> request \<Rightarrow> exn + unit" where
  "check_origin ip_check c r =
     (let site = header r ''sec-fetch-site''; origin = header r ''origin'' in
      if site \<noteq> [] \<and> site \<notin> {''same-origin'', ''none''} then Inl (http 403 ''cross-site request rejected'')
      else if origin = [] \<and> site = [] then Inl (http 403 ''Origin header required'')
      else if origin = [] then Inr ()
      else sbind (allowed_netlocs ip_check c r) (\<lambda>allowed.
           if origin = ''null'' then Inl (http 403 ''origin not allowed'')
           else sbind (urlsplit ip_check origin) (\<lambda>u.
                if u_netloc u \<notin> allowed then Inl (http 403 ''origin not allowed'') else Inr ())))"

definition submitted_token :: "request \<Rightarrow> string" where
  "submitted_token r =
     (let tok = header r ''x-csrf-token'' in
      if tok \<noteq> [] then tok
      else if prefix ''application/x-www-form-urlencoded'' (header r ''content-type'')
      then form_field r ''csrf_token''
      else [])"

text \<open>\<open>hmac.compare_digest\<close> on two strings: a \<open>TypeError\<close> unless both are ASCII.\<close>

definition compare_digest :: "string \<Rightarrow> string \<Rightarrow> exn + bool" where
  "compare_digest a b =
     (if list_all is_ascii a \<and> list_all is_ascii b then Inr (a = b)
      else Inl (Exn TypeError ''comparing strings with non-ASCII characters is not supported''))"

definition check_csrf :: "string \<Rightarrow> string \<Rightarrow> exn + unit" where
  "check_csrf submitted expected =
     sbind (compare_digest submitted expected) (\<lambda>same.
     if same then Inr () else Inl (http 403 ''missing or invalid CSRF token''))"

section \<open>Sessions\<close>

definition busy_503 :: "('w sys, 'a) prog \<Rightarrow> ('w sys, 'a) prog" where
  "busy_503 m = try_except m (\<lambda>e. exc_class e = Busy) (\<lambda>e. raise (http 503 (exc_msg e)))"

definition session_expired :: "real \<Rightarrow> session \<Rightarrow> bool" where
  "session_expired t s \<longleftrightarrow>
     t - s_created_at s > real_of_int SESSION_ABSOLUTE_SECONDS
     \<or> t - s_last_seen s > real_of_int SESSION_IDLE_SECONDS"

text \<open>What Vault says now of the user and of the token of a session.\<close>

definition recheck :: "'w env \<Rightarrow> session \<Rightarrow> ('w sys, bool) prog" where
  "recheck E s =
     busy_503 (admit KSession
       (bindM (user_policies E (s_username s)) (\<lambda>current.
        bindM (token_policies E (s_vault_token s)) (\<lambda>alive.
        ret (case current of
               None \<Rightarrow> False
             | Some ps \<Rightarrow> ADMIN_POLICY_NAME \<in> set ps \<and> (case alive of None \<Rightarrow> False | Some qs \<Rightarrow> qs \<noteq> []))))))"

definition end_session :: "'w env \<Rightarrow> string \<Rightarrow> session \<Rightarrow> ('w sys, unit) prog" where
  "end_session E sid s =
     seqM (delete_session E sid) (revoke_token_quietly E (s_vault_token s))"

definition use_session :: "'w env \<Rightarrow> string \<Rightarrow> session \<Rightarrow> ('w sys, session option) prog" where
  "use_session E sid s =
     bindM (now E) (\<lambda>t.
     if session_expired t s then seqM (end_session E sid s) (ret None)
     else if t - s_last_check s > real_of_int (SESSION_RECHECK_SECONDS (cfg E)) then
       bindM (recheck E s) (\<lambda>admin.
       if admin then seqM (touch_session E sid True) (ret (Some s))
       else seqM (end_session E sid s)
            (seqM (audit E None None (s_username s) ''session'' ''ended'' ''admin rights removed'')
            (ret None)))
     else seqM (touch_session E sid False) (ret (Some s)))"

definition current_session :: "'w env \<Rightarrow> string option \<Rightarrow> ('w sys, session option) prog" where
  "current_session E cookie =
     (case cookie of
        None \<Rightarrow> ret None
      | Some sid \<Rightarrow>
          if sid = [] then ret None
          else bindM (get_session E sid) (\<lambda>s.
               case s of None \<Rightarrow> ret None | Some r \<Rightarrow> use_session E sid r))"

definition require_admin :: "'w env \<Rightarrow> (string \<Rightarrow> exn option) \<Rightarrow> request \<Rightarrow> ('w sys, session) prog" where
  "require_admin E ip_check r =
     bindM (current_session E (r_sid r)) (\<lambda>s.
     case s of
       None \<Rightarrow> raise (Exn NotAuthenticated [])
     | Some x \<Rightarrow>
         if r_method r \<in> SAFE then ret x
         else seqM (lift (check_origin ip_check (cfg E) r))
              (seqM (lift (check_csrf (submitted_token r) (s_csrf x))) (ret x)))"

section \<open>Login and logout\<close>

datatype login_answer = Login_Page nat string string | Logged_In string

definition login_page :: "'w env \<Rightarrow> string \<Rightarrow> string \<Rightarrow> nat \<Rightarrow> string \<Rightarrow> ('w sys, login_answer) prog" where
  "login_page E rid msg status username =
     seqM (audit E (Some rid) None (take 64 username) ''login'' ''denied'' msg)
     (bindM (draw_urlsafe E 32) (\<lambda>pre. ret (Login_Page status msg pre)))"

text \<open>A login ends the session the browser came with before it makes a new one.\<close>

definition replace_session :: "'w env \<Rightarrow> string option \<Rightarrow> ('w sys, unit) prog" where
  "replace_session E cookie =
     (if given cookie then
        bindM (get_session E (the cookie)) (\<lambda>prev.
        seqM (delete_session E (the cookie))
        (case prev of None \<Rightarrow> skip | Some p \<Rightarrow> revoke_token_quietly E (s_vault_token p)))
      else skip)"

definition open_session ::
  "'w env \<Rightarrow> request \<Rightarrow> string \<Rightarrow> string \<Rightarrow> string list \<Rightarrow> ('w sys, login_answer) prog" where
  "open_session E r username token policies =
     (if ADMIN_POLICY_NAME \<notin> set policies then
        seqM (revoke_token_quietly E token)
             (login_page E (r_id r) ''This account is not a portal administrator'' 403 username)
      else
        seqM (replace_session E (r_sid r))
        (bindM (create_session E username token) (\<lambda>(sid, _).
         seqM (audit E (Some (r_id r)) None username ''login'' ''ok'' []) (ret (Logged_In sid)))))"

definition do_login :: "'w env \<Rightarrow> request \<Rightarrow> string \<Rightarrow> string \<Rightarrow> ('w sys, login_answer) prog" where
  "do_login E r username password =
     busy_503 (admit KAuth
       (if username = [] \<or> password = [] \<or> length username > 128 \<or> length password > 512
        then login_page E (r_id r) ''Invalid credentials'' 401 username
        else bindM (try_except (bindM (userpass_login E username password) (\<lambda>x. ret (Some x)))
                      (\<lambda>e. exc_class e = PermissionError) (\<lambda>_. ret None)) (\<lambda>res.
             case res of
               None \<Rightarrow> login_page E (r_id r) ''Invalid credentials'' 401 username
             | Some (token, policies) \<Rightarrow> open_session E r username token policies)))"

definition login_submit :: "'w env \<Rightarrow> (string \<Rightarrow> exn option) \<Rightarrow> request \<Rightarrow> ('w sys, login_answer) prog" where
  "login_submit E ip_check r =
     (let pre = (case r_pre r of Some p \<Rightarrow> p | None \<Rightarrow> []) in
      seqM (lift (check_origin ip_check (cfg E) r))
      (seqM (if pre = [] then raise (http 403 ''missing or invalid CSRF token'')
             else lift (check_csrf (form_field r ''csrf_token'') pre))
      (do_login E r (form_field r ''username'') (form_field r ''password''))))"

definition do_logout :: "'w env \<Rightarrow> request \<Rightarrow> session \<Rightarrow> ('w sys, unit) prog" where
  "do_logout E r s =
     seqM (delete_session E (case r_sid r of Some x \<Rightarrow> x | None \<Rightarrow> []))
     (seqM (revoke_token_quietly E (s_vault_token s))
     (audit E (Some (r_id r)) None (s_username s) ''logout'' ''ok'' []))"

section \<open>Grants over HTTP\<close>

text \<open>How \<open>_issue\<close> and the revoke handler turn exceptions into answers.\<close>

definition issue_error :: "string \<Rightarrow> exn \<Rightarrow> exn" where
  "issue_error rid e =
     (if is_value_error e then http 400 (exc_msg e)
      else if exc_class e = Busy then http 503 (exc_msg e)
      else if exc_class e = VaultUnavailable then e
      else if is_exception e then http 502 (''issuing failed and was rolled back (request '' @ rid @ '')'')
      else e)"

definition portal_issue ::
  "'w env \<Rightarrow> request \<Rightarrow> session \<Rightarrow> grant_request \<Rightarrow> ('w sys, public_grant \<times> string) prog" where
  "portal_issue E r s req =
     catchM (admit KIssue (issue E req (s_username s) (r_id r))) (\<lambda>e. raise (issue_error (r_id r) e))"

definition revoke_error :: "string \<Rightarrow> exn \<Rightarrow> exn" where
  "revoke_error rid e =
     (if exc_class e = NotFound then http 404 ''grant not found''
      else if exc_class e = Busy then http 503 (exc_msg e)
      else if exc_class e = VaultUnavailable then e
      else if is_exception e then http 502 (''revocation incomplete, will be retried (request '' @ rid @ '')'')
      else e)"

definition portal_revoke :: "'w env \<Rightarrow> request \<Rightarrow> session \<Rightarrow> string \<Rightarrow> ('w sys, public_grant) prog" where
  "portal_revoke E r s gid =
     catchM (admit KRevoke (revoke E gid (s_username s) (r_id r))) (\<lambda>e. raise (revoke_error (r_id r) e))"

text \<open>The JSON API's \<open>POST /api/grants\<close>, its list of grants and its list of tables.\<close>

definition api_create_grant ::
  "'w env \<Rightarrow> request \<Rightarrow> session \<Rightarrow> grant_request \<Rightarrow> ('w sys, public_grant \<times> string) prog" where
  "api_create_grant E r s req =
     (if contains ''application/json'' (header r ''content-type'') then portal_issue E r s req
      else raise (http 415 ''Content-Type must be application/json''))"

definition api_list_grants :: "('w sys, public_grant list) prog" where
  "api_list_grants = bindM (list_grants None 500) (\<lambda>gs. ret (map public gs))"

definition api_list_tables :: "'w env \<Rightarrow> db_type \<Rightarrow> ('w sys, string list) prog" where
  "api_list_tables E db =
     busy_503 (admit KIssue (bindM (catalog E db) (\<lambda>c. ret (cat_tables c))))"

text \<open>The lists of tables of the start page: a database that is down only loses its own list.\<close>

definition index_tables ::
  "'w env \<Rightarrow> db_type \<Rightarrow> string option \<Rightarrow> ('w sys, string list \<times> string option) prog" where
  "index_tables E db error =
     try_except
       (try_except (bindM (admit KIssue (catalog E db)) (\<lambda>c. ret (cat_tables c, error)))
          (\<lambda>e. exc_class e = Busy)
          (\<lambda>_. ret ([], Some (if given error then the error else ''Server busy, try again''))))
       is_exception
       (\<lambda>_. ret ([], Some (if given error then the error
               else ''Could not list '' @ db_value db @ '' tables (database unreachable?)'')))"

definition index_page ::
  "'w env \<Rightarrow> string option
     \<Rightarrow> ('w sys, string list \<times> string list \<times> public_grant list \<times> string option) prog" where
  "index_page E error =
     bindM (index_tables E Postgres error) (\<lambda>(pg, error1).
     bindM (index_tables E Clickhouse error1) (\<lambda>(ch, error2).
     bindM (list_grants None 100) (\<lambda>gs. ret (pg, ch, map public gs, error2))))"

definition rotate_connection :: "'w env \<Rightarrow> request \<Rightarrow> session \<Rightarrow> db_type \<Rightarrow> ('w sys, unit) prog" where
  "rotate_connection E r s db =
     busy_503 (admit KIssue
       (seqM (catchM (rotate_root E db) (\<lambda>e.
                if exc_class e = VaultUnavailable \<or> \<not> is_exception e then raise e
                else seqM (audit E (Some (r_id r)) None (s_username s) ''rotate'' ''error'' (db_value db))
                     (raise (http 502 (''rotation failed (request '' @ r_id r @ '')'')))))
             (audit E (Some (r_id r)) None (s_username s) ''rotate'' ''ok'' (db_value db))))"

section \<open>Sessions and requests that are let through\<close>

lemma use_session_Ret:
  assumes "use_session E sid x s = (Ret (Some y), s')"
  shows "y = x \<and> (\<exists>t. read_clock E t \<and> \<not> session_expired t x
    \<and> (t - s_last_check x \<le> real_of_int (SESSION_RECHECK_SECONDS (cfg E)) \<or> (\<exists>s1 s2. recheck E x s1 = (Ret True, s2))))"
proof -
  obtain t s1 where t: "now E s = (Ret t, s1)"
    and r: "(if session_expired t x then seqM (end_session E sid x) (ret None)
     else if t - s_last_check x > real_of_int (SESSION_RECHECK_SECONDS (cfg E)) then
       bindM (recheck E x) (\<lambda>admin.
       if admin then seqM (touch_session E sid True) (ret (Some x))
       else seqM (end_session E sid x)
            (seqM (audit E None None (s_username x) ''session'' ''ended'' ''admin rights removed'')
            (ret None)))
     else seqM (touch_session E sid False) (ret (Some x))) s1 = (Ret (Some y), s')"
    using assms unfolding use_session_def bindM_Ret by blast
  show ?thesis
    using r now_read [OF t] by (auto simp: returned split: if_splits)
qed

lemma current_session_Ret:
  assumes "current_session E cookie s = (Ret (Some x), s')"
  shows "\<exists>sid. cookie = Some sid \<and> sid \<noteq> []
    \<and> tab_get s_sid (sha256_hex E sid) (sessions_tab (disk s)) = Some x
    \<and> (\<exists>s1. use_session E sid x s1 = (Ret (Some x), s'))"
  using assms
  by (cases cookie)
    (auto simp: current_session_def get_session_def returned dest: use_session_Ret split: if_splits option.splits)

lemma check_csrf_Inr: "check_csrf a b = Inr u \<Longrightarrow> a = b"
  by (auto simp: check_csrf_def compare_digest_def sbind_Inr split: if_splits)

section \<open>Properties\<close>

text \<open>A session that the reconciler purges is one that a request at the same time would end.\<close>

lemma purge_and_request_agree_on_expiry:
  "session_over t x \<longleftrightarrow> session_expired t x"
  by (auto simp: session_over_def session_expired_def)


definition example_post :: request where
  "example_post =
     \<lparr>r_method = ''POST'', r_path = ''/login'',
      r_headers = [''origin'' \<mapsto> ''http://portal:8080'', ''host'' \<mapsto> ''portal:8080''], r_sid = None, r_pre = None,
      r_form = [], r_query = Map.empty, r_json = None, r_scheme = ''http'', r_id = ''r1''\<rparr>"


section \<open>Who gets a session\<close>

text \<open>Vault accepted this user with the password, and its token carries the administrators' policy.\<close>

definition admin_login :: "'w env \<Rightarrow> string \<Rightarrow> string \<Rightarrow> string \<Rightarrow> bool" where
  "admin_login E username password token \<longleftrightarrow>
     (\<exists>s1 s2 policies. userpass_login E username password s1 = (Ret (token, policies), s2)
        \<and> ADMIN_POLICY_NAME \<in> set policies)"

definition sessions_within :: "session set \<Rightarrow> 'w sys \<Rightarrow> 'w sys \<Rightarrow> bool" where
  "sessions_within G s s' \<longleftrightarrow> set (sessions_tab (disk s')) \<subseteq> set (sessions_tab (disk s)) \<union> G"

interpretation sessions_within: frame "sessions_within G" for G
  by unfold_locales (auto simp: sessions_within_def)

lemma outside_sessions: "keeps outside_only m \<Longrightarrow> keeps (sessions_within G) m"
  by (erule keeps_mono) (simp add: frame_defs sessions_within_def)

lemma store_sessions:
  "keeps (sessions_within G) (audit E rid gid actor action result detail)"
  "keeps (sessions_within G) (delete_session E sid)"
  unfolding audit_def delete_session_def
  by (intro sessions_within.rules outside_sessions outside_keeps keeps_tx;
      auto simp: sessions_within_def db_audit_def tab_delete_def)+

lemma create_sessions:
  assumes "\<And>x. s_username x = u \<Longrightarrow> s_vault_token x = tok \<Longrightarrow> x \<in> G"
  shows "keeps (sessions_within G) (create_session E u tok)"
  unfolding create_session_def
  by (intro sessions_within.rules outside_sessions outside_keeps keeps_tx)
     (auto simp: sessions_within_def db_create_session_def tab_insert_def assms split: option.splits if_splits)

lemmas sessions_intros = sessions_within.rules store_sessions outside_sessions outside_keeps

lemma login_page_sessions: "keeps (sessions_within G) (login_page E rid msg status u)"
  unfolding login_page_def by (intro sessions_intros)

lemma open_session_sessions:
  assumes "\<And>x. s_username x = u \<Longrightarrow> s_vault_token x = tok \<Longrightarrow> ADMIN_POLICY_NAME \<in> set policies \<Longrightarrow> x \<in> G"
  shows "keeps (sessions_within G) (open_session E r u tok policies)"
proof (cases "ADMIN_POLICY_NAME \<in> set policies")
  case True
  then have c: "keeps (sessions_within G) (create_session E u tok)" by (intro create_sessions assms)
  show ?thesis
    using True unfolding open_session_def replace_session_def
    by simp (intro conjI impI c sessions_within.rules store_sessions outside_sessions outside_keeps)
next
  case False
  then show ?thesis unfolding open_session_def by simp (intro sessions_intros login_page_sessions)
qed

lemma admit_sessions: "keeps (sessions_within G) m \<Longrightarrow> keeps (sessions_within G) (admit k m)"
  unfolding admit_def
  by (intro sessions_within.rules keeps_modify) (simp_all add: sessions_within_def)

text \<open>
  C16. Only administrators get a session. Whatever a login does and however it ends, a session that
  was not there before it belongs to the user who logged in, and holds a token that Vault gave for that user
  and password and that carries the administrators' policy.
\<close>

theorem only_administrators_get_sessions:
  "set (sessions_tab (disk (snd (do_login E r u q s))))
     \<subseteq> set (sessions_tab (disk s)) \<union> {x. s_username x = u \<and> admin_login E u q (s_vault_token x)}"
proof -
  let ?G = "{x. s_username x = u \<and> admin_login E u q (s_vault_token x)}"
  let ?login = "try_except (bindM (userpass_login E u q) (\<lambda>x. ret (Some x)))
      (\<lambda>e. exc_class e = PermissionError) (\<lambda>_. ret None)"
  have granted: "admin_login E u q tok"
    if "?login s1 = (Ret (Some (tok, ps)), s2)" "ADMIN_POLICY_NAME \<in> set ps" for s1 s2 tok ps
    using that unfolding admin_login_def try_except_def by (auto simp: returned split: if_splits)
  have "keeps (sessions_within ?G) (bindM ?login (\<lambda>res. case res of
        None \<Rightarrow> login_page E (r_id r) ''Invalid credentials'' 401 u
      | Some (token, policies) \<Rightarrow> open_session E r u token policies))"
  proof (rule sessions_within.bind_returned)
    show "keeps (sessions_within ?G) ?login" by (intro sessions_intros)
    show "\<forall>s1 res s2. ?login s1 = (Ret res, s2) \<longrightarrow> keeps (sessions_within ?G) (case res of
        None \<Rightarrow> login_page E (r_id r) ''Invalid credentials'' 401 u
      | Some (token, policies) \<Rightarrow> open_session E r u token policies)"
      using granted
      by (auto intro!: login_page_sessions open_session_sessions split: option.split)
  qed
  then have "keeps (sessions_within ?G) (do_login E r u q)"
    unfolding do_login_def busy_503_def
    by (intro sessions_within.try_exc admit_sessions sessions_within.cond login_page_sessions sessions_within.raise)
  then show ?thesis by (simp add: keeps_def sessions_within_def)
qed

section \<open>Answers to errors\<close>

definition answered :: "request \<Rightarrow> nat set \<Rightarrow> string \<Rightarrow> exn \<Rightarrow> bool" where
  "answered r statuses detail e \<longleftrightarrow>
     (if is_exception e
      then error_status r e \<in> statuses \<and> (error_status r e = 502 \<longrightarrow> exc_msg e = detail)
      else True)"


text \<open>
  A CSRF token outside ASCII is not answered with the 403 of a wrong token: \<open>hmac.compare_digest\<close> raises a
  \<open>TypeError\<close> on it, which no handler expects, so the request ends in a 500.
\<close>

theorem non_ascii_token_is_a_server_error:
  assumes "\<not> list_all is_ascii (submitted_token r)"
  shows "\<exists>e. check_csrf (submitted_token r) expected = Inl e \<and> error_status r e = 500"
  using assms by (simp add: check_csrf_def compare_digest_def error_status_def)

theorem non_ascii_token_is_a_server_error_witness:
  "\<exists>e. check_csrf (submitted_token (example_post\<lparr>r_headers := [''x-csrf-token'' \<mapsto> [CHR 0xE9]]\<rparr>)) ''t'' = Inl e
     \<and> error_status (example_post\<lparr>r_headers := [''x-csrf-token'' \<mapsto> [CHR 0xE9]]\<rparr>) e = 500"
  by (rule non_ascii_token_is_a_server_error)
     (simp add: submitted_token_def header_def is_ascii_def code_def)

end
