(* ===== verification/Pages.thy ===== *)
theory Pages
  imports Portal
begin

text \<open>
  The rest of \<open>main.py\<close>: the cookies, the HTML pages, the form handler, and the routes, put together into one
  program for a whole request (\<open>portal\<close>). A page is the data its template is given. Routing and the parsing of
  paths, bodies and parameters are what FastAPI does with the decorators and annotations of the handlers.
\<close>

section \<open>Cookies\<close>

definition COOKIE :: string where "COOKIE = ''vdba_sid''"
definition PRE_COOKIE :: string where "PRE_COOKIE = ''vdba_pre''"

record cookie =
  ck_name :: string
  ck_value :: string
  ck_max_age :: int
  ck_httponly :: bool
  ck_samesite :: string
  ck_secure :: bool
  ck_path :: string

definition secure_cookie :: "config \<Rightarrow> request \<Rightarrow> bool" where
  "secure_cookie c r =
     (if COOKIE_SECURE c = ''auto''
      then r_scheme r = ''https'' \<or> r_headers r ''x-forwarded-proto'' = Some ''https''
      else COOKIE_SECURE c = ''1'')"

definition set_cookie :: "config \<Rightarrow> request \<Rightarrow> string \<Rightarrow> string \<Rightarrow> int \<Rightarrow> cookie" where
  "set_cookie c r name v max_age =
     \<lparr>ck_name = name, ck_value = v, ck_max_age = max_age, ck_httponly = True, ck_samesite = ''lax'',
      ck_secure = secure_cookie c r, ck_path = ''/''\<rparr>"

text \<open>\<open>delete_cookie\<close>: an empty value that expires at once.\<close>

definition delete_cookie :: "string \<Rightarrow> cookie" where
  "delete_cookie name =
     \<lparr>ck_name = name, ck_value = [], ck_max_age = 0, ck_httponly = False, ck_samesite = ''lax'',
      ck_secure = False, ck_path = ''/''\<rparr>"

section \<open>Responses\<close>

record index_view =
  iv_username :: string
  iv_csrf :: string
  iv_pg_tables :: "string list"
  iv_ch_tables :: "string list"
  iv_pg_commands :: "string list"
  iv_ch_commands :: "string list"
  iv_grants :: "public_grant list"
  iv_result :: "(public_grant \<times> string) option"
  iv_error :: "string option"
  iv_ttl_min :: int
  iv_ttl_max :: int

datatype body =
    Login_View "string option" string              \<comment> \<open>error, CSRF token\<close>
  | Index_View index_view
  | Settings_View string string "string option"    \<comment> \<open>user, CSRF token, message\<close>
  | Redirect string
  | Json_Health bool int
  | Json_Session string string
  | Json_Issued public_grant string
  | Json_Grant public_grant
  | Json_Grants "public_grant list"
  | Json_Tables "string list"
  | Json_Rotated db_type

record response =
  rs_status :: nat
  rs_body :: body
  rs_cookies :: "cookie list"

definition ok :: "body \<Rightarrow> response" where
  "ok b = \<lparr>rs_status = 200, rs_body = b, rs_cookies = []\<rparr>"

definition see_other :: "string \<Rightarrow> response" where
  "see_other url = \<lparr>rs_status = 303, rs_body = Redirect url, rs_cookies = []\<rparr>"

section \<open>The public pages\<close>

definition healthz :: "'w env \<Rightarrow> response" where
  "healthz E = ok (Json_Health (TEST_HOOKS (cfg E)) (SESSION_RECHECK_SECONDS (cfg E)))"

definition login_form :: "'w env \<Rightarrow> request \<Rightarrow> ('w sys, response) prog" where
  "login_form E r =
     bindM (draw_urlsafe E 32) (\<lambda>pre.
     ret \<lparr>rs_status = 200, rs_body = Login_View (r_query r ''error'') pre,
          rs_cookies = [set_cookie (cfg E) r PRE_COOKIE pre 1800]\<rparr>)"

text \<open>The responses \<open>_login_page\<close> and \<open>_do_login\<close> build from what they found.\<close>

fun login_response :: "config \<Rightarrow> request \<Rightarrow> login_answer \<Rightarrow> response" where
  "login_response c r (Login_Page status msg pre) =
     \<lparr>rs_status = status, rs_body = Login_View (Some msg) pre, rs_cookies = [set_cookie c r PRE_COOKIE pre 1800]\<rparr>"
| "login_response c r (Logged_In sid) =
     \<lparr>rs_status = 303, rs_body = Redirect ''/'',
      rs_cookies = [set_cookie c r COOKIE sid SESSION_ABSOLUTE_SECONDS, delete_cookie PRE_COOKIE]\<rparr>"

section \<open>The pages of an administrator\<close>

definition index_response ::
  "'w env \<Rightarrow> session \<Rightarrow> (public_grant \<times> string) option \<Rightarrow> string option \<Rightarrow> nat \<Rightarrow> ('w sys, response) prog" where
  "index_response E x result error status =
     bindM (index_page E error) (\<lambda>(pg, ch, gs, error').
     ret \<lparr>rs_status = status,
          rs_body = Index_View
            \<lparr>iv_username = s_username x, iv_csrf = s_csrf x, iv_pg_tables = pg, iv_ch_tables = ch,
             iv_pg_commands = ALLOWED_POSTGRES_COMMANDS, iv_ch_commands = ALLOWED_CLICKHOUSE_COMMANDS,
             iv_grants = gs, iv_result = result, iv_error = error',
             iv_ttl_min = TTL_MIN (cfg E), iv_ttl_max = TTL_MAX (cfg E)\<rparr>,
          rs_cookies = []\<rparr>)"

definition opt_json :: "string option \<Rightarrow> json" where
  "opt_json v = (case v of Some s \<Rightarrow> JStr s | None \<Rightarrow> JNull)"

text \<open>The request the form describes, or the \<open>ValueError\<close> or \<open>ValidationError\<close> of reading it.\<close>

definition form_request :: "request \<Rightarrow> exn + grant_request" where
  "form_request r =
     sbind (as_int (JStr (strip (form_field r ''ttl_seconds'')))) (\<lambda>ttl.
     validate_request (JObj
       [(''db_type'', opt_json (form_get r ''db_type'')),
        (''scope'', opt_json (form_get r ''scope'')),
        (''tables'', JArr (map JStr (form_list r ''tables''))),
        (''commands'', JArr (map JStr (form_list r ''commands''))),
        (''ttl_seconds'', JInt ttl),
        (''requested_for'', JStr (form_field r ''requested_for''))]))"

definition form_error :: "exn \<Rightarrow> string" where
  "form_error e = (if exc_class e = ValidationError then ''invalid form input'' else exc_msg e)"

fun http_status :: "exn_class \<Rightarrow> nat option" where
  "http_status (HTTPException n) = Some n"
| "http_status _ = None"

definition create_grant_form :: "'w env \<Rightarrow> request \<Rightarrow> session \<Rightarrow> ('w sys, response) prog" where
  "create_grant_form E r x =
     (case form_request r of
        Inl e \<Rightarrow> index_response E x None (Some (form_error e)) 400
      | Inr req \<Rightarrow>
          bindM (try_except (bindM (portal_issue E r x req) (\<lambda>res. ret (Inr res)))
                   (\<lambda>e. http_status (exc_class e) \<noteq> None) (\<lambda>e. ret (Inl e))) (\<lambda>out.
          case out of
            Inr res \<Rightarrow> index_response E x (Some res) None 200
          | Inl e \<Rightarrow> index_response E x None (Some (exc_msg e)) (the (http_status (exc_class e)))))"

definition logout_response :: response where
  "logout_response = (see_other ''/login'')\<lparr>rs_cookies := [delete_cookie COOKIE]\<rparr>"

definition revoke_response :: "request \<Rightarrow> public_grant \<Rightarrow> response" where
  "revoke_response r g =
     (if wants_json r \<or> prefix ''application/json'' (header r ''accept'') then ok (Json_Grant g) else see_other ''/'')"

definition rotate_response :: "request \<Rightarrow> db_type \<Rightarrow> response" where
  "rotate_response r db =
     (if wants_json r then ok (Json_Rotated db)
      else see_other (''/settings?message=Manager+credential+for+'' @ db_value db @ ''+rotated''))"

section \<open>Routes\<close>

datatype endpoint =
    Healthz | Login_Form | Login_Submit | Logout | Index | Create_Grant_Form
  | Revoke_Grant string | Api_Session | Api_Create_Grant | Api_List_Grants
  | Api_List_Tables string | Settings_Page | Rotate string

text \<open>The parts of the path after its first slash.\<close>

definition path_parts :: "request \<Rightarrow> string list" where
  "path_parts r = split_on CHR ''/'' (drop 1 (r_path r))"

definition get_route :: "string list \<Rightarrow> endpoint option" where
  "get_route ps =
     (if ps = [''''] then Some Index
      else if ps = [''healthz''] then Some Healthz
      else if ps = [''login''] then Some Login_Form
      else if ps = [''settings''] then Some Settings_Page
      else if ps = [''api'', ''session''] then Some Api_Session
      else if ps = [''api'', ''grants''] then Some Api_List_Grants
      else if length ps = 3 \<and> take 2 ps = [''api'', ''tables''] \<and> ps ! 2 \<noteq> [] then Some (Api_List_Tables (ps ! 2))
      else None)"

definition post_route :: "string list \<Rightarrow> endpoint option" where
  "post_route ps =
     (if ps = [''login''] then Some Login_Submit
      else if ps = [''logout''] then Some Logout
      else if ps = [''grants''] then Some Create_Grant_Form
      else if ps = [''api'', ''grants''] then Some Api_Create_Grant
      else if length ps = 3 \<and> ps ! 0 = ''grants'' \<and> ps ! 1 \<noteq> [] \<and> ps ! 2 = ''revoke'' then Some (Revoke_Grant (ps ! 1))
      else if length ps = 4 \<and> take 2 ps = [''api'', ''grants''] \<and> ps ! 2 \<noteq> [] \<and> ps ! 3 = ''revoke''
      then Some (Revoke_Grant (ps ! 2))
      else if length ps = 3 \<and> ps ! 0 = ''settings'' \<and> ps ! 1 \<noteq> [] \<and> ps ! 2 = ''rotate'' then Some (Rotate (ps ! 1))
      else None)"

definition route :: "request \<Rightarrow> endpoint option" where
  "route r =
     (if r_method r = ''GET'' then get_route (path_parts r)
      else if r_method r = ''POST'' then post_route (path_parts r)
      else None)"

text \<open>\<open>Path(pattern=r"^vdba_[0-9a-f]{10}$")\<close>, and the path parameter of type \<open>DbType\<close>.\<close>

definition grant_id_fullmatch :: "string \<Rightarrow> bool" where
  "grant_id_fullmatch s \<longleftrightarrow> length s = 15 \<and> take 5 s = ''vdba_'' \<and> list_all is_hex (drop 5 s)"

definition invalid_request :: exn where
  "invalid_request = http 400 ''invalid request''"

definition path_db :: "string \<Rightarrow> exn + db_type" where
  "path_db s = (case field_db_type (JStr s) of Inr db \<Rightarrow> Inr db | Inl _ \<Rightarrow> Inl invalid_request)"

definition path_grant_id :: "string \<Rightarrow> exn + string" where
  "path_grant_id s = (if grant_id_fullmatch s then Inr s else Inl invalid_request)"

definition body_request :: "json \<Rightarrow> exn + grant_request" where
  "body_request j = (case validate_request j of Inr req \<Rightarrow> Inr req | Inl _ \<Rightarrow> Inl invalid_request)"

section \<open>A whole request\<close>

text \<open>What a handler does once its administrator is known.\<close>

fun admin_page :: "'w env \<Rightarrow> request \<Rightarrow> session \<Rightarrow> endpoint \<Rightarrow> ('w sys, response) prog" where
  "admin_page E r x Logout = seqM (do_logout E r x) (ret logout_response)"
| "admin_page E r x Index = index_response E x None None 200"
| "admin_page E r x Create_Grant_Form = create_grant_form E r x"
| "admin_page E r x (Revoke_Grant gid) =
     bindM (lift (path_grant_id gid)) (\<lambda>i. bindM (portal_revoke E r x i) (\<lambda>g. ret (revoke_response r g)))"
| "admin_page E r x Api_Session = ret (ok (Json_Session (s_username x) (s_csrf x)))"
| "admin_page E r x Api_Create_Grant =
     (case r_json r of
        None \<Rightarrow> raise invalid_request
      | Some j \<Rightarrow>
          bindM (lift (body_request j)) (\<lambda>req.
          bindM (api_create_grant E r x req) (\<lambda>(g, pw). ret (ok (Json_Issued g pw)))))"
| "admin_page E r x Api_List_Grants = bindM api_list_grants (\<lambda>gs. ret (ok (Json_Grants gs)))"
| "admin_page E r x (Api_List_Tables db) =
     bindM (lift (path_db db)) (\<lambda>d. bindM (api_list_tables E d) (\<lambda>ts. ret (ok (Json_Tables ts))))"
| "admin_page E r x Settings_Page =
     ret (ok (Settings_View (s_username x) (s_csrf x) (r_query r ''message'')))"
| "admin_page E r x (Rotate db) =
     bindM (lift (path_db db)) (\<lambda>d. seqM (rotate_connection E r x d) (ret (rotate_response r d)))"
| "admin_page E r x _ = raise invalid_request"

text \<open>
  A JSON body that cannot be parsed is refused before the handler's dependencies run; every other
  fault of the parameters is found after them.
\<close>

fun serve :: "'w env \<Rightarrow> (string \<Rightarrow> exn option) \<Rightarrow> request \<Rightarrow> endpoint \<Rightarrow> ('w sys, response) prog" where
  "serve E ip_check r Healthz = ret (healthz E)"
| "serve E ip_check r Login_Form = login_form E r"
| "serve E ip_check r Login_Submit =
     bindM (login_submit E ip_check r) (\<lambda>a. ret (login_response (cfg E) r a))"
| "serve E ip_check r ep =
     (if ep = Api_Create_Grant \<and> r_json r = None then raise invalid_request
      else bindM (require_admin E ip_check r) (\<lambda>x. admin_page E r x ep))"

definition portal :: "'w env \<Rightarrow> (string \<Rightarrow> exn option) \<Rightarrow> request \<Rightarrow> ('w sys, response) prog" where
  "portal E ip_check r =
     (case route r of
        None \<Rightarrow> raise (if get_route (path_parts r) \<noteq> None \<or> post_route (path_parts r) \<noteq> None
                       then http 405 ''Method Not Allowed'' else http 404 ''Not Found'')
      | Some ep \<Rightarrow> serve E ip_check r ep)"

section \<open>Lemmas\<close>

text \<open>The session of a request that may do what \<open>require_admin\<close> guards.\<close>

definition authorised :: "'w env \<Rightarrow> (string \<Rightarrow> exn option) \<Rightarrow> request \<Rightarrow> 'w sys \<Rightarrow> session \<Rightarrow> bool" where
  "authorised E ip_check r s x \<longleftrightarrow>
     (\<exists>sid. r_sid r = Some sid \<and> sid \<noteq> [] \<and> tab_get s_sid (sha256_hex E sid) (sessions_tab (disk s)) = Some x)
     \<and> (\<exists>t. read_clock E t \<and> \<not> session_expired t x
          \<and> (t - s_last_check x \<le> real_of_int (SESSION_RECHECK_SECONDS (cfg E))
             \<or> (\<exists>s1 s2. recheck E x s1 = (Ret True, s2))))
     \<and> (if r_method r \<in> SAFE then True
        else check_origin ip_check (cfg E) r = Inr () \<and> submitted_token r = s_csrf x)"

lemma require_admin_authorised:
  assumes "require_admin E ip_check r s = (Ret x, s')"
  shows "authorised E ip_check r s x"
proof -
  obtain s1 where c: "current_session E (r_sid r) s = (Ret (Some x), s1)"
    and k: "if r_method r \<in> SAFE then True
       else check_origin ip_check (cfg E) r = Inr () \<and> check_csrf (submitted_token r) (s_csrf x) = Inr ()"
    using assms by (auto simp: require_admin_def returned split: option.splits if_splits)
  show ?thesis
    unfolding authorised_def
    using current_session_Ret [OF c] k by (auto dest: use_session_Ret check_csrf_Inr split: if_splits)
qed

definition public_endpoints :: "endpoint set" where
  "public_endpoints = {Healthz, Login_Form, Login_Submit}"

lemma serve_protected:
  "ep \<notin> public_endpoints \<Longrightarrow> serve E ip_check r ep =
     (if ep = Api_Create_Grant \<and> r_json r = None then raise invalid_request
      else bindM (require_admin E ip_check r) (\<lambda>x. admin_page E r x ep))"
  by (cases ep) (simp_all add: public_endpoints_def)

lemma serve_public:
  "serve E ip_check r Healthz = ret (healthz E)" "serve E ip_check r Login_Form = login_form E r"
  "serve E ip_check r Login_Submit = bindM (login_submit E ip_check r) (\<lambda>a. ret (login_response (cfg E) r a))"
  by simp_all

text \<open>A frame that the handlers keep is kept by every page, and by every request.\<close>

locale page_frame = frame R for R :: "'w sys \<Rightarrow> 'w sys \<Rightarrow> bool" +
  fixes E :: "'w env"
  assumes slots: "R s (s\<lparr>slots := f\<rparr>)"
    and issue: "keeps R (issue E req actor rid)"
    and revoke: "keeps R (revoke E gid actor rid)"
    and admin: "keeps R (require_admin E ip_check r)"
    and login: "keeps R (login_submit E ip_check r)"
    and form: "keeps R (login_form E r)"
    and logout: "keeps R (do_logout E r x)"
    and rotate: "keeps R (rotate_connection E r x db)"
    and index: "keeps R (index_page E err)"
    and tables: "keeps R (api_list_tables E db)"
    and grants: "keeps R api_list_grants"
begin

lemma admit: "keeps R m \<Longrightarrow> keeps R (admit k m)"
  unfolding admit_def by (intro rules keeps_modify slots)

lemma portal_issue: "keeps R (portal_issue E r x req)"
  unfolding portal_issue_def by (intro rules admit issue)

lemma portal_revoke: "keeps R (portal_revoke E r x gid)"
  unfolding portal_revoke_def by (intro rules admit revoke)

lemma index_response: "keeps R (index_response E x res err st)"
  unfolding index_response_def by (intro rules index)

lemma form_page: "keeps R (create_grant_form E r x)"
  unfolding create_grant_form_def
  by (auto intro!: index_response bind rules portal_issue split: sum.split)

lemma api_create: "keeps R (api_create_grant E r x req)"
  unfolding api_create_grant_def by (intro rules portal_issue)

lemma admin_page: "keeps R (admin_page E r x ep)"
  by (cases ep)
     (auto intro!: rules form_page index_response api_create portal_revoke logout rotate tables grants
        split: option.split)

lemma request: "keeps R (portal E ip_check r)"
proof (cases "route r")
  case None
  then show ?thesis by (simp add: portal_def raise)
next
  case (Some ep)
  then show ?thesis
    using serve_protected [of ep E ip_check r]
    by (cases "ep \<in> public_endpoints")
       (auto simp: portal_def public_endpoints_def intro!: ret raise bind admin admin_page login form)
qed

end

end
