(* ===== verification/Lifecycle.thy ===== *)
theory Lifecycle
  imports Grants
begin

text \<open>
  What issue, revoke and reconcile do to the grant table, seen as a map from grant ids to rows: the
  outcome of each call and the rows it leaves, on every branch (success, each exception, a crash at
  any clock reading). The calls to Vault and the databases are arbitrary here.
\<close>

section \<open>The grant table as a map\<close>

definition rows :: "'w sys \<Rightarrow> string \<rightharpoonup> grant" where
  "rows s = (\<lambda>i. row i s)"

lemma rows_apply: "rows s i = row i s"
  by (simp add: rows_def)

text \<open>The store, the map of rows and the control state are as before; the rest may differ.\<close>

definition alike :: "'w sys \<Rightarrow> 'w sys \<Rightarrow> bool" where
  "alike s s' \<longleftrightarrow> opened s' = opened s \<and> rows s' = rows s \<and> same_control s s'"

interpretation alike: frame alike
  by unfold_locales (auto simp: alike_def same_control_def)

lemma alike_opened: "alike s s' \<Longrightarrow> opened s' = opened s"
  by (simp add: alike_def)

lemma alike_rows: "alike s s' \<Longrightarrow> rows s' = rows s"
  by (simp add: alike_def)

lemma outside_alike: "keeps outside_only m \<Longrightarrow> keeps alike m"
  by (erule keeps_mono) (auto simp: frame_defs alike_def rows_def row_def)

lemma wp_outside:
  assumes "keeps outside_only m" and "\<And>r s'. alike s s' \<Longrightarrow> Q r s'"
  shows "wp m Q s"
  using outside_alike [OF assms(1)] assms(2) by (rule wp_keeps)

text \<open>A row update on the map.\<close>

definition put :: "string \<Rightarrow> grant_field list \<Rightarrow> 'w sys \<Rightarrow> 'w sys \<Rightarrow> bool" where
  "put gid fs s s' \<longleftrightarrow> opened s' = opened s \<and> same_control s s'
     \<and> (\<exists>t. rows s' = (rows s)(gid := map_option (set_fields fs t) (rows s gid)))"

lemma wp_update:
  assumes "opened s" and "\<And>s'. put gid fs s s' \<Longrightarrow> Q (Ret ()) s'" and "\<And>s'. alike s s' \<Longrightarrow> Q Halt s'"
  shows "wp (update_grant E gid fs) Q s"
proof (rule wp_update_grant [OF assms(1)])
  fix w t
  show "Q (Ret ()) (s\<lparr>world := w, disk := (disk s)\<lparr>grants_tab :=
          tab_update g_id gid (set_fields fs t) (grants_tab (disk s))\<rparr>\<rparr>)"
    by (rule assms(2))
      (auto simp: put_def same_control_def rows_def row_def db_get_update fun_eq_iff intro!: exI [of _ t])
next
  fix w
  show "Q Halt (s\<lparr>world := w\<rparr>)"
    by (rule assms(3)) (simp add: alike_def same_control_def rows_def)
qed

lemma wp_audit_alike:
  assumes "opened s" and "\<And>s'. alike s s' \<Longrightarrow> Q (Ret ()) s'" and "\<And>s'. alike s s' \<Longrightarrow> Q Halt s'"
  shows "wp (audit E rid gid actor action result detail) Q s"
proof (rule wp_audit [OF assms(1)])
  fix w t a
  show "Q (Ret ()) (s\<lparr>world := w, disk := (disk s)\<lparr>audit_tab := audit_tab (disk s) @ [a],
          audit_seq := Suc (audit_seq (disk s))\<rparr>\<rparr>)"
    by (rule assms(2)) (simp add: alike_def same_control_def rows_def row_def)
next
  fix w
  show "Q Halt (s\<lparr>world := w\<rparr>)"
    by (rule assms(3)) (simp add: alike_def same_control_def rows_def)
qed

lemma put_Some:
  "put gid fs s s' \<Longrightarrow> rows s gid = Some g \<Longrightarrow> \<exists>t. rows s' = (rows s)(gid \<mapsto> set_fields fs t g)"
  by (auto simp: put_def)

lemma put_opened: "put gid fs s s' \<Longrightarrow> opened s' = opened s"
  by (simp add: put_def)

lemmas alike_facts = alike_opened alike_rows put_opened

section \<open>Teardown\<close>

lemma run_statements_outside [outside_keeps]: "keeps outside_only (run_statements E db gid sts)"
  unfolding run_statements_def by (intro outside_intros outside_keeps)

lemma terminate_loop_outside [outside_keeps]: "keeps outside_only (terminate_loop n E db a gid dl)"
  by (induction n) (simp_all, (intro outside_intros outside_keeps)+)

lemma teardown_steps_outside [outside_keeps]: "keeps outside_only (teardown_steps E gid g)"
  unfolding teardown_steps_def grant_accessors_def lock_out_and_terminate_def drop_account_def confirm_gone_def
  by (intro outside_intros outside_keeps)

text \<open>The row a finished teardown leaves, and the one a failed teardown leaves.\<close>

definition finished :: "status \<Rightarrow> real \<Rightarrow> grant \<Rightarrow> grant" where
  "finished final t = set_fields [Status final, Last_error None] t"

definition stuck :: "exn \<Rightarrow> real \<Rightarrow> grant \<Rightarrow> grant" where
  "stuck e t = set_fields [Status Revoking, Last_error (Some (type_name e))] t"

fun teardown_post ::
  "string \<Rightarrow> status \<Rightarrow> bool \<Rightarrow> grant \<Rightarrow> 'w sys \<Rightarrow> unit outcome \<Rightarrow> 'w sys \<Rightarrow> bool" where
  "teardown_post gid final re g s (Ret _) s' \<longleftrightarrow>
     (\<exists>t. rows s' = (rows s)(gid \<mapsto> finished final t g))
     \<or> (\<not> re \<and> (\<exists>e t. is_exception e \<and> rows s' = (rows s)(gid \<mapsto> stuck e t g)))"
| "teardown_post gid final re g s (Raise e) s' \<longleftrightarrow>
     (if is_exception e then re \<and> (\<exists>t. rows s' = (rows s)(gid \<mapsto> stuck e t g)) else rows s' = rows s)"
| "teardown_post gid final re g s Halt s' \<longleftrightarrow>
     rows s' = rows s \<or> (\<exists>t. rows s' = (rows s)(gid \<mapsto> finished final t g))
     \<or> (\<exists>e t. is_exception e \<and> rows s' = (rows s)(gid \<mapsto> stuck e t g))"
| "teardown_post gid final re g s Diverge s' \<longleftrightarrow> rows s' = rows s"

lemma teardown_finish:
  assumes "opened s" "rows s gid = Some g" and "rows s = R"
    and "\<And>s' t. opened s' \<Longrightarrow> same_control s s' \<Longrightarrow> rows s' = R(gid \<mapsto> set_fields fs t g) \<Longrightarrow> Q (Ret ()) s'"
    and "\<And>s' t. opened s' \<Longrightarrow> same_control s s' \<Longrightarrow> rows s' = R(gid \<mapsto> set_fields fs t g) \<Longrightarrow> Q Halt s'"
    and "\<And>s'. opened s' \<Longrightarrow> same_control s s' \<Longrightarrow> rows s' = R \<Longrightarrow> Q Halt s'"
  shows "wp (seqM (update_grant E gid fs) (audit E rid gid' actor action result detail)) Q s"
  unfolding wp_seqM
proof (rule wp_update [OF assms(1)])
  fix s1 assume p: "put gid fs s s1"
  then obtain t where t: "rows s1 = R(gid \<mapsto> set_fields fs t g)"
    using put_Some [OF p assms(2)] assms(3) by auto
  have o: "opened s1" "same_control s s1" using p assms(1) by (simp_all add: put_def)
  have "wp (audit E rid gid' actor action result detail) Q s1"
  proof (rule wp_audit_alike [OF o(1)])
    fix s2 assume a: "alike s1 s2"
    then have 2: "opened s2" "same_control s s2" "rows s2 = R(gid \<mapsto> set_fields fs t g)"
      using o t by (simp_all add: alike_def same_control_def)
    show "Q (Ret ()) s2" by (rule assms(4) [OF 2])
    show "Q Halt s2" by (rule assms(5) [OF 2])
  qed
  then show "on_ret (\<lambda>_. wp (audit E rid gid' actor action result detail) Q) Q (Ret ()) s1" by simp
next
  fix s' assume "alike s s'"
  then show "on_ret (\<lambda>_. wp (audit E rid gid' actor action result detail) Q) Q Halt s'"
    using assms(1,3) assms(6) [of s'] by (simp add: alike_def)
qed

lemma teardown_failed_spec:
  assumes "opened s" "rows s gid = Some g" "is_exception e"
  shows "wp (teardown_failed E gid rid actor re e)
     (\<lambda>r s'. opened s' \<and> same_control s s' \<and>
        (case r of
           Ret c \<Rightarrow> \<not> c \<and> \<not> re \<and> (\<exists>t. rows s' = (rows s)(gid \<mapsto> stuck e t g))
         | Raise e' \<Rightarrow> e' = e \<and> re \<and> (\<exists>t. rows s' = (rows s)(gid \<mapsto> stuck e t g))
         | Halt \<Rightarrow> rows s' = rows s \<or> (\<exists>t. rows s' = (rows s)(gid \<mapsto> stuck e t g))
         | Diverge \<Rightarrow> False)) s"
  unfolding teardown_failed_def seqM_assoc [symmetric]
  by (subst wp_seqM, rule teardown_finish [OF assms(1,2) HOL.refl])
     (auto simp: wp_simps stuck_def)

lemma teardown_finished_spec:
  assumes "opened s" "rows s gid = Some g"
  shows "wp (teardown_finished E gid final rid actor)
     (\<lambda>r s'. opened s' \<and> same_control s s' \<and>
        (case r of
           Ret _ \<Rightarrow> \<exists>t. rows s' = (rows s)(gid \<mapsto> finished final t g)
         | Halt \<Rightarrow> rows s' = rows s \<or> (\<exists>t. rows s' = (rows s)(gid \<mapsto> finished final t g))
         | _ \<Rightarrow> False)) s"
  unfolding teardown_finished_def
  by (rule teardown_finish [OF assms HOL.refl]) (auto simp: finished_def)

lemma same_control_after: "alike s t \<Longrightarrow> same_control t u \<Longrightarrow> same_control s u"
  by (simp add: alike_def same_control_def)

lemma teardown_spec:
  assumes o: "opened s" and g: "rows s gid = Some g"
  shows "wp (teardown E gid final rid actor re)
           (\<lambda>r s'. opened s' \<and> same_control s s' \<and> teardown_post gid final re g s r s') s"
    (is "wp _ ?Q s")
proof -
  let ?k = "\<lambda>clean. if clean then teardown_finished E gid final rid actor else skip"
  let ?K = "on_ret (\<lambda>c. wp (?k c) ?Q) ?Q"
  have "wp (try_except (seqM (teardown_steps E gid g) (ret True)) is_exception
              (teardown_failed E gid rid actor re)) ?K s"
    unfolding wp_try_except wp_seqM
  proof (rule wp_outside)
    fix r and s1 assume a: "alike s s1"
    then have 1: "opened s1" "rows s1 gid = Some g" and R: "rows s1 = rows s"
      using o g by (simp_all add: alike_def)
    have done_: "wp (teardown_finished E gid final rid actor) ?Q s1"
      using teardown_finished_spec [OF 1]
      by (rule wp_mono) (auto simp: R dest: same_control_after [OF a] split: outcome.splits)
    have fail: "wp (teardown_failed E gid rid actor re e) ?K s1" if "is_exception e" for e
      using teardown_failed_spec [OF 1 that]
      by (rule wp_mono)
        (auto simp: R wp_simps dest: same_control_after [OF a] split: outcome.splits; use that in blast)
    have "same_control s s1" using a by (simp add: alike_def)
    then show "on_ret (\<lambda>_. wp (ret True) (on_raise
         (\<lambda>e s1. if is_exception e then wp (teardown_failed E gid rid actor re e) ?K s1
            else ?K (Raise e) s1) ?K))
       (on_raise (\<lambda>e s1. if is_exception e then wp (teardown_failed E gid rid actor re e) ?K s1
            else ?K (Raise e) s1) ?K) r s1"
      using 1 R done_ fail by (cases r) (auto simp: wp_ret)
  qed (rule outside_keeps)
  moreover have "row gid s = Some g" using g by (simp add: rows_apply)
  ultimately show ?thesis
    using o by (simp add: teardown_def wp_bindM [of "get_grant gid"] wp_get_grant)
      (simp add: wp_bindM)
qed

section \<open>Stepping through a program\<close>

text \<open>
  \<open>here s0 R s\<close>: on the way from \<open>s0\<close>, in a state \<open>s\<close> whose grant rows are \<open>R\<close>. The rules step over one
  statement of a program.
\<close>

definition here :: "'w sys \<Rightarrow> (string \<rightharpoonup> grant) \<Rightarrow> 'w sys \<Rightarrow> bool" where
  "here s0 R s \<longleftrightarrow> opened s \<and> rows s = R \<and> same_control s0 s"

lemma here_start: "opened s \<Longrightarrow> here s (rows s) s"
  by (simp add: here_def same_control_def)

lemma here_alike: "here s0 R s \<Longrightarrow> alike s s' \<Longrightarrow> here s0 R s'"
  by (simp add: here_def alike_def same_control_def)

text \<open>An outcome that is not a return, and the same one at the type of the caller.\<close>

fun passes :: "('b outcome \<Rightarrow> bool) \<Rightarrow> bool" where
  "passes P \<longleftrightarrow> (\<forall>e. P (Raise e)) \<and> P Halt \<and> P Diverge"

lemma step_outside:
  assumes "here s0 R s" "keeps outside_only m"
    and "\<And>x s1. here s0 R s1 \<Longrightarrow> wp (k x) Q s1"
    and "\<And>s1. here s0 R s1 \<Longrightarrow> passes (\<lambda>r. Q r s1)"
  shows "wp (bindM m k) Q s"
  unfolding wp_bindM
proof (rule wp_outside [OF assms(2)])
  fix r s1 assume "alike s s1"
  then have "here s0 R s1" by (rule here_alike [OF assms(1)])
  then show "on_ret (\<lambda>x. wp (k x) Q) Q r s1" using assms(3,4) by (cases r) auto
qed

lemma step_outside_seq:
  assumes "here s0 R s" "keeps outside_only m"
    and "\<And>s1. here s0 R s1 \<Longrightarrow> wp k Q s1"
    and "\<And>s1. here s0 R s1 \<Longrightarrow> passes (\<lambda>r. Q r s1)"
  shows "wp (seqM m k) Q s"
  unfolding seqM_def using assms by (rule step_outside)

lemma step_update:
  assumes "here s0 R s" "R gid = Some g"
    and "\<And>t s1. here s0 (R(gid \<mapsto> set_fields fs t g)) s1 \<Longrightarrow> wp k Q s1"
    and "\<And>s1. here s0 R s1 \<Longrightarrow> Q Halt s1"
  shows "wp (seqM (update_grant E gid fs) k) Q s"
  unfolding wp_seqM
proof (rule wp_update)
  show "opened s" using assms(1) by (simp add: here_def)
  fix s1
  show "put gid fs s s1 \<Longrightarrow> on_ret (\<lambda>_. wp k Q) Q (Ret ()) s1"
    using assms(1,2) put_Some [of gid fs s s1 g] assms(3) [of _ s1]
    by (auto simp: here_def put_def same_control_def)
  show "alike s s1 \<Longrightarrow> on_ret (\<lambda>_. wp k Q) Q Halt s1"
    using assms(4) here_alike [OF assms(1)] by simp
qed

lemma step_audit:
  assumes "here s0 R s" and "\<And>s1. here s0 R s1 \<Longrightarrow> wp k Q s1" and "\<And>s1. here s0 R s1 \<Longrightarrow> Q Halt s1"
  shows "wp (seqM (audit E rid gid actor action result detail) k) Q s"
  unfolding wp_seqM
proof (rule wp_audit_alike)
  show "opened s" using assms(1) by (simp add: here_def)
qed (use assms(2,3) here_alike [OF assms(1)] in auto)

lemma step_get:
  "here s0 R s \<Longrightarrow> wp (k (R gid)) Q s \<Longrightarrow> wp (bindM (get_grant gid) k) Q s"
  by (simp add: wp_bindM wp_get_grant here_def rows_def fun_eq_iff)

lemma step_now:
  assumes "here s0 R s" and "\<And>t s1 w. here s0 R s1 \<Longrightarrow> fst (clock E w) = Some t \<Longrightarrow> wp (k t) Q s1"
    and "\<And>s1. here s0 R s1 \<Longrightarrow> Q Halt s1"
  shows "wp (bindM (now E) k) Q s"
proof -
  have "here s0 R (s\<lparr>world := w\<rparr>)" for w
    using assms(1) by (simp add: here_def rows_def same_control_def)
  then show ?thesis
    using assms(2) [of _ "world s"] assms(3)
    by (cases "clock E (world s)"; cases "fst (clock E (world s))") (auto simp: wp_bindM wp_now)
qed

section \<open>Issue\<close>

text \<open>The columns that are fixed when a row is inserted.\<close>

definition same_terms :: "grant \<Rightarrow> grant \<Rightarrow> bool" where
  "same_terms g g' \<longleftrightarrow>
     g_id g' = g_id g \<and> g_db_type g' = g_db_type g \<and> g_scope g' = g_scope g \<and> g_tables g' = g_tables g
     \<and> g_commands g' = g_commands g \<and> g_requested_for g' = g_requested_for g
     \<and> g_issued_by g' = g_issued_by g \<and> g_ttl_seconds g' = g_ttl_seconds g
     \<and> g_created_at g' = g_created_at g"

lemma same_terms_refl [simp]: "same_terms g g"
  by (simp add: same_terms_def)

lemma same_terms_trans: "same_terms f g \<Longrightarrow> same_terms g h \<Longrightarrow> same_terms f h"
  by (simp add: same_terms_def)

lemma same_terms_set_fields [simp]: "same_terms g (set_fields fs t h) \<longleftrightarrow> same_terms g h"
proof -
  have "same_terms g (fold set_field fs h) \<longleftrightarrow> same_terms g h"
    by (induction fs arbitrary: h) (simp_all add: same_terms_def key_set_field fixed_set_field)
  then show ?thesis by (simp add: set_fields_def same_terms_def)
qed

text \<open>The row of a grant that has been issued with these credentials.\<close>

definition active_with :: "creds \<Rightarrow> grant \<Rightarrow> bool" where
  "active_with c g \<longleftrightarrow>
     g_status g = Active \<and> g_username g = Some (c_username c) \<and> g_lease_id g = Some (c_lease_id c)
     \<and> g_token_accessor g \<noteq> None \<and> g_expires_at g \<noteq> None"

fun issue_steps_post ::
  "string \<Rightarrow> grant \<Rightarrow> 'w sys \<Rightarrow> (string \<rightharpoonup> grant) \<Rightarrow> creds outcome \<Rightarrow> 'w sys \<Rightarrow> bool" where
  "issue_steps_post gid g s0 R (Ret c) s' \<longleftrightarrow>
     (\<exists>g'. here s0 (R(gid \<mapsto> g')) s' \<and> same_terms g g' \<and> active_with c g')"
| "issue_steps_post gid g s0 R (Raise e) s' \<longleftrightarrow>
     (\<exists>g'. here s0 (R(gid \<mapsto> g')) s' \<and> same_terms g g' \<and> g_status g' = g_status g)"
| "issue_steps_post gid g s0 R Halt s' \<longleftrightarrow>
     (\<exists>g'. here s0 (R(gid \<mapsto> g')) s' \<and> same_terms g g' \<and> g_status g' = g_status g)"
| "issue_steps_post gid g s0 R Diverge s' \<longleftrightarrow>
     (\<exists>g'. here s0 (R(gid \<mapsto> g')) s' \<and> same_terms g g' \<and> g_status g' = g_status g)"

lemma issue_steps_passes:
  "here s0 (R(gid \<mapsto> g')) s \<Longrightarrow> same_terms g g' \<Longrightarrow> g_status g' = g_status g
     \<Longrightarrow> passes (\<lambda>r. issue_steps_post gid g s0 R r s)"
  by auto

lemma issue_steps_spec:
  assumes "here s0 (R(gid \<mapsto> g)) s"
  shows "wp (issue_steps E req gid creation revocation) (issue_steps_post gid g s0 R) s"
  using assms unfolding issue_steps_def
  apply -
  apply (erule step_outside_seq [OF _ vault_client_outside(1)])
   apply (erule step_outside_seq [OF _ faults_outside(2)])
    apply (erule step_outside [OF _ vault_client_outside(3)], clarify)
     apply (erule step_outside_seq [OF _ faults_outside(2)])
      apply (erule step_update [where gid = gid], simp)
       apply (simp only: fun_upd_upd)
       apply (erule step_outside [OF _ vault_client_outside(5)])
        apply (erule step_outside_seq [OF _ faults_outside(2)])
         apply (erule step_now)
          apply (erule step_update [where gid = gid], simp)
           apply (simp only: fun_upd_upd wp_ret)
           apply (auto simp: active_with_def set_fields_def same_terms_def)[1]
          apply (auto intro!: issue_steps_passes)
  done

lemma step_insert:
  assumes "here s0 R s"
    and "\<And>t s1. R (n_id n) = None \<Longrightarrow> here s0 (R(n_id n \<mapsto> grant_row n t)) s1 \<Longrightarrow> wp k Q s1"
    and "\<And>e s1. exc_class e = IntegrityError \<Longrightarrow> R (n_id n) \<noteq> None \<Longrightarrow> here s0 R s1 \<Longrightarrow> Q (Raise e) s1"
    and "\<And>s1. here s0 R s1 \<Longrightarrow> Q Halt s1"
  shows "wp (seqM (insert_grant E n) k) Q s"
proof -
  have key: "g_id (grant_row n t) = n_id n" for t by (simp add: grant_row_def)
  have world: "here s0 R (s\<lparr>world := w\<rparr>)" for w
    using assms(1) by (simp add: here_def rows_def same_control_def)
  have o: "opened s" and R: "R (n_id n) = tab_get g_id (n_id n) (grants_tab (disk s))"
    using assms(1) by (auto simp: here_def rows_def row_def db_get_grant_def)
  have new: "R (n_id n) = None \<and> here s0 (R(n_id n \<mapsto> grant_row n t))
      (s\<lparr>world := w, disk := (disk s)\<lparr>grants_tab := tab\<rparr>\<rparr>)"
    if "tab_insert g_id (grant_row n t) (grants_tab (disk s)) = Some tab" for t w tab
  proof
    show "R (n_id n) = None" using that gt.ins_dup key R by (metis option.distinct(1))
    have "rows (s\<lparr>world := w, disk := (disk s)\<lparr>grants_tab := tab\<rparr>\<rparr>) = (rows s)(n_id n \<mapsto> grant_row n t)"
      using gt.get_ins [OF that] by (auto simp: rows_def row_def db_get_grant_def key fun_eq_iff)
    then show "here s0 (R(n_id n \<mapsto> grant_row n t))
      (s\<lparr>world := w, disk := (disk s)\<lparr>grants_tab := tab\<rparr>\<rparr>)"
      using assms(1) by (simp add: here_def same_control_def)
  qed
  have dup: "R (n_id n) \<noteq> None" if "tab_insert g_id (grant_row n t) (grants_tab (disk s)) = None" for t
    using that gt.ins_new [of "grant_row n t" "grants_tab (disk s)"] by (auto simp: key R)
  have ok: "wp k Q (s\<lparr>world := w, disk := (disk s)\<lparr>grants_tab := tab\<rparr>\<rparr>)"
    if "tab_insert g_id (grant_row n t) (grants_tab (disk s)) = Some tab" for t w tab
    using new [OF that] by (blast intro: assms(2))
  have no: "Q (Raise (Exn IntegrityError m)) (s\<lparr>world := w\<rparr>)"
    if "tab_insert g_id (grant_row n t) (grants_tab (disk s)) = None" for t w m
    using dup [OF that] world by (intro assms(3)) auto
  show ?thesis
    unfolding wp_seqM insert_grant_def wp_bindM wp_now
    using o ok no assms(4) world
    by (auto simp: wp_tx db_insert_grant_def split: prod.split option.split)
qed

lemma step_teardown:
  assumes h: "here s0 (R(gid \<mapsto> g)) s"
    and "\<And>s1 t. here s0 (R(gid \<mapsto> finished final t g)) s1 \<Longrightarrow> wp k Q s1 \<and> Q Halt s1"
    and "\<And>s1 e t. is_exception e \<Longrightarrow> here s0 (R(gid \<mapsto> stuck e t g)) s1 \<Longrightarrow>
           (if re then Q (Raise e) s1 else wp k Q s1) \<and> Q Halt s1"
    and "\<And>s1. here s0 (R(gid \<mapsto> g)) s1 \<Longrightarrow> (\<forall>e. \<not> is_exception e \<longrightarrow> Q (Raise e) s1) \<and> Q Halt s1 \<and> Q Diverge s1"
  shows "wp (seqM (teardown E gid final rid actor re) k) Q s"
proof -
  have o: "opened s" "rows s gid = Some g" and R: "rows s = R(gid \<mapsto> g)" and c: "same_control s0 s"
    using h by (simp_all add: here_def)
  have "wp (teardown E gid final rid actor re) (on_ret (\<lambda>_. wp k Q) Q) s"
    using teardown_spec [OF o]
  proof (rule wp_mono)
    fix r s1 assume p: "opened s1 \<and> same_control s s1 \<and> teardown_post gid final re g s r s1"
    then have here: "here s0 (rows s1) s1" using c by (simp add: here_def same_control_def)
    show "on_ret (\<lambda>_. wp k Q) Q r s1"
      using p here R assms(2) [of _ s1] assms(3) [of _ _ s1] assms(4) [of s1]
      by (cases r) (auto split: if_splits)
  qed
  then show ?thesis by (simp only: wp_seqM)
qed

text \<open>The states a row can be left in by a call that raised: cleaned up, or waiting for a retry.\<close>

definition closed :: "grant \<Rightarrow> bool" where
  "closed g \<longleftrightarrow> g_status g = Failed \<and> g_last_error g = None
              \<or> g_status g = Revoking \<and> g_last_error g \<noteq> None"

lemma finished_facts [simp]:
  "g_status (finished final t g) = final" "g_last_error (finished final t g) = None"
  "same_terms g' (finished final t g) \<longleftrightarrow> same_terms g' g"
  by (simp_all add: finished_def) (simp add: set_fields_def)

lemma stuck_facts [simp]:
  "g_status (stuck e t g) = Revoking" "g_last_error (stuck e t g) = Some (type_name e)"
  "same_terms g' (stuck e t g) \<longleftrightarrow> same_terms g' g"
  by (simp_all add: stuck_def) (simp add: set_fields_def)

definition requested :: "grant_request \<Rightarrow> string \<Rightarrow> string \<Rightarrow> grant \<Rightarrow> bool" where
  "requested req actor gid g \<longleftrightarrow> (\<exists>t. same_terms (grant_row (new_row req actor gid) t) g)"

lemma requested_same_terms: "requested req actor gid g \<Longrightarrow> same_terms g g' \<Longrightarrow> requested req actor gid g'"
  by (auto simp: requested_def intro: same_terms_trans)

text \<open>How the part of \<open>issue\<close> under the lock ends, for a fresh grant id.\<close>

fun issue_post ::
  "grant_request \<Rightarrow> string \<Rightarrow> string \<Rightarrow> 'w sys \<Rightarrow> (string \<rightharpoonup> grant) \<Rightarrow> creds outcome \<Rightarrow> 'w sys \<Rightarrow> bool" where
  "issue_post req actor gid s0 R (Ret c) s' \<longleftrightarrow>
     (\<exists>g. R gid = None \<and> requested req actor gid g \<and> active_with c g \<and> here s0 (R(gid \<mapsto> g)) s')"
| "issue_post req actor gid s0 R (Raise e) s' \<longleftrightarrow>
     here s0 R s' \<and> R gid \<noteq> None
     \<or> (\<exists>g. R gid = None \<and> requested req actor gid g \<and> (is_exception e \<longrightarrow> closed g) \<and> here s0 (R(gid \<mapsto> g)) s')"
| "issue_post req actor gid s0 R Halt s' \<longleftrightarrow>
     here s0 R s' \<or> (\<exists>g. R gid = None \<and> requested req actor gid g \<and> here s0 (R(gid \<mapsto> g)) s')"
| "issue_post req actor gid s0 R Diverge s' \<longleftrightarrow>
     (\<exists>g. R gid = None \<and> requested req actor gid g \<and> here s0 (R(gid \<mapsto> g)) s')"

lemma issue_failed_spec:
  assumes "here s0 (R(gid \<mapsto> g)) s" "R gid = None" "requested req actor gid g"
  shows "wp (issue_failed E gid a rid e) (\<lambda>r s'. (\<forall>c. r \<noteq> Ret c) \<and> issue_post req actor gid s0 R r s') s"
    (is "wp _ ?P s")
  unfolding issue_failed_def
  using assms(1)
proof (rule step_audit)
  fix s1 assume h: "here s0 (R(gid \<mapsto> g)) s1"
  show "?P Halt s1" using h assms by auto
  show "wp (seqM (teardown E gid Failed (Some rid) ''system'' False) (raise e)) (?P) s1"
    using h
  proof (rule step_teardown)
    fix s2 t assume "here s0 (R(gid \<mapsto> finished Failed t g)) s2"
    then show "wp (raise e) (?P) s2 \<and> ?P Halt s2"
      using assms(2,3)
      by (auto simp: wp_simps closed_def intro!: exI [of _ "finished Failed t g"] requested_same_terms [OF assms(3)])
  next
    fix s2 e' t assume "here s0 (R(gid \<mapsto> stuck e' t g)) s2"
    then show "(if False then ?P (Raise e') s2
        else wp (raise e) (?P) s2) \<and> ?P Halt s2"
      using assms(2,3)
      by (auto simp: wp_simps closed_def intro!: exI [of _ "stuck e' t g"] requested_same_terms [OF assms(3)])
  next
    fix s2 assume "here s0 (R(gid \<mapsto> g)) s2"
    then show "(\<forall>e. \<not> is_exception e \<longrightarrow> ?P (Raise e) s2)
        \<and> ?P Halt s2 \<and> ?P Diverge s2"
      using assms(2,3) by auto
  qed
qed

lemma issue_locked_spec:
  assumes "here s0 R s"
  shows "wp (issue_locked E req actor rid gid creation revocation) (issue_post req actor gid s0 R) s"
  unfolding issue_locked_def
  using assms
proof (rule step_insert)
  have id: "n_id (new_row req actor gid) = gid" by (simp add: new_row_def)
  let ?rest = "bindM (catchM (issue_steps E req gid creation revocation) (issue_failed E gid actor rid)) (\<lambda>creds.
     seqM (audit E (Some rid) (Some gid) actor ''issue'' ''ok''
             (db_value (rq_db_type req) @ '' '' @ scope_value (rq_scope req)))
     (ret creds))"
  show "here s0 R s1 \<Longrightarrow> issue_post req actor gid s0 R Halt s1" for s1 by simp
  show "R (n_id (new_row req actor gid)) \<noteq> None \<Longrightarrow> here s0 R s1 \<Longrightarrow> issue_post req actor gid s0 R (Raise e) s1"
    for e s1 by (simp add: id)
  fix t s1
  let ?g = "grant_row (new_row req actor gid) t"
  assume n: "R (n_id (new_row req actor gid)) = None"
    and h: "here s0 (R(n_id (new_row req actor gid) \<mapsto> ?g)) s1"
  have rq: "requested req actor gid g'" if "same_terms ?g g'" for g'
    using that by (auto simp: requested_def)
  show "wp ?rest (issue_post req actor gid s0 R) s1"
    unfolding wp_bindM wp_catchM
  proof (rule wp_mono [OF issue_steps_spec [OF h [unfolded id]]])
    fix r s2 assume p: "issue_steps_post gid ?g s0 R r s2"
    let ?k = "\<lambda>creds. wp (seqM (audit E (Some rid) (Some gid) actor ''issue'' ''ok''
             (db_value (rq_db_type req) @ '' '' @ scope_value (rq_scope req)))
             (ret creds)) (issue_post req actor gid s0 R)"
    have ok: "?k c s2" if "r = Ret c" for c
    proof -
      from p that obtain g' where g': "here s0 (R(gid \<mapsto> g')) s2" "same_terms ?g g'" "active_with c g'" by auto
      show ?thesis
        by (rule step_audit [OF g'(1)]) (use g' n rq in \<open>auto simp: wp_ret id\<close>)
    qed
    have bad: "wp (issue_failed E gid actor rid e) (on_ret ?k (issue_post req actor gid s0 R)) s2"
      if "r = Raise e" for e
    proof -
      from p that obtain g' where g': "here s0 (R(gid \<mapsto> g')) s2" "same_terms ?g g'" by auto
      show ?thesis
        by (rule wp_mono [OF issue_failed_spec [OF g'(1) n [unfolded id] rq [OF g'(2)]]])
          (metis on_ret.simps(2,3,4) outcome.exhaust)
    qed
    show "on_raise (\<lambda>e. wp (issue_failed E gid actor rid e) (on_ret ?k (issue_post req actor gid s0 R)))
      (on_ret ?k (issue_post req actor gid s0 R)) r s2"
      using p n ok bad rq by (cases r) (auto simp: id)
  qed
qed

section \<open>Under the lock\<close>

definition taken :: "db_type \<Rightarrow> string \<Rightarrow> 'w sys \<Rightarrow> 'w sys" where
  "taken db gid s = s\<lparr>locks := (locks s)(db := True), inflight := insert gid (inflight s)\<rparr>"

text \<open>The locks and semaphores are as before \<open>s\<close>, and of the in-flight ids at most those of \<open>G\<close> are gone.\<close>

definition freed :: "string set \<Rightarrow> 'w sys \<Rightarrow> (string \<rightharpoonup> grant) \<Rightarrow> 'w sys \<Rightarrow> bool" where
  "freed G s R s' \<longleftrightarrow> opened s' \<and> rows s' = R \<and> locks s' = locks s \<and> slots s' = slots s
     \<and> inflight s' = inflight s - G"

definition table_is :: "(string \<rightharpoonup> grant) \<Rightarrow> 'w sys \<Rightarrow> bool" where
  "table_is R s \<longleftrightarrow> opened s \<and> rows s = R"

lemma here_table: "here s0 R s \<Longrightarrow> table_is R s"
  by (simp add: here_def table_is_def)

lemma freed_table: "freed G s R s' \<Longrightarrow> table_is R s'"
  by (simp add: freed_def table_is_def)

lemma freed_alike: "freed G s R s' \<Longrightarrow> alike s' t \<Longrightarrow> freed G s R t"
  by (simp add: freed_def alike_def same_control_def)

lemma here_freed: "here s R s' \<Longrightarrow> freed {} s R s'"
  by (simp add: here_def freed_def same_control_def)

lemma step_begin:
  assumes "here s0 R s"
    and "\<And>m. locks s db \<Longrightarrow> Q (Raise (busy m)) s"
    and "\<not> locks s db \<Longrightarrow> here (taken db gid s) R (taken db gid s) \<Longrightarrow> wp k Q (taken db gid s)"
  shows "wp (seqM (begin_op db gid) k) Q s"
  using assms
  by (auto simp: wp_seqM begin_op_def wp_bindM wp_gets wp_if wp_raise wp_modify here_def taken_def
      rows_def row_def same_control_def)

lemma step_finally_end:
  assumes "\<not> locks s db" and "wp m P (taken db gid s)"
    and "\<And>x s1 s2. P (Ret x) s1 \<Longrightarrow> (\<And>R. here (taken db gid s) R s1 \<Longrightarrow> freed {gid} s R s2) \<Longrightarrow> wp (k x) Q s2"
    and "\<And>e s1 s2. P (Raise e) s1 \<Longrightarrow> (\<And>R. here (taken db gid s) R s1 \<Longrightarrow> freed {gid} s R s2) \<Longrightarrow> Q (Raise e) s2"
    and "\<And>s1. P Halt s1 \<Longrightarrow> Q Halt s1" and "\<And>s1. P Diverge s1 \<Longrightarrow> Q Diverge s1"
  shows "wp (bindM (finallyM m (end_op db gid)) k) Q (taken db gid s)"
proof -
  have free: "freed {gid} s R (s1\<lparr>inflight := inflight s1 - {gid}, locks := (locks s1)(db := False)\<rparr>)"
    if "here (taken db gid s) R s1" for R s1
    using that assms(1)
    by (auto simp: here_def freed_def taken_def same_control_def rows_def row_def fun_eq_iff)
  show ?thesis
    unfolding wp_bindM wp_finallyM end_op_def wp_modify
  proof (rule wp_mono [OF assms(2)])
    fix r s1 assume p: "P r s1"
    show "case r of
        Ret x \<Rightarrow> on_ret (\<lambda>_. on_ret (\<lambda>x. wp (k x) Q) Q (Ret x)) (on_ret (\<lambda>x. wp (k x) Q) Q) (Ret ())
          (s1\<lparr>inflight := inflight s1 - {gid}, locks := (locks s1)(db := False)\<rparr>)
      | Raise e \<Rightarrow> on_ret (\<lambda>_. on_ret (\<lambda>x. wp (k x) Q) Q (Raise e)) (on_ret (\<lambda>x. wp (k x) Q) Q) (Ret ())
          (s1\<lparr>inflight := inflight s1 - {gid}, locks := (locks s1)(db := False)\<rparr>)
      | Halt \<Rightarrow> on_ret (\<lambda>x. wp (k x) Q) Q Halt s1 | Diverge \<Rightarrow> on_ret (\<lambda>x. wp (k x) Q) Q Diverge s1"
      using p assms(3) [OF _ free] assms(4) [OF _ free] assms(5,6) by (cases r) auto
  qed
qed

lemma step_public:
  assumes "freed G s (R(gid \<mapsto> g)) s1" and "wp (k (public g)) Q s1"
  shows "wp (bindM (public_of gid) k) Q s1"
proof -
  have "opened s1" "row gid s1 = Some g" using assms(1) by (simp_all add: freed_def flip: rows_apply)
  then show ?thesis using assms(2) by (simp add: wp_bindM public_of_def wp_get_grant wp_ret)
qed

section \<open>The whole of issue\<close>

fun issue_result ::
  "grant_request \<Rightarrow> string \<Rightarrow> 'w sys \<Rightarrow> (public_grant \<times> string) outcome \<Rightarrow> 'w sys \<Rightarrow> bool" where
  "issue_result req actor s (Ret (p, pw)) s' \<longleftrightarrow>
     (\<exists>gid g c. rows s gid = None \<and> requested req actor gid g \<and> active_with c g
        \<and> p = public g \<and> pw = c_password c \<and> freed {gid} s ((rows s)(gid \<mapsto> g)) s')"
| "issue_result req actor s (Raise e) s' \<longleftrightarrow>
     (\<exists>G. freed G s (rows s) s' \<and> (G = {} \<or> (\<exists>gid. G = {gid} \<and> rows s gid \<noteq> None)))
     \<or> (\<exists>gid g. rows s gid = None \<and> requested req actor gid g \<and> (is_exception e \<longrightarrow> closed g)
          \<and> freed {gid} s ((rows s)(gid \<mapsto> g)) s')"
| "issue_result req actor s Halt s' \<longleftrightarrow>
     table_is (rows s) s' \<or> (\<exists>gid g. rows s gid = None \<and> requested req actor gid g \<and> table_is ((rows s)(gid \<mapsto> g)) s')"
| "issue_result req actor s Diverge s' \<longleftrightarrow>
     table_is (rows s) s' \<or> (\<exists>gid g. rows s gid = None \<and> requested req actor gid g \<and> table_is ((rows s)(gid \<mapsto> g)) s')"

lemma issue_result_passes: "here s (rows s) s1 \<Longrightarrow> passes (\<lambda>r. issue_result req actor s r s1)"
  by (auto dest: here_freed here_table)

lemma new_grant_id_outside [outside_keeps]: "keeps outside_only (new_grant_id E)"
  unfolding new_grant_id_def by (intro outside.rules outside_keeps)

lemma freed_rebase: "here s R s1 \<Longrightarrow> freed G s1 R' s' \<longleftrightarrow> freed G s R' s'"
  by (simp add: freed_def here_def same_control_def)

lemma freed_rows: "freed G s R s' \<Longrightarrow> rows s' = R"
  by (simp add: freed_def)

lemma here_rows: "here s R s' \<Longrightarrow> rows s' = R"
  by (simp add: here_def)

lemma issue_under_lock:
  assumes h: "here s (rows s) s1"
  shows "wp (seqM (begin_op (rq_db_type req) gid)
     (bindM (finallyM (issue_locked E req actor rid gid creation revocation) (end_op (rq_db_type req) gid))
        (\<lambda>creds. bindM (public_of gid) (\<lambda>out. ret (out, c_password creds))))) (issue_result req actor s) s1"
  using h
proof (rule step_begin)
  show "issue_result req actor s (Raise (busy m)) s1" for m
    using here_freed [OF h] by auto
  assume free: "\<not> locks s1 (rq_db_type req)"
    and h': "here (taken (rq_db_type req) gid s1) (rows s) (taken (rq_db_type req) gid s1)"
  have base: "freed {gid} s1 R s2 \<longleftrightarrow> freed {gid} s R s2" for R s2 by (rule freed_rebase [OF h])
  show "wp (bindM (finallyM (issue_locked E req actor rid gid creation revocation) (end_op (rq_db_type req) gid))
        (\<lambda>creds. bindM (public_of gid) (\<lambda>out. ret (out, c_password creds)))) (issue_result req actor s)
        (taken (rq_db_type req) gid s1)"
    using free issue_locked_spec [OF h']
  proof (rule step_finally_end)
    fix c s2 s3
    assume "issue_post req actor gid (taken (rq_db_type req) gid s1) (rows s) (Ret c) s2"
      and fr: "\<And>R. here (taken (rq_db_type req) gid s1) R s2 \<Longrightarrow> freed {gid} s1 R s3"
    then obtain g where g: "rows s gid = None" "requested req actor gid g" "active_with c g"
      "freed {gid} s ((rows s)(gid \<mapsto> g)) s3" by (auto simp: base)
    then show "wp (bindM (public_of gid) (\<lambda>out. ret (out, c_password c))) (issue_result req actor s) s3"
      by (intro step_public [OF g(4)]) (auto simp: wp_ret)
  next
    fix e s2 s3
    assume "issue_post req actor gid (taken (rq_db_type req) gid s1) (rows s) (Raise e) s2"
      and "\<And>R. here (taken (rq_db_type req) gid s1) R s2 \<Longrightarrow> freed {gid} s1 R s3"
    then show "issue_result req actor s (Raise e) s3" by (auto simp: base)
  qed (auto dest: here_table)
qed

lemma issue_spec:
  assumes "opened s"
  shows "wp (issue E req actor rid) (issue_result req actor s) s"
  using here_start [OF assms]
  unfolding issue_def
  apply -
  apply (erule step_outside_seq [OF _ outside.lift])
   apply (erule step_outside [OF _ introspect_outside(1)])
    apply (erule step_outside [OF _ outside.lift], clarify)
     apply (erule step_outside [OF _ faults_outside(3)])
      apply (erule step_outside [OF _ new_grant_id_outside])
       apply (erule issue_under_lock)
      apply (erule issue_result_passes)+
  done

section \<open>Revoke\<close>

text \<open>How a revocation ends for a grant that is not in a final state.\<close>

definition revoked_row :: "grant \<Rightarrow> grant \<Rightarrow> bool" where
  "revoked_row g g' \<longleftrightarrow> same_terms g g' \<and> g_status g' = Revoked \<and> g_last_error g' = None
     \<and> g_username g' = g_username g \<and> g_lease_id g' = g_lease_id g"

definition revoking_row :: "grant \<Rightarrow> grant \<Rightarrow> bool" where
  "revoking_row g g' \<longleftrightarrow> same_terms g g' \<and> g_status g' = Revoking
     \<and> g_username g' = g_username g \<and> g_lease_id g' = g_lease_id g"

fun revoke_result :: "string \<Rightarrow> 'w sys \<Rightarrow> public_grant outcome \<Rightarrow> 'w sys \<Rightarrow> bool" where
  "revoke_result gid s (Ret p) s' \<longleftrightarrow>
     (\<exists>g. rows s gid = Some g \<and>
        (if g_status g \<in> TERMINAL then s' = s \<and> p = public g
         else \<exists>g'. revoked_row g g' \<and> p = public g' \<and> freed {gid} s ((rows s)(gid \<mapsto> g')) s'))"
| "revoke_result gid s (Raise e) s' \<longleftrightarrow>
     (case rows s gid of
        None \<Rightarrow> e = Exn NotFound gid \<and> s' = s
      | Some g \<Rightarrow> g_status g \<notin> TERMINAL \<and>
          (if locks s (g_db_type g) then exc_class e = Busy \<and> s' = s
           else \<exists>g'. revoking_row g g' \<and> freed {gid} s ((rows s)(gid \<mapsto> g')) s'
                  \<and> (is_exception e \<longrightarrow> g_last_error g' = Some (type_name e))))"
| "revoke_result gid s Halt s' \<longleftrightarrow>
     (\<exists>g g'. rows s gid = Some g \<and> g_status g \<notin> TERMINAL \<and> table_is ((rows s)(gid \<mapsto> g')) s'
        \<and> (g' = g \<or> revoking_row g g' \<or> revoked_row g g'))"
| "revoke_result gid s Diverge s' \<longleftrightarrow>
     (\<exists>g g'. rows s gid = Some g \<and> g_status g \<notin> TERMINAL \<and> table_is ((rows s)(gid \<mapsto> g')) s'
        \<and> revoking_row g g')"

lemma seqM_skip: "seqM m skip = m"
proof
  fix s
  show "seqM m skip s = m s"
    by (cases "m s", cases "fst (m s)") (auto simp: seqM_def bindM_def ret_def)
qed

lemma bindM_ret: "bindM m ret = m"
  by (auto simp: bindM_def ret_def fun_eq_iff split: prod.split outcome.split)

lemma revoking_row_facts [simp]:
  "revoking_row g (set_fields [Status Revoking] t g)" "revoking_row g (stuck e t (set_fields [Status Revoking] t' g))"
  "revoked_row g (finished Revoked t (set_fields [Status Revoking] t' g))"
  by (simp_all add: revoking_row_def revoked_row_def)
     (simp_all add: stuck_def finished_def set_fields_def)

fun revoke_post ::
  "string \<Rightarrow> grant \<Rightarrow> 'w sys \<Rightarrow> (string \<rightharpoonup> grant) \<Rightarrow> unit outcome \<Rightarrow> 'w sys \<Rightarrow> bool" where
  "revoke_post gid g s0 R (Ret _) s' \<longleftrightarrow> (\<exists>g'. here s0 (R(gid \<mapsto> g')) s' \<and> revoked_row g g')"
| "revoke_post gid g s0 R (Raise e) s' \<longleftrightarrow>
     (\<exists>g'. here s0 (R(gid \<mapsto> g')) s' \<and> revoking_row g g'
        \<and> (is_exception e \<longrightarrow> g_last_error g' = Some (type_name e)))"
| "revoke_post gid g s0 R Halt s' \<longleftrightarrow>
     (\<exists>g'. here s0 (R(gid \<mapsto> g')) s' \<and> (g' = g \<or> revoking_row g g' \<or> revoked_row g g'))"
| "revoke_post gid g s0 R Diverge s' \<longleftrightarrow> (\<exists>g'. here s0 (R(gid \<mapsto> g')) s' \<and> revoking_row g g')"

lemma revoke_locked_spec:
  assumes "here s0 (R(gid \<mapsto> g)) s"
  shows "wp (revoke_locked E gid actor rid) (revoke_post gid g s0 R) s"
  unfolding revoke_locked_def
  using assms
proof (rule step_update [where gid = gid and g = g])
  show "here s0 (R(gid \<mapsto> g)) s1 \<Longrightarrow> revoke_post gid g s0 R Halt s1" for s1 by auto
  fix t s1
  let ?g = "set_fields [Status Revoking] t g"
  assume "here s0 (R(gid \<mapsto> g, gid \<mapsto> ?g)) s1"
  then have "here s0 (R(gid \<mapsto> ?g)) s1" by simp
  then show "wp (seqM (audit E (Some rid) (Some gid) actor ''revoke'' ''started'' [])
       (teardown E gid Revoked (Some rid) actor True)) (revoke_post gid g s0 R) s1"
  proof (rule step_audit)
    fix s2 assume h: "here s0 (R(gid \<mapsto> ?g)) s2"
    show "revoke_post gid g s0 R Halt s2" using h by (auto intro!: exI [of _ ?g])
    have "wp (seqM (teardown E gid Revoked (Some rid) actor True) skip) (revoke_post gid g s0 R) s2"
      using h
      by (rule step_teardown)
        (auto simp: wp_ret simp del: fun_upd_apply intro: revoking_row_facts exI [of _ "stuck _ _ ?g"] exI [of _ "finished _ _ ?g"])
    then show "wp (teardown E gid Revoked (Some rid) actor True) (revoke_post gid g s0 R) s2"
      by (simp only: seqM_skip)
  qed
qed simp

lemma wp_fst: "wp m Q s \<Longrightarrow> Q (fst (m s)) (snd (m s))"
  by (simp add: wp_def split_beta)

lemma terminal_set: "{Revoked, Expired, Failed} = TERMINAL"
  by (simp add: TERMINAL_def insert_commute)

text \<open>How the part from the lock on ends, for a row in any state, also one that has become final since it was checked.\<close>

fun revoke_end :: "string \<Rightarrow> grant \<Rightarrow> 'w sys \<Rightarrow> public_grant outcome \<Rightarrow> 'w sys \<Rightarrow> bool" where
  "revoke_end gid g s (Ret p) s' \<longleftrightarrow>
     (\<exists>g'. revoked_row g g' \<and> p = public g' \<and> freed {gid} s ((rows s)(gid \<mapsto> g')) s')"
| "revoke_end gid g s (Raise e) s' \<longleftrightarrow>
     (if locks s (g_db_type g) then exc_class e = Busy \<and> s' = s
      else \<exists>g'. revoking_row g g' \<and> freed {gid} s ((rows s)(gid \<mapsto> g')) s'
             \<and> (is_exception e \<longrightarrow> g_last_error g' = Some (type_name e)))"
| "revoke_end gid g s Halt s' \<longleftrightarrow>
     (\<exists>g'. table_is ((rows s)(gid \<mapsto> g')) s' \<and> (g' = g \<or> revoking_row g g' \<or> revoked_row g g'))"
| "revoke_end gid g s Diverge s' \<longleftrightarrow> (\<exists>g'. table_is ((rows s)(gid \<mapsto> g')) s' \<and> revoking_row g g')"

lemma revoke_under_lock:
  assumes o: "opened s" and g: "rows s gid = Some g"
  shows "wp (seqM (begin_op (g_db_type g) gid)
              (seqM (finallyM (revoke_locked E gid actor rid) (end_op (g_db_type g) gid))
              (public_of gid))) (revoke_end gid g s) s"
proof (rule step_begin [OF here_start [OF o]])
  show "locks s (g_db_type g) \<Longrightarrow> revoke_end gid g s (Raise (busy m)) s" for m
    by (simp add: busy_def)
  have R: "(rows s)(gid \<mapsto> g) = rows s" using g by auto
  assume free: "\<not> locks s (g_db_type g)"
    and "here (taken (g_db_type g) gid s) (rows s) (taken (g_db_type g) gid s)"
  then have h: "here (taken (g_db_type g) gid s) ((rows s)(gid \<mapsto> g)) (taken (g_db_type g) gid s)"
    by (simp add: R)
  have "wp (bindM (finallyM (revoke_locked E gid actor rid) (end_op (g_db_type g) gid))
          (\<lambda>_. bindM (public_of gid) ret)) (revoke_end gid g s) (taken (g_db_type g) gid s)"
    using free revoke_locked_spec [OF h]
  proof (rule step_finally_end)
    fix x s1 s2
    assume "revoke_post gid g (taken (g_db_type g) gid s) (rows s) (Ret x) s1"
      and "\<And>R. here (taken (g_db_type g) gid s) R s1 \<Longrightarrow> freed {gid} s R s2"
    then obtain g' where g': "revoked_row g g'" "freed {gid} s ((rows s)(gid \<mapsto> g')) s2" by auto
    then show "wp (bindM (public_of gid) ret) (revoke_end gid g s) s2"
      by (intro step_public [OF g'(2)]) (auto simp: wp_ret)
  next
    fix e s1 s2
    assume "revoke_post gid g (taken (g_db_type g) gid s) (rows s) (Raise e) s1"
      and "\<And>R. here (taken (g_db_type g) gid s) R s1 \<Longrightarrow> freed {gid} s R s2"
    then show "revoke_end gid g s (Raise e) s2" using free by auto
  qed (auto dest!: here_table)
  then show "wp (seqM (finallyM (revoke_locked E gid actor rid) (end_op (g_db_type g) gid))
              (public_of gid)) (revoke_end gid g s) (taken (g_db_type g) gid s)"
    by (simp add: seqM_def bindM_ret)
qed

lemma revoke_end_result:
  "rows s gid = Some g \<Longrightarrow> g_status g \<notin> TERMINAL \<Longrightarrow> revoke_end gid g s r s' \<Longrightarrow> revoke_result gid s r s'"
  by (cases r) (auto split: if_splits)

lemma revoke_spec:
  assumes o: "opened s"
  shows "wp (revoke E gid actor rid) (revoke_result gid s) s"
  unfolding revoke_def terminal_set
proof (rule step_get [OF here_start [OF o]])
  show "wp (case rows s gid of None \<Rightarrow> raise (Exn NotFound gid)
     | Some g \<Rightarrow> if g_status g \<in> TERMINAL then ret (public g)
         else seqM (begin_op (g_db_type g) gid)
              (seqM (finallyM (revoke_locked E gid actor rid) (end_op (g_db_type g) gid))
              (public_of gid))) (revoke_result gid s) s"
    using wp_mono [OF revoke_under_lock [OF o] revoke_end_result]
    by (cases "rows s gid") (auto simp: wp_ret wp_raise)
qed

section \<open>Reconcile\<close>

text \<open>A row after the cleanup that a reading \<open>t\<close> of the clock makes due.\<close>

definition reconciled :: "real \<Rightarrow> grant \<Rightarrow> grant \<Rightarrow> bool" where
  "reconciled t g g' \<longleftrightarrow>
     (case final_for g t of
        None \<Rightarrow> g' = g
      | Some final \<Rightarrow> (\<exists>u. g' = finished final u g) \<or> (\<exists>e u. is_exception e \<and> g' = stuck e u g))"

fun reconcile_result :: "'w env \<Rightarrow> string \<Rightarrow> 'w sys \<Rightarrow> unit outcome \<Rightarrow> 'w sys \<Rightarrow> bool" where
  "reconcile_result E gid s (Ret _) s' \<longleftrightarrow>
     (case rows s gid of
        None \<Rightarrow> s' = s
      | Some g \<Rightarrow> \<exists>t g'. read_clock E t \<and> reconciled t g g' \<and> freed {gid} s ((rows s)(gid \<mapsto> g')) s')"
| "reconcile_result E gid s (Raise e) s' \<longleftrightarrow>
     (\<exists>g. rows s gid = Some g \<and>
        (if locks s (g_db_type g) then exc_class e = Busy \<and> s' = s
         else \<not> is_exception e \<and> freed {gid} s (rows s) s'))"
| "reconcile_result E gid s Halt s' \<longleftrightarrow>
     (\<exists>g g'. rows s gid = Some g \<and> table_is ((rows s)(gid \<mapsto> g')) s'
        \<and> (g' = g \<or> (\<exists>t. read_clock E t \<and> reconciled t g g')))"
| "reconcile_result E gid s Diverge s' \<longleftrightarrow> table_is (rows s) s'"

lemma step_teardown_last:
  assumes "here s0 (R(gid \<mapsto> g)) s"
    and "\<And>s1 t. here s0 (R(gid \<mapsto> finished final t g)) s1 \<Longrightarrow> Q (Ret ()) s1 \<and> Q Halt s1"
    and "\<And>s1 e t. is_exception e \<Longrightarrow> here s0 (R(gid \<mapsto> stuck e t g)) s1 \<Longrightarrow>
           Q (if re then Raise e else Ret ()) s1 \<and> Q Halt s1"
    and "\<And>s1. here s0 (R(gid \<mapsto> g)) s1 \<Longrightarrow> (\<forall>e. \<not> is_exception e \<longrightarrow> Q (Raise e) s1) \<and> Q Halt s1 \<and> Q Diverge s1"
  shows "wp (teardown E gid final rid actor re) Q s"
proof -
  have "wp (seqM (teardown E gid final rid actor re) skip) Q s"
    using assms(1) by (rule step_teardown; use assms(2-4) in \<open>auto simp: wp_ret split: if_splits\<close>)
  then show ?thesis by (simp only: seqM_skip)
qed

text \<open>The part under the lock, with its result in terms of the rows.\<close>

fun reconcile_post ::
  "'w env \<Rightarrow> string \<Rightarrow> grant \<Rightarrow> 'w sys \<Rightarrow> (string \<rightharpoonup> grant) \<Rightarrow> unit outcome \<Rightarrow> 'w sys \<Rightarrow> bool" where
  "reconcile_post E gid g s0 R (Ret _) s' \<longleftrightarrow>
     (\<exists>t g'. read_clock E t \<and> reconciled t g g' \<and> here s0 (R(gid \<mapsto> g')) s')"
| "reconcile_post E gid g s0 R (Raise e) s' \<longleftrightarrow> \<not> is_exception e \<and> here s0 (R(gid \<mapsto> g)) s'"
| "reconcile_post E gid g s0 R Halt s' \<longleftrightarrow>
     (\<exists>g'. here s0 (R(gid \<mapsto> g')) s' \<and> (g' = g \<or> (\<exists>t. read_clock E t \<and> reconciled t g g')))"
| "reconcile_post E gid g s0 R Diverge s' \<longleftrightarrow> here s0 (R(gid \<mapsto> g)) s'"

lemma reconcile_locked_spec:
  assumes h: "here s0 (R(gid \<mapsto> g)) s"
  shows "wp (reconcile_locked E gid) (reconcile_post E gid g s0 R) s"
  unfolding reconcile_locked_def
proof (rule step_get [OF h], simp, rule step_now [OF h])
  fix t s1 w
  assume h1: "here s0 (R(gid \<mapsto> g)) s1" and "fst (clock E w) = Some t"
  then have t: "read_clock E t" by (auto simp: read_clock_def)
  show "wp (case final_for g t of None \<Rightarrow> skip
      | Some final \<Rightarrow> teardown E gid final None ''system'' False) (reconcile_post E gid g s0 R) s1"
  proof (cases "final_for g t")
    case None
    then show ?thesis using h1 t by (auto simp: wp_ret reconciled_def)
  next
    case (Some final)
    have fin: "reconciled t g (finished final u g)" for u using Some by (auto simp: reconciled_def)
    have stk: "is_exception e \<Longrightarrow> reconciled t g (stuck e u g)" for e u using Some by (auto simp: reconciled_def)
    have "wp (teardown E gid final None ''system'' False) (reconcile_post E gid g s0 R) s1"
      by (rule step_teardown_last [OF h1]; use t fin stk in \<open>auto simp del: fun_upd_apply; blast\<close>)
    then show ?thesis by (simp add: Some)
  qed
qed auto

lemma reconcile_one_spec:
  assumes o: "opened s"
  shows "wp (reconcile_one E gid) (reconcile_result E gid s) s"
proof (cases "rows s gid")
  case None
  then show ?thesis
    unfolding reconcile_one_def by (intro step_get [OF here_start [OF o]]) (simp add: wp_ret)
next
  case (Some g)
  have R: "(rows s)(gid \<mapsto> g) = rows s" using Some by auto
  have "wp (seqM (begin_op (g_db_type g) gid)
              (bindM (finallyM (reconcile_locked E gid) (end_op (g_db_type g) gid)) ret)) (reconcile_result E gid s) s"
  proof (rule step_begin [OF here_start [OF o]])
    show "locks s (g_db_type g) \<Longrightarrow> reconcile_result E gid s (Raise (busy m)) s" for m
      using Some by (simp add: busy_def)
    assume free: "\<not> locks s (g_db_type g)"
      and "here (taken (g_db_type g) gid s) (rows s) (taken (g_db_type g) gid s)"
    then have h: "here (taken (g_db_type g) gid s) ((rows s)(gid \<mapsto> g)) (taken (g_db_type g) gid s)"
      by (simp add: R)
    show "wp (bindM (finallyM (reconcile_locked E gid) (end_op (g_db_type g) gid)) ret)
            (reconcile_result E gid s) (taken (g_db_type g) gid s)"
      using free reconcile_locked_spec [OF h]
    proof (rule step_finally_end)
      fix x s1 s2
      assume "reconcile_post E gid g (taken (g_db_type g) gid s) (rows s) (Ret x) s1"
        and "\<And>R. here (taken (g_db_type g) gid s) R s1 \<Longrightarrow> freed {gid} s R s2"
      then show "wp (ret x) (reconcile_result E gid s) s2" using Some by (auto simp: wp_ret)
    next
      fix e s1 s2
      assume "reconcile_post E gid g (taken (g_db_type g) gid s) (rows s) (Raise e) s1"
        and "\<And>R. here (taken (g_db_type g) gid s) R s1 \<Longrightarrow> freed {gid} s R s2"
      then show "reconcile_result E gid s (Raise e) s2" using Some free by (auto simp: R)
    qed (use Some in \<open>auto simp: R dest!: here_table\<close>)
  qed
  then show ?thesis
    unfolding reconcile_one_def by (intro step_get [OF here_start [OF o]]) (simp add: Some bindM_ret)
qed

section \<open>The life of a grant\<close>

text \<open>The transitions of the README's diagram, with the cleanup that failed as the way to \<open>Revoking\<close>.\<close>

inductive moves :: "status \<Rightarrow> status \<Rightarrow> bool" where
  "moves Issuing Active"
| "moves Issuing Failed"
| "moves Issuing Revoking"
| "moves Active Expired"
| "moves Active Revoking"
| "moves Revoking Revoked"

code_pred moves .

inductive_simps moves_from [simp]: "moves Issuing st" "moves Active st" "moves Revoking st"
  "moves Revoked st" "moves Expired st" "moves Failed st"

lemma moves_terminal: "moves st st' \<Longrightarrow> st \<notin> TERMINAL"
  by (cases rule: moves.cases) auto

lemma moves_star_terminal: "moves\<^sup>*\<^sup>* st st' \<Longrightarrow> st \<in> TERMINAL \<Longrightarrow> st' = st"
  by (induction rule: converse_rtranclp_induct) (auto dest: moves_terminal)

lemma moves_to_Revoking: "st \<notin> TERMINAL \<Longrightarrow> moves\<^sup>*\<^sup>* st Revoking"
  by (auto simp: not_TERMINAL)

lemma moves_to_Revoked: "st \<notin> TERMINAL \<Longrightarrow> moves\<^sup>*\<^sup>* st Revoked"
  by (rule rtranclp.rtrancl_into_rtrancl [OF moves_to_Revoking]) simp_all

definition row_evolves :: "grant option \<Rightarrow> grant option \<Rightarrow> bool" where
  "row_evolves x y \<longleftrightarrow>
     (case x of
        None \<Rightarrow> True
      | Some g \<Rightarrow> (case y of
            None \<Rightarrow> False
          | Some g' \<Rightarrow> same_terms g g' \<and> moves\<^sup>*\<^sup>* (g_status g) (g_status g')
              \<and> (g_status g \<in> TERMINAL \<longrightarrow> g' = g)))"

definition evolves :: "'w sys \<Rightarrow> 'w sys \<Rightarrow> bool" where
  "evolves s s' \<longleftrightarrow> (opened s \<longrightarrow> opened s' \<and> (\<forall>i. row_evolves (rows s i) (rows s' i)))"

lemma row_evolves_refl [simp]: "row_evolves x x"
  by (simp add: row_evolves_def split: option.split)

lemma row_evolves_trans: "row_evolves x y \<Longrightarrow> row_evolves y z \<Longrightarrow> row_evolves x z"
  by (auto simp: row_evolves_def split: option.splits
      intro: same_terms_trans rtranclp_trans dest: moves_star_terminal)

interpretation evolves: frame evolves
  by unfold_locales (auto simp: evolves_def intro: row_evolves_trans)

lemma row_evolves_Some:
  "same_terms g g' \<Longrightarrow> moves\<^sup>*\<^sup>* (g_status g) (g_status g') \<Longrightarrow> g_status g \<notin> TERMINAL \<Longrightarrow>
     row_evolves (Some g) (Some g')"
  by (simp add: row_evolves_def)

lemma evolves_put:
  "opened s' \<Longrightarrow> rows s' = (rows s)(gid := y) \<Longrightarrow> row_evolves (rows s gid) y \<Longrightarrow> evolves s s'"
  by (simp add: evolves_def)

lemma evolves_same: "opened s' = opened s \<Longrightarrow> rows s' = rows s \<Longrightarrow> evolves s s'"
  by (simp add: evolves_def)

lemma final_for_moves: "final_for g t = Some final \<Longrightarrow> moves (g_status g) final"
  by (auto simp: final_for_def split: if_splits)

lemma final_for_TERMINAL: "g_status g \<in> TERMINAL \<Longrightarrow> final_for g t = None"
  by (auto simp: final_for_def TERMINAL_def)

lemma reconciled_evolves: "reconciled t g g' \<Longrightarrow> row_evolves (Some g) (Some g')"
  using final_for_TERMINAL [of g t]
  by (auto simp: reconciled_def split: option.splits
      intro!: row_evolves_Some moves_to_Revoking dest: final_for_moves)

lemma revoking_evolves: "revoking_row g g' \<Longrightarrow> g_status g \<notin> TERMINAL \<Longrightarrow> row_evolves (Some g) (Some g')"
  by (auto simp: revoking_row_def intro!: row_evolves_Some moves_to_Revoking)

lemma revoked_evolves: "revoked_row g g' \<Longrightarrow> g_status g \<notin> TERMINAL \<Longrightarrow> row_evolves (Some g) (Some g')"
  by (auto simp: revoked_row_def intro!: row_evolves_Some moves_to_Revoked)

lemma keeps_opened:
  fixes m :: "('w sys, 'a) prog"
  assumes "\<And>s. opened s \<Longrightarrow> wp m (\<lambda>r. evolves s) s"
  shows "keeps evolves m"
proof (rule keeps_of_wp)
  fix s
  show "wp m (\<lambda>r. evolves s) s"
  proof (cases "opened s")
    case False
    then show ?thesis by (auto simp: wp_def evolves_def split: prod.split)
  qed (rule assms)
qed

lemma table_evolves:
  "table_is ((rows s)(gid \<mapsto> g')) s' \<Longrightarrow> rows s gid = x \<Longrightarrow> row_evolves x (Some g') \<Longrightarrow> evolves s s'"
  "table_is (rows s) s' \<Longrightarrow> evolves s s'"
  by (auto simp: table_is_def evolves_def)

lemma row_evolves_None [simp]: "row_evolves None y"
  by (simp add: row_evolves_def)

lemma new_evolves: "table_is ((rows s)(gid \<mapsto> g')) s' \<Longrightarrow> rows s gid = None \<Longrightarrow> evolves s s'"
  by (erule table_evolves(1) [where x = None]) simp_all

lemma issue_evolves: "keeps evolves (issue E req actor rid)"
proof (rule keeps_opened, rule wp_mono [OF issue_spec])
  fix s s' r
  show "issue_result req actor s r s' \<Longrightarrow> evolves s s'"
    by (cases r) (auto dest!: freed_table intro: table_evolves(2) new_evolves)
qed

lemma revoke_evolves: "keeps evolves (revoke E gid actor rid)"
proof (rule keeps_opened, rule wp_mono [OF revoke_spec])
  fix s s' r
  show "revoke_result gid s r s' \<Longrightarrow> evolves s s'"
    by (cases r)
      (auto dest!: freed_table split: if_splits option.splits
        intro: table_evolves evolves.refl revoking_evolves revoked_evolves)
qed

lemma reconcile_one_evolves: "keeps evolves (reconcile_one E gid)"
proof (rule keeps_opened, rule wp_mono [OF reconcile_one_spec])
  fix s s' r
  show "reconcile_result E gid s r s' \<Longrightarrow> evolves s s'"
    by (cases r)
      (auto dest!: freed_table split: if_splits option.splits
        intro: table_evolves evolves.refl reconciled_evolves)
qed

section \<open>A round of the reconciler\<close>

text \<open>The rest of a round leaves the grant rows alone.\<close>

lemma alike_of_rows:
  assumes "\<And>A S. keeps (rows_within A S) m" and "keeps same_control m"
  shows "keeps alike m"
proof (rule keepsI)
  fix s r s' assume m: "m s = (r, s')"
  have "rows_within {} {} s s'" and "same_control s s'"
    using assms m by (auto dest: keepsD)
  then show "alike s s'" by (simp add: alike_def rows_within_def rows_def)
qed

lemma audit_alike: "keeps alike (audit E rid gid actor action result detail)"
  by (intro alike_of_rows audit_rows store_control)

lemma purge_alike: "keeps alike (purge_sessions E)"
  by (intro alike_of_rows session_rows store_control)

lemma report_orphans_alike: "keeps alike (report_orphans E)"
  unfolding report_orphans_def orphan_scan_def
  by (intro alike.rules audit_alike outside_alike outside_keeps)

lemma alike_evolves: "keeps alike m \<Longrightarrow> keeps evolves m"
  by (erule keeps_mono) (auto simp: alike_def intro: evolves_same)

lemma quiet_keeps: "frame R \<Longrightarrow> keeps R m \<Longrightarrow> keeps R (quiet m)"
  by (simp add: quiet_def frame.try_exc frame.ret)

lemma keeps_weaker: "keeps alike m \<Longrightarrow> \<forall>s s'. alike s s' \<longrightarrow> R s s' \<Longrightarrow> keeps R m"
  by (erule keeps_mono) simp

text \<open>A frame that the cleanup of every row keeps is kept by the whole round.\<close>

lemma reconcile_once_frame:
  assumes R: "frame R" and one: "\<And>gid. keeps R (reconcile_one E gid)"
    and alike: "\<forall>s s'. alike s s' \<longrightarrow> R s s'"
  shows "keeps R (reconcile_once E)"
  unfolding reconcile_once_def reconcile_row_def
  by (intro frame.rules [OF R] quiet_keeps [OF R] one keeps_weaker [OF _ alike]
      outside_alike outside_keeps purge_alike report_orphans_alike)

lemma reconcile_once_evolves: "keeps evolves (reconcile_once E)"
  by (rule reconcile_once_frame [OF evolves.frame_axioms reconcile_one_evolves])
     (auto simp: alike_def intro: evolves_same)

lemma reconcile_loop_evolves: "keeps evolves (reconcile_loop n E)"
  by (induction n)
    (simp_all add: evolves.ret evolves.seq quiet_keeps [OF evolves.frame_axioms] reconcile_once_evolves
      alike_evolves outside_alike outside_keeps)

end
