(* ===== verification/Backend.thy ===== *)
theory Backend
  imports Lifecycle
begin

text \<open>
  What the code relies on of the world outside: Vault, the two databases and the clock. An observer
  record names what can be seen of a world (the database accounts, the Vault roles that can make
  accounts, the time), laws over the environment's functions say how the calls change it, and the
  frames below carry the laws through every program of the Vault client, the introspection and the
  teardown.
\<close>

section \<open>Frames over the world\<close>

definition on_world :: "('w \<Rightarrow> 'w \<Rightarrow> bool) \<Rightarrow> 'w sys \<Rightarrow> 'w sys \<Rightarrow> bool" where
  "on_world W s s' \<longleftrightarrow> W (world s) (world s')"

text \<open>
  The calls that neither write a database role nor read its credentials keep \<open>W\<close>.
\<close>

definition calm :: "('w \<Rightarrow> 'w \<Rightarrow> bool) \<Rightarrow> 'w env \<Rightarrow> bool" where
  "calm W E \<longleftrightarrow>
     (\<forall>w. W w (snd (clock E w)))
     \<and> (\<forall>d w. W w (sleep E d w))
     \<and> (\<forall>n w. W w (snd (token_hex E n w)))
     \<and> (\<forall>n w. W w (snd (token_urlsafe E n w)))
     \<and> (\<forall>p w. W w (snd (read_text E p w)))
     \<and> (\<forall>p w. W w (unlink E p w))
     \<and> (\<forall>c p a w. \<not> prefix ''database/roles/'' p \<longrightarrow> W w (snd (vault_write E c p a w)))
     \<and> (\<forall>c p w. \<not> prefix ''database/creds/'' p \<longrightarrow> W w (snd (vault_read E c p w)))
     \<and> (\<forall>c p w. W w (snd (vault_list E c p w)))
     \<and> (\<forall>c p w. W w (snd (vault_delete E c p w)))
     \<and> (\<forall>c p w. W w (snd (kv_read E c p w)))
     \<and> (\<forall>r i w. W w (snd (approle_login E r i w)))
     \<and> (\<forall>u q w. W w (snd (userpass_auth E u q w)))
     \<and> (\<forall>c w. W w (snd (token_revoke_self E c w)))
     \<and> (\<forall>c w. W w (snd (token_lookup_self E c w)))
     \<and> (\<forall>i w. W w (snd (pg_connect E i w)))
     \<and> (\<forall>h q a w. W w (snd (pg_texts E h q a w)))
     \<and> (\<forall>h q w. W w (snd (pg_pairs E h q w)))
     \<and> (\<forall>h q a w. W w (snd (pg_count E h q a w)))
     \<and> (\<forall>i w. W w (snd (ch_connect E i w)))
     \<and> (\<forall>h q a w. W w (snd (ch_texts E h q a w)))"

text \<open>Writing the role \<open>r\<close> for the database \<open>db\<close>, and reading its credentials, keep \<open>W\<close>.\<close>

definition role_calm :: "('w \<Rightarrow> 'w \<Rightarrow> bool) \<Rightarrow> 'w env \<Rightarrow> string \<Rightarrow> db_type \<Rightarrow> bool" where
  "role_calm W E r db \<longleftrightarrow>
     (\<forall>c a w. map_of a ''db_name'' = Some (JStr (connection_name db)) \<longrightarrow>
        W w (snd (vault_write E c (''database/roles/'' @ r) a w)))
     \<and> (\<forall>c w. W w (snd (vault_read E c (''database/creds/'' @ r) w)))"

locale world_frame =
  fixes W :: "'w \<Rightarrow> 'w \<Rightarrow> bool"
  assumes W_refl: "W w w"
    and W_trans: "W u v \<Longrightarrow> W v w \<Longrightarrow> W u w"

sublocale world_frame \<subseteq> lifted: frame "on_world W"
  by unfold_locales (auto simp: on_world_def intro: W_refl W_trans)

context world_frame
begin

lemma ext: "(\<And>w. W w (snd (f w))) \<Longrightarrow> keeps (on_world W) (call_ext f)"
  by (auto simp: keeps_def on_world_def call_ext_def split: prod.splits) (metis snd_conv)

lemma same_world: "(\<And>s. world (g s) = world s) \<Longrightarrow> keeps (on_world W) (modify g)"
  by (rule keeps_modify) (simp add: on_world_def W_refl)

lemma tx_world: "keeps (on_world W) (tx f)"
  by (rule keeps_tx) (simp_all add: on_world_def W_refl)

lemma query_world: "keeps (on_world W) (query f)"
  by (simp add: keeps_def query_def on_world_def W_refl)

lemma quiet_world: "keeps (on_world W) m \<Longrightarrow> keeps (on_world W) (quiet m)"
  by (simp add: quiet_def lifted.try_exc lifted.ret)

lemma ignore_world: "keeps (on_world W) m \<Longrightarrow> keeps (on_world W) (ignore m)"
  by (simp add: ignore_def lifted.bind lifted.ret)

lemma calm_calls:
  assumes "calm W E"
  shows "keeps (on_world W) (now E)" "keeps (on_world W) (do_sleep E d)" "keeps (on_world W) (draw_hex E n)"
    "keeps (on_world W) (draw_urlsafe E n)" "keeps (on_world W) (do_unlink E p)"
    "keeps (on_world W) (call_ext (read_text E p))"
    "\<not> prefix ''database/roles/'' p \<Longrightarrow> keeps (on_world W) (call_ext (vault_write E c p a))"
    "\<not> prefix ''database/creds/'' p \<Longrightarrow> keeps (on_world W) (call_ext (vault_read E c p))"
    "keeps (on_world W) (call_ext (vault_list E c p))" "keeps (on_world W) (call_ext (vault_delete E c p))"
    "keeps (on_world W) (call_ext (kv_read E c p))" "keeps (on_world W) (call_ext (approle_login E r i))"
    "keeps (on_world W) (call_ext (userpass_auth E u q))" "keeps (on_world W) (call_ext (token_revoke_self E c))"
    "keeps (on_world W) (call_ext (token_lookup_self E c))" "keeps (on_world W) (call_ext (pg_connect E info))"
    "keeps (on_world W) (call_ext (pg_texts E h sql ps))" "keeps (on_world W) (call_ext (pg_pairs E h sql))"
    "keeps (on_world W) (call_ext (pg_count E h sql ps))" "keeps (on_world W) (call_ext (ch_connect E info'))"
    "keeps (on_world W) (call_ext (ch_texts E h sql cs))"
  using assms
  by (simp_all add: calm_def now_def do_sleep_def draw_hex_def draw_urlsafe_def do_unlink_def case_prod_beta ext)

lemma login_world:
  assumes "calm W E" shows "keeps (on_world W) (service_login E)"
  unfolding service_login_def read_approle_def
  by (intro lifted.rules calm_calls [OF assms] quiet_world ignore_world same_world) simp

lemma service_call_world:
  assumes "calm W E" "\<And>c. keeps (on_world W) (fn c)"
  shows "keeps (on_world W) (service_call E fn)"
  unfolding service_call_def service_client_def
  by (intro lifted.rules login_world [OF assms(1)] calm_calls [OF assms(1)] assms(2))

lemma other_path:
  "\<not> prefix ''database/roles/'' (''auth/token/'' @ p)" "\<not> prefix ''database/roles/'' (''sys/leases/'' @ p)"
  "\<not> prefix ''database/roles/'' (''database/rotate-root/'' @ p)"
  "\<not> prefix ''database/creds/'' (''auth/userpass/users/'' @ p)"
  by simp_all

lemma client_world:
  assumes "calm W E"
  shows "keeps (on_world W) (delete_role E r)" "keeps (on_world W) (create_grant_token E n r)"
    "keeps (on_world W) (lookup_accessor E a)" "keeps (on_world W) (list_leases E r)"
    "keeps (on_world W) (revoke_lease E l)" "keeps (on_world W) (revoke_accessor E a)"
    "keeps (on_world W) (introspect_credentials E db)" "keeps (on_world W) (revoke_token_quietly E tok)"
    "keeps (on_world W) (rotate_root E db)" "keeps (on_world W) (user_policies E u)"
    "keeps (on_world W) (token_policies E tok)" "keeps (on_world W) (userpass_login E u q)"
  unfolding delete_role_def create_grant_token_def lookup_accessor_def list_leases_def revoke_lease_def
    revoke_accessor_def introspect_credentials_def revoke_token_quietly_def rotate_root_def
    user_policies_def token_policies_def userpass_login_def
  by (intro lifted.rules service_call_world [OF assms] calm_calls [OF assms] quiet_world ignore_world; simp)+

lemma find_token_accessors_world:
  assumes "calm W E" shows "keeps (on_world W) (find_token_accessors E r)"
  unfolding find_token_accessors_def
  by (intro lifted.rules service_call_world [OF assms] calm_calls [OF assms] client_world [OF assms])

lemma introspect_world:
  assumes "calm W E"
  shows "keeps (on_world W) (catalog E db)" "keeps (on_world W) (leftover_users E db)"
    "keeps (on_world W) (find_accounts E db gid)" "keeps (on_world W) (pg_backends E a)"
  unfolding catalog_def postgres_catalog_def clickhouse_catalog_def leftover_users_def
    find_accounts_def pg_backends_def open_pg_def open_ch_def
  by (intro lifted.rules calm_calls [OF assms] client_world [OF assms])+

lemma faults_world:
  assumes "calm W E"
  shows "keeps (on_world W) (point E name)" "keeps (on_world W) (mutate_statements E sts)"
  unfolding armed_def point_def mutate_statements_def
  by (intro lifted.rules calm_calls [OF assms])+

text \<open>Programs that write one role and read its credentials.\<close>

lemma role_world:
  assumes "calm W E" "role_calm W E r db"
  shows "keeps (on_world W) (write_role E r db cs rs n)" "keeps (on_world W) (read_credentials E tok r)"
  using assms(2) unfolding write_role_def read_credentials_def role_calm_def
  by (intro lifted.rules service_call_world [OF assms(1)] ignore_world ext; simp)+

lemma manager_world:
  assumes "calm W E" "role_calm W E r db"
  shows "keeps (on_world W) (run_as_manager E db r sts)"
  unfolding run_as_manager_def helper_cleanup_def on_error_def
  by (intro lifted.rules role_world [OF assms] client_world [OF assms(1)] quiet_world)

lemma maintenance_world:
  assumes c: "calm W E" and r: "\<And>h. role_calm W E (gid @ ''_h'' @ h) db"
  shows "keeps (on_world W) (run_statements E db gid sts)"
    "keeps (on_world W) (terminate_loop n E db a gid dl)"
    "keeps (on_world W) (lock_out_and_terminate E db a gid)"
    "keeps (on_world W) (drop_account E db gid a)"
proof -
  show run: "keeps (on_world W) (run_statements E db gid sts)" for sts
    unfolding run_statements_def by (intro lifted.rules calm_calls [OF c] manager_world [OF c r])
  show loop: "keeps (on_world W) (terminate_loop n E db a gid dl)" for n dl
    by (induction n) (simp_all, (intro lifted.rules calm_calls [OF c] introspect_world [OF c] run)+)
  show lock: "keeps (on_world W) (lock_out_and_terminate E db a gid)"
    unfolding lock_out_and_terminate_def by (intro lifted.rules calm_calls [OF c] run loop)
  show "keeps (on_world W) (drop_account E db gid a)"
    unfolding drop_account_def by (intro lifted.rules lock run)
qed

lemma teardown_steps_world:
  assumes c: "calm W E" and r: "\<And>h. role_calm W E (gid @ ''_h'' @ h) (g_db_type g)"
  shows "keeps (on_world W) (teardown_steps E gid g)"
  unfolding teardown_steps_def grant_accessors_def confirm_gone_def
  by (intro lifted.rules maintenance_world [OF c r] introspect_world [OF c] client_world [OF c]
      find_token_accessors_world [OF c])

lemma store_world:
  assumes "calm W E"
  shows "keeps (on_world W) (update_grant E gid fs)" "keeps (on_world W) (insert_grant E n)"
    "keeps (on_world W) (audit E rid gid' actor action result detail)"
    "keeps (on_world W) (purge_sessions E)" "keeps (on_world W) (get_grant gid)"
    "keeps (on_world W) (list_by_status sts)" "keeps (on_world W) (audit_exists x y)"
    "keeps (on_world W) (list_grants sts' n')" "keeps (on_world W) (get_session E sid)"
    "keeps (on_world W) (create_session E u v)" "keeps (on_world W) (touch_session E sid b)"
    "keeps (on_world W) (delete_session E sid)"
  unfolding update_grant_def insert_grant_def audit_def purge_sessions_def get_grant_def
    list_by_status_def audit_exists_def list_grants_def get_session_def create_session_def
    touch_session_def delete_session_def
  by (intro lifted.rules calm_calls [OF assms] tx_world query_world)+

end

end
