(* ===== verification/Safety.thy ===== *)
theory Safety
  imports Backend
begin

text \<open>
  The promise of the portal: a grant in a final state has no database account left. The laws of
  the backend (Vault makes accounts only for a role that was written, named after that role; the
  account lookups of the introspection are complete), the invariant that ties every account with a
  grant's prefix to a row that is not final, and its preservation by every operation, crash and
  restart.
\<close>

section \<open>The backend\<close>

text \<open>
  What can be seen of a world: the accounts of the databases, and the Vault roles that can make
  accounts, each with the databases it may make them in.
\<close>

record 'w obs =
  accounts :: "'w \<Rightarrow> (db_type \<times> string) set"
  roles :: "'w \<Rightarrow> (string \<times> db_type) set"

definition no_new :: "'w obs \<Rightarrow> 'w \<Rightarrow> 'w \<Rightarrow> bool" where
  "no_new V w w' \<longleftrightarrow> accounts V w' \<subseteq> accounts V w \<and> roles V w' \<subseteq> roles V w"

text \<open>
  Writing a role makes it usable in the database of its connection; reading its credentials may make
  accounts there, named after the role (the username template that setup checks).
\<close>

definition role_law :: "'w env \<Rightarrow> 'w obs \<Rightarrow> bool" where
  "role_law E V \<longleftrightarrow>
     (\<forall>c r a db w. map_of a ''db_name'' = Some (JStr (connection_name db)) \<longrightarrow>
        accounts V (snd (vault_write E c (''database/roles/'' @ r) a w)) \<subseteq> accounts V w
        \<and> roles V (snd (vault_write E c (''database/roles/'' @ r) a w)) \<subseteq> insert (r, db) (roles V w))"

definition creds_law :: "'w env \<Rightarrow> 'w obs \<Rightarrow> bool" where
  "creds_law E V \<longleftrightarrow>
     (\<forall>c r w.
        accounts V (snd (vault_read E c (''database/creds/'' @ r) w))
          \<subseteq> accounts V w \<union> {(db, a). (r, db) \<in> roles V w \<and> prefix (account_prefix r) a}
        \<and> roles V (snd (vault_read E c (''database/creds/'' @ r) w)) \<subseteq> roles V w)"

text \<open>\<open>starts_with\<close> and \<open>startsWith\<close>: a query that answers lists every account with the prefix.\<close>

definition lookup_law :: "'w env \<Rightarrow> 'w obs \<Rightarrow> bool" where
  "lookup_law E V \<longleftrightarrow>
     (\<forall>h p w xs w'. pg_texts E h PG_ACCOUNTS_SQL [p] w = (Ret xs, w') \<longrightarrow>
        (\<forall>a. (Postgres, a) \<in> accounts V w' \<and> prefix p a \<longrightarrow> a \<in> set xs))
     \<and> (\<forall>h p w xs w'. ch_texts E h CH_ACCOUNTS_SQL [(''p'', p)] w = (Ret xs, w') \<longrightarrow>
        (\<forall>a. (Clickhouse, a) \<in> accounts V w' \<and> prefix p a \<longrightarrow> a \<in> set xs))"

text \<open>\<open>secrets.token_hex(n)\<close> is \<open>2 * n\<close> hexadecimal digits.\<close>

definition hex_law :: "'w env \<Rightarrow> bool" where
  "hex_law E \<longleftrightarrow> (\<forall>n w. length (fst (token_hex E n w)) = 2 * n \<and> list_all is_hex (fst (token_hex E n w)))"

definition backend_laws :: "'w env \<Rightarrow> 'w obs \<Rightarrow> bool" where
  "backend_laws E V \<longleftrightarrow>
     calm (no_new V) E \<and> role_law E V \<and> creds_law E V \<and> lookup_law E V \<and> hex_law E"

section \<open>Names\<close>

text \<open>The path parameter's pattern \<open>^vdba_[0-9a-f]{10}$\<close>: the form of every grant id.\<close>

definition grant_id_ok :: "string \<Rightarrow> bool" where
  "grant_id_ok gid \<longleftrightarrow> (\<exists>h. gid = ROLE_PREFIX @ h \<and> length h = 10 \<and> list_all is_hex h)"

text \<open>The Vault roles of a grant: its own and those of its maintenance statements.\<close>

definition own :: "string \<Rightarrow> string \<Rightarrow> bool" where
  "own gid r \<longleftrightarrow> r = gid \<or> prefix (account_prefix gid) r"

lemma grant_id_length: "grant_id_ok gid \<Longrightarrow> length gid = 15"
  by (auto simp: grant_id_ok_def ROLE_PREFIX_def)

lemma prefix_same_length:
  "prefix (account_prefix g) a \<Longrightarrow> prefix (account_prefix g') a \<Longrightarrow> length g = length g' \<Longrightarrow> g = g'"
  by (auto simp: account_prefix_def prefix_def append_eq_append_conv2)

lemma own_unique:
  assumes "own g r" "own g' r" "grant_id_ok g" "grant_id_ok g'"
  shows "g = g'"
proof -
  have l: "length g = length g'" using assms(3,4) by (simp add: grant_id_length)
  have "length (account_prefix g) = Suc (length g)" for g by (simp add: account_prefix_def)
  then show ?thesis
    using assms(1,2) l prefix_same_length [of g r g']
    by (auto simp: own_def dest: prefix_length_le)
qed

lemma own_account: "own gid r \<Longrightarrow> prefix (account_prefix r) a \<Longrightarrow> prefix (account_prefix gid) a"
  by (auto simp: own_def account_prefix_def prefix_def)

lemma own_helper: "own gid (gid @ ''_h'' @ h)"
  by (simp add: own_def account_prefix_def)

lemma own_self: "own gid gid"
  by (simp add: own_def)

section \<open>What the operations of one grant do to the world\<close>

definition touches :: "'w obs \<Rightarrow> string \<Rightarrow> db_type \<Rightarrow> 'w \<Rightarrow> 'w \<Rightarrow> bool" where
  "touches V gid db w w' \<longleftrightarrow>
     roles V w' \<subseteq> roles V w \<union> {(r, db) | r. own gid r}
     \<and> ((\<forall>r d. (r, d) \<in> roles V w \<and> own gid r \<longrightarrow> d = db) \<longrightarrow>
          accounts V w' \<subseteq> accounts V w \<union> {(db, a) | a. prefix (account_prefix gid) a})"

interpretation touch: world_frame "touches V gid db" for V :: "'w obs" and gid db
proof
  show "touches V gid db w w" for w by (simp add: touches_def)
  show "touches V gid db u v \<Longrightarrow> touches V gid db v w \<Longrightarrow> touches V gid db u w" for u v w
    unfolding touches_def by blast
qed

interpretation still: world_frame "no_new V" for V :: "'w obs"
  by unfold_locales (auto simp: no_new_def)

lemma calm_mono:
  assumes "calm W E" "\<And>w w'. W w w' \<Longrightarrow> W' w w'"
  shows "calm W' E"
  using assms by (simp add: calm_def)

lemma no_new_touches: "no_new V w w' \<Longrightarrow> touches V gid db w w'"
  by (auto simp: no_new_def touches_def)

lemma calm_touches: "backend_laws E V \<Longrightarrow> calm (touches V gid db) E"
  by (rule calm_mono [OF _ no_new_touches]) (simp_all add: backend_laws_def)

lemma role_touches:
  assumes "backend_laws E V" "own gid r"
  shows "role_calm (touches V gid db) E r db"
  unfolding role_calm_def
proof (intro conjI allI impI)
  fix c a w assume "map_of a ''db_name'' = Some (JStr (connection_name db))"
  then show "touches V gid db w (snd (vault_write E c (''database/roles/'' @ r) a w))"
    using assms unfolding backend_laws_def role_law_def touches_def by blast
next
  fix c w
  show "touches V gid db w (snd (vault_read E c (''database/creds/'' @ r) w))"
    using assms own_account [OF assms(2)] unfolding backend_laws_def creds_law_def touches_def by blast
qed

section \<open>The invariant\<close>

text \<open>
  Every account and every role that carries the id of a grant belongs to a row of that database, and
  an account only to a row that is not final.
\<close>

definition account_inv :: "'w obs \<Rightarrow> 'w sys \<Rightarrow> bool" where
  "account_inv V s \<longleftrightarrow>
     opened s
     \<and> (\<forall>gid g. rows s gid = Some g \<longrightarrow> grant_id_ok gid)
     \<and> (\<forall>gid d a. grant_id_ok gid \<longrightarrow> (d, a) \<in> accounts V (world s) \<longrightarrow> prefix (account_prefix gid) a \<longrightarrow>
          (\<exists>g. rows s gid = Some g \<and> g_status g \<notin> TERMINAL \<and> g_db_type g = d))
     \<and> (\<forall>gid r d. grant_id_ok gid \<longrightarrow> (r, d) \<in> roles V (world s) \<longrightarrow> own gid r \<longrightarrow>
          (\<exists>g. rows s gid = Some g \<and> g_db_type g = d))"

text \<open>The invariant, with a grant that is being worked on.\<close>

definition live :: "'w obs \<Rightarrow> string \<Rightarrow> db_type \<Rightarrow> 'w sys \<Rightarrow> bool" where
  "live V gid db s \<longleftrightarrow> account_inv V s \<and> (\<exists>g. rows s gid = Some g \<and> g_status g \<notin> TERMINAL \<and> g_db_type g = db)"

definition no_account :: "'w obs \<Rightarrow> string \<Rightarrow> db_type \<Rightarrow> 'w sys \<Rightarrow> bool" where
  "no_account V gid db s \<longleftrightarrow> (\<forall>a. (db, a) \<in> accounts V (world s) \<longrightarrow> \<not> prefix (account_prefix gid) a)"

lemma live_inv: "live V gid db s \<Longrightarrow> account_inv V s"
  by (simp add: live_def)

lemma liveE:
  assumes "live V gid db s"
  obtains g where "rows s gid = Some g" "g_status g \<notin> TERMINAL" "g_db_type g = db"
  using assms by (auto simp: live_def)

lemma inv_opened: "account_inv V s \<Longrightarrow> opened s"
  by (simp add: account_inv_def)

lemma inv_id: "account_inv V s \<Longrightarrow> rows s gid = Some g \<Longrightarrow> grant_id_ok gid"
  by (auto simp: account_inv_def)

lemma inv_account:
  "account_inv V s \<Longrightarrow> grant_id_ok gid \<Longrightarrow> (d, a) \<in> accounts V (world s) \<Longrightarrow> prefix (account_prefix gid) a \<Longrightarrow>
     \<exists>g. rows s gid = Some g \<and> g_status g \<notin> TERMINAL \<and> g_db_type g = d"
  by (simp add: account_inv_def)

lemma inv_role:
  "account_inv V s \<Longrightarrow> grant_id_ok gid \<Longrightarrow> (r, d) \<in> roles V (world s) \<Longrightarrow> own gid r \<Longrightarrow>
     \<exists>g. rows s gid = Some g \<and> g_db_type g = d"
  by (simp add: account_inv_def)

lemma account_invI:
  assumes "opened s" "\<And>gid g. rows s gid = Some g \<Longrightarrow> grant_id_ok gid"
    and "\<And>gid d a. grant_id_ok gid \<Longrightarrow> (d, a) \<in> accounts V (world s) \<Longrightarrow> prefix (account_prefix gid) a \<Longrightarrow>
           \<exists>g. rows s gid = Some g \<and> g_status g \<notin> TERMINAL \<and> g_db_type g = d"
    and "\<And>gid r d. grant_id_ok gid \<Longrightarrow> (r, d) \<in> roles V (world s) \<Longrightarrow> own gid r \<Longrightarrow>
           \<exists>g. rows s gid = Some g \<and> g_db_type g = d"
  shows "account_inv V s"
  using assms by (simp add: account_inv_def)

lemma inv_no_new:
  assumes inv: "account_inv V s" and o: "opened s' = opened s" and r: "rows s' = rows s"
    and w: "no_new V (world s) (world s')"
  shows "account_inv V s'"
proof (rule account_invI)
  show "opened s'" using inv o by (simp add: inv_opened)
  show "grant_id_ok gid" if "rows s' gid = Some g" for gid g using inv_id [OF inv] that r by simp
  show "\<exists>g. rows s' gid = Some g \<and> g_status g \<notin> TERMINAL \<and> g_db_type g = d"
    if "grant_id_ok gid" "(d, a) \<in> accounts V (world s')" "prefix (account_prefix gid) a" for gid d a
    unfolding r using w that by (intro inv_account [OF inv]) (auto simp: no_new_def)
  show "\<exists>g. rows s' gid = Some g \<and> g_db_type g = d"
    if "grant_id_ok gid" "(x, d) \<in> roles V (world s')" "own gid x" for gid x d
    unfolding r using w that by (intro inv_role [OF inv]) (auto simp: no_new_def)
qed

lemma live_no_new:
  assumes "live V gid db s" "opened s' = opened s" "rows s' = rows s" "no_new V (world s) (world s')"
  shows "live V gid db s'"
  using inv_no_new [OF live_inv [OF assms(1)] assms(2-4)] assms(1,3) by (simp add: live_def)

text \<open>The work on one grant does not disturb the others: account names of two grants never mix.\<close>

lemma live_touches:
  assumes l: "live V gid db s" and s': "opened s' = opened s" "rows s' = rows s"
    and t: "touches V gid db (world s) (world s')"
  shows "live V gid db s'"
proof -
  obtain g where g: "rows s gid = Some g" "g_status g \<notin> TERMINAL" "g_db_type g = db"
    using l by (rule liveE)
  have inv: "account_inv V s" and ok: "grant_id_ok gid"
    using live_inv [OF l] g(1) by (auto intro: inv_id)
  have "d = db" if "(r, d) \<in> roles V (world s)" "own gid r" for r d
    using inv_role [OF inv ok that] g by simp
  then have a: "accounts V (world s') \<subseteq> accounts V (world s) \<union> {(db, a) | a. prefix (account_prefix gid) a}"
    and r: "roles V (world s') \<subseteq> roles V (world s) \<union> {(r, db) | r. own gid r}"
    using t unfolding touches_def by blast+
  have "account_inv V s'"
  proof (rule account_invI)
    show "opened s'" using inv s' by (simp add: inv_opened)
    show "grant_id_ok i" if "rows s' i = Some g" for i g using inv_id [OF inv] that s' by simp
    fix i d x assume i: "grant_id_ok i"
    show "\<exists>g. rows s' i = Some g \<and> g_status g \<notin> TERMINAL \<and> g_db_type g = d"
      if x: "(d, x) \<in> accounts V (world s')" "prefix (account_prefix i) x"
    proof (cases "(d, x) \<in> accounts V (world s)")
      case True
      then show ?thesis using inv_account [OF inv i _ x(2)] s' by simp
    next
      case False
      then have "d = db" "prefix (account_prefix gid) x" using a x(1) by auto
      then have "i = gid" using prefix_same_length [OF x(2)] i ok by (simp add: grant_id_length)
      then show ?thesis using g \<open>d = db\<close> s' by simp
    qed
    show "\<exists>g. rows s' i = Some g \<and> g_db_type g = d"
      if x: "(x, d) \<in> roles V (world s')" "own i x"
    proof (cases "(x, d) \<in> roles V (world s)")
      case True
      then show ?thesis using inv_role [OF inv i _ x(2)] s' by simp
    next
      case False
      then have "d = db" "own gid x" using r x(1) by auto
      then have "i = gid" using own_unique x(2) i ok by blast
      then show ?thesis using g \<open>d = db\<close> s' by simp
    qed
  qed
  then show ?thesis using g s' by (simp add: live_def)
qed

text \<open>Row updates: a status that is not final is always safe, a final one once the accounts are gone.\<close>

lemma rows_world [simp]: "rows (s\<lparr>world := w\<rparr>) = rows s"
  by (simp add: rows_def)

lemma inv_put_row:
  assumes inv: "account_inv V s" and g: "rows s gid = Some g" "g_db_type g = db"
    and p: "put gid fs s s'" and w: "no_new V (world s) (world s')"
    and safe: "no_account V gid db s \<or> (\<forall>st. st \<notin> TERMINAL \<longrightarrow> last_status fs st \<notin> TERMINAL)"
  shows "account_inv V s'"
proof -
  obtain t where r: "rows s' = (rows s)(gid \<mapsto> set_fields fs t g)" using put_Some [OF p g(1)] by auto
  have "account_inv V (s'\<lparr>world := world s\<rparr>)"
  proof (rule account_invI)
    show "opened (s'\<lparr>world := world s\<rparr>)" using inv p by (simp add: inv_opened put_def)
    show "grant_id_ok i" if "rows (s'\<lparr>world := world s\<rparr>) i = Some h" for i h
      using inv_id [OF inv] that r g(1) by (auto split: if_splits)
    fix i d x assume i: "grant_id_ok i"
    show "\<exists>h. rows (s'\<lparr>world := world s\<rparr>) i = Some h \<and> g_status h \<notin> TERMINAL \<and> g_db_type h = d"
      if a: "(d, x) \<in> accounts V (world (s'\<lparr>world := world s\<rparr>))" "prefix (account_prefix i) x"
    proof -
      have x: "(d, x) \<in> accounts V (world s)" using a(1) by simp
      obtain h where h: "rows s i = Some h" "g_status h \<notin> TERMINAL" "g_db_type h = d"
        using inv_account [OF inv i x a(2)] by auto
      show ?thesis
      proof (cases "i = gid")
        case True
        then have "\<not> no_account V gid db s" using x a(2) h g by (auto simp: no_account_def)
        then show ?thesis using safe True h g r by auto
      qed (use h r in simp)
    qed
    show "\<exists>h. rows (s'\<lparr>world := world s\<rparr>) i = Some h \<and> g_db_type h = d"
      if "(x, d) \<in> roles V (world (s'\<lparr>world := world s\<rparr>))" "own i x"
      using inv_role [OF inv i _ that(2)] that(1) r g by auto
  qed
  then show ?thesis by (rule inv_no_new) (use w in simp_all)
qed

lemma inv_put:
  "live V gid db s \<Longrightarrow> put gid fs s s' \<Longrightarrow> no_new V (world s) (world s') \<Longrightarrow>
     no_account V gid db s \<or> (\<forall>st. st \<notin> TERMINAL \<longrightarrow> last_status fs st \<notin> TERMINAL) \<Longrightarrow> account_inv V s'"
  unfolding live_def by (elim conjE exE) (rule inv_put_row)

lemma live_put:
  assumes "live V gid db s" "put gid fs s s'" "no_new V (world s) (world s')"
    and "\<forall>st. st \<notin> TERMINAL \<longrightarrow> last_status fs st \<notin> TERMINAL"
  shows "live V gid db s'"
proof -
  obtain g where g: "rows s gid = Some g" "g_status g \<notin> TERMINAL" "g_db_type g = db"
    using assms(1) by (rule liveE)
  then show ?thesis
    using inv_put [OF assms(1-3)] assms(4) put_Some [OF assms(2) g(1)] by (auto simp: live_def)
qed

section \<open>Preservation\<close>

text \<open>From a state with \<open>P\<close> to one with \<open>Q\<close>, however the program ends.\<close>

definition secure :: "('s \<Rightarrow> bool) \<Rightarrow> ('s, 'a) prog \<Rightarrow> ('s \<Rightarrow> bool) \<Rightarrow> bool" where
  "secure P m Q \<longleftrightarrow> (\<forall>s. P s \<longrightarrow> Q (snd (m s)))"

lemma secure_stable: "secure P m P \<longleftrightarrow> keeps (stable P) m"
  by (simp add: secure_def keeps_def stable_def)

lemma secureI: "(\<And>s. P s \<Longrightarrow> wp m (\<lambda>_. Q) s) \<Longrightarrow> secure P m Q"
  by (simp add: secure_def wp_def split_beta)

lemma secure_wp: "secure P m Q \<Longrightarrow> P s \<Longrightarrow> wp m (\<lambda>_. Q) s"
  by (simp add: secure_def wp_def split_beta)

lemma secure_keeps: "keeps (stable P) m \<Longrightarrow> secure P m P"
  by (simp add: secure_stable)

lemma secure_bind:
  assumes "secure P m P'" "\<And>x. secure P' (k x) Q" "\<And>s. P' s \<Longrightarrow> Q s"
  shows "secure P (bindM m k) Q"
proof (rule secureI)
  fix s assume "P s"
  then show "wp (bindM m k) (\<lambda>_. Q) s"
    unfolding wp_bindM
  proof (rule wp_mono [OF secure_wp [OF assms(1)]])
    fix r s' assume "P' s'"
    then show "on_ret (\<lambda>x. wp (k x) (\<lambda>_. Q)) (\<lambda>_. Q) r s'"
      using assms(3) secure_wp [OF assms(2)] by (cases r) simp_all
  qed
qed

lemma secure_seq:
  "secure P m P' \<Longrightarrow> secure P' k Q \<Longrightarrow> (\<And>s. P' s \<Longrightarrow> Q s) \<Longrightarrow> secure P (seqM m k) Q"
  unfolding seqM_def by (rule secure_bind)

lemma secure_catch:
  assumes "secure P m P'" "\<And>e. secure P' (h e) Q" "\<And>s. P' s \<Longrightarrow> Q s"
  shows "secure P (catchM m h) Q"
proof (rule secureI)
  fix s assume "P s"
  then show "wp (catchM m h) (\<lambda>_. Q) s"
    unfolding wp_catchM
  proof (rule wp_mono [OF secure_wp [OF assms(1)]])
    fix r s' assume "P' s'"
    then show "on_raise (\<lambda>e. wp (h e) (\<lambda>_. Q)) (\<lambda>_. Q) r s'"
      using assms(3) secure_wp [OF assms(2)] by (cases r) simp_all
  qed
qed

lemma secure_ret: "(\<And>s. P s \<Longrightarrow> Q s) \<Longrightarrow> secure P (ret x) Q"
  by (simp add: secure_def ret_def)

lemma secure_raise: "(\<And>s. P s \<Longrightarrow> Q s) \<Longrightarrow> secure P (raise e) Q"
  by (simp add: secure_def raise_def)

lemma secure_finally:
  assumes "secure P m Q" "secure Q f Q"
  shows "secure P (finallyM m f) Q"
proof -
  have "secure Q (seqM f (raise e)) Q" for e :: exn
    by (rule secure_seq [OF assms(2) secure_raise])
  then have "secure P (catchM m (\<lambda>e. seqM f (raise e))) Q" by (rule secure_catch [OF assms(1)])
  then show ?thesis
    unfolding finallyM_def by (rule secure_bind) (rule secure_seq [OF assms(2) secure_ret])
qed

lemma secure_pre: "secure P m Q \<Longrightarrow> (\<And>s. P' s \<Longrightarrow> P s) \<Longrightarrow> secure P' m Q"
  by (simp add: secure_def)

text \<open>The programs that work on one grant.\<close>

lemma outside_live:
  assumes "keeps outside_only m" "keeps (on_world (touches V gid db)) m"
  shows "secure (live V gid db) m (live V gid db)"
proof (unfold secure_stable, rule keepsI)
  fix s r s' assume m: "m s = (r, s')"
  have "alike s s'" "touches V gid db (world s) (world s')"
    using keepsD [OF outside_alike [OF assms(1)] m] keepsD [OF assms(2) m] by (simp_all add: on_world_def)
  then show "stable (live V gid db) s s'"
    by (auto simp: stable_def alike_def intro: live_touches)
qed

lemma update_effect:
  assumes "opened s" "update_grant E gid fs s = (r, s')"
  shows "put gid fs s s' \<or> alike s s'"
proof -
  have "wp (update_grant E gid fs) (\<lambda>r s'. put gid fs s s' \<or> alike s s') s"
    by (rule wp_update [OF assms(1)]) simp_all
  then show ?thesis using assms(2) by (simp add: wp_def)
qed

lemma still_calm: "backend_laws E V \<Longrightarrow> calm (no_new V) E"
  by (simp add: backend_laws_def)

lemma update_no_new:
  "backend_laws E V \<Longrightarrow> update_grant E gid fs s = (r, s') \<Longrightarrow> no_new V (world s) (world s')"
  using keepsD [OF still.store_world(1) [OF still_calm]] by (fastforce simp: on_world_def)

lemma update_live:
  assumes "backend_laws E V" "\<forall>st. st \<notin> TERMINAL \<longrightarrow> last_status fs st \<notin> TERMINAL"
  shows "secure (live V gid db) (update_grant E gid fs) (live V gid db)"
proof (unfold secure_stable, rule keepsI)
  fix s r s' assume u: "update_grant E gid fs s = (r, s')"
  show "stable (live V gid db) s s'"
    unfolding stable_def
  proof
    assume l: "live V gid db s"
    then have "put gid fs s s' \<or> alike s s'"
      using u by (rule update_effect [OF inv_opened [OF live_inv]])
    then show "live V gid db s'"
      using live_put [OF l _ update_no_new [OF assms(1) u] assms(2)]
        live_no_new [OF l _ _ update_no_new [OF assms(1) u]]
      by (auto simp: alike_def)
  qed
qed

text \<open>A program that leaves the rows alone and makes no account keeps the invariant, with or without
  a grant in work.\<close>

lemma calm_secure:
  assumes "keeps alike m" "keeps (on_world (no_new V)) m"
  shows "secure (live V gid db) m (live V gid db)" "secure (account_inv V) m (account_inv V)"
proof -
  have step: "alike s s' \<and> no_new V (world s) (world s')" if "m s = (r, s')" for s r s'
    using keepsD [OF assms(1) that] keepsD [OF assms(2) that] by (simp add: on_world_def)
  show "secure (live V gid db) m (live V gid db)"
    unfolding secure_stable
    by (rule keepsI) (auto simp: stable_def alike_def dest!: step intro: live_no_new)
  show "secure (account_inv V) m (account_inv V)"
    unfolding secure_stable
    by (rule keepsI) (auto simp: stable_def alike_def dest!: step intro: inv_no_new)
qed

lemma audit_secure:
  assumes "backend_laws E V"
  shows "secure (live V gid db) (audit E rid gid' actor action result detail) (live V gid db)"
    "secure (account_inv V) (audit E rid gid' actor action result detail) (account_inv V)"
  by (intro calm_secure audit_alike still.store_world [OF still_calm [OF assms]])+

lemma teardown_steps_live:
  assumes "backend_laws E V"
  shows "secure (live V gid (g_db_type g)) (teardown_steps E gid g) (live V gid (g_db_type g))"
  by (intro outside_live outside_keeps touch.teardown_steps_world calm_touches [OF assms]
      role_touches [OF assms] own_helper)

text \<open>What holds of the state when a program returns, whatever it started from.\<close>

definition returns :: "('s, 'a) prog \<Rightarrow> ('a \<Rightarrow> 's \<Rightarrow> bool) \<Rightarrow> bool" where
  "returns m P \<longleftrightarrow> (\<forall>s x s'. m s = (Ret x, s') \<longrightarrow> P x s')"

lemma secure_returns:
  "secure P m Q \<Longrightarrow> returns m R \<Longrightarrow> P s \<Longrightarrow> wp m (\<lambda>r s'. Q s' \<and> (\<forall>x. r = Ret x \<longrightarrow> R x s')) s"
  by (auto simp: secure_def returns_def wp_def split_beta) (metis prod.collapse)

lemma returns_bind: "(\<And>x. returns (k x) P) \<Longrightarrow> returns (bindM m k) P"
  by (auto simp: returns_def bindM_def split: prod.splits outcome.splits)

lemma returns_bind_using:
  assumes "returns m P" "\<And>x s. P x s \<Longrightarrow> wp (k x) (\<lambda>r s'. \<forall>y. r = Ret y \<longrightarrow> Q y s') s"
  shows "returns (bindM m k) Q"
  using assms
  by (fastforce simp: returns_def bindM_def wp_def split: prod.splits outcome.splits)

lemma returns_seq: "returns k P \<Longrightarrow> returns (seqM m k) P"
  unfolding seqM_def by (rule returns_bind)

lemma returns_seq_stable:
  assumes "returns m (\<lambda>_. P)" "keeps (stable P) k"
  shows "returns (seqM m k) (\<lambda>_. P)"
  unfolding seqM_def
  by (rule returns_bind_using [OF assms(1)]) (auto intro: wp_keeps [OF assms(2)] simp: stable_def)

lemma no_account_stable:
  "keeps (on_world (no_new V)) m \<Longrightarrow> keeps (stable (no_account V gid db)) m"
  by (erule keeps_mono) (auto simp: on_world_def no_new_def stable_def no_account_def)

lemma call_ext_returns:
  "(\<And>w x w'. f w = (Ret x, w') \<Longrightarrow> P x w') \<Longrightarrow> returns (call_ext f) (\<lambda>x s. P x (world s))"
  by (auto simp: returns_def call_ext_def split: prod.splits)

lemma find_accounts_complete:
  assumes "backend_laws E V"
  shows "returns (find_accounts E db gid)
     (\<lambda>xs s. \<forall>a. (db, a) \<in> accounts V (world s) \<and> prefix (account_prefix gid) a \<longrightarrow> a \<in> set xs)"
proof -
  have l: "lookup_law E V" using assms by (simp add: backend_laws_def)
  have pg: "returns (call_ext (pg_texts E c PG_ACCOUNTS_SQL [account_prefix gid]))
     (\<lambda>xs s. \<forall>a. (Postgres, a) \<in> accounts V (world s) \<and> prefix (account_prefix gid) a \<longrightarrow> a \<in> set xs)" for c
    by (rule call_ext_returns) (use l in \<open>simp add: lookup_law_def\<close>)
  have ch: "returns (call_ext (ch_texts E c CH_ACCOUNTS_SQL [(''p'', account_prefix gid)]))
     (\<lambda>xs s. \<forall>a. (Clickhouse, a) \<in> accounts V (world s) \<and> prefix (account_prefix gid) a \<longrightarrow> a \<in> set xs)" for c
    by (rule call_ext_returns) (use l in \<open>simp add: lookup_law_def\<close>)
  show ?thesis
    by (cases db) (simp_all add: find_accounts_def returns_bind pg ch)
qed

lemma confirm_gone_returns:
  assumes "backend_laws E V"
  shows "returns (confirm_gone E db gid) (\<lambda>_. no_account V gid db)"
  unfolding confirm_gone_def
  by (rule returns_bind_using [OF find_accounts_complete [OF assms]])
     (auto simp: wp_raise wp_ret no_account_def)

text \<open>Nothing that could make an account runs after the check.\<close>

lemma teardown_steps_gone:
  assumes "backend_laws E V"
  shows "returns (teardown_steps E gid g) (\<lambda>_. no_account V gid (g_db_type g))"
  unfolding teardown_steps_def
  by (intro returns_bind returns_seq returns_seq_stable [OF confirm_gone_returns [OF assms]]
      no_account_stable still.lifted.seq still.lifted.loop still.client_world [OF still_calm [OF assms]])

lemma update_final:
  assumes "backend_laws E V"
  shows "secure (\<lambda>s. live V gid db s \<and> no_account V gid db s) (update_grant E gid fs) (account_inv V)"
proof (rule secureI, rule wp_intro)
  fix s r s' assume l: "live V gid db s \<and> no_account V gid db s" and u: "update_grant E gid fs s = (r, s')"
  then have "opened s" by (blast intro: inv_opened live_inv)
  then have "put gid fs s s' \<or> alike s s'" using u by (rule update_effect)
  then show "account_inv V s'"
    using l inv_put [of V gid db s fs s'] inv_no_new [of V s s'] update_no_new [OF assms u] live_inv [of V gid db s]
    by (auto simp: alike_def)
qed

lemma teardown_finished_secure:
  assumes "backend_laws E V"
  shows "secure (\<lambda>s. live V gid db s \<and> no_account V gid db s) (teardown_finished E gid final rid actor) (account_inv V)"
  unfolding teardown_finished_def
  by (rule secure_seq [OF update_final [OF assms] audit_secure(2) [OF assms]])

lemma teardown_failed_secure:
  assumes "backend_laws E V"
  shows "secure (live V gid db) (teardown_failed E gid rid actor re e) (live V gid db)"
proof -
  have "secure (live V gid db) (if re then raise e else ret False) (live V gid db)"
    by (simp add: secure_ret secure_raise)
  then show ?thesis
    unfolding teardown_failed_def
    by (intro secure_seq [where P' = "live V gid db"] update_live audit_secure assms) simp_all
qed

lemma teardown_failed_returns: "returns (teardown_failed E gid rid actor re e) (\<lambda>c _. \<not> c)"
  unfolding teardown_failed_def
  by (intro returns_seq) (simp add: returns_def ret_def raise_def)

lemma teardown_secure:
  assumes "backend_laws E V"
  shows "secure (live V gid db) (teardown E gid final rid actor re) (account_inv V)"
proof (rule secureI)
  fix s assume l: "live V gid db s"
  obtain g where g: "rows s gid = Some g" "g_db_type g = db" using l by (rule liveE)
  let ?L = "live V gid db" and ?I = "\<lambda>_ :: unit outcome. account_inv V"
  let ?K = "on_ret (\<lambda>clean. wp (if clean then teardown_finished E gid final rid actor else skip) ?I) ?I"
  have steps: "wp (teardown_steps E gid g) (\<lambda>r s1. ?L s1 \<and> (\<forall>x. r = Ret x \<longrightarrow> no_account V gid db s1)) s"
    using secure_returns [OF teardown_steps_live [OF assms] teardown_steps_gone [OF assms]] l g(2) by blast
  have "wp (try_except (seqM (teardown_steps E gid g) (ret True)) is_exception
              (teardown_failed E gid rid actor re)) ?K s"
    unfolding wp_try_except wp_seqM
  proof (rule wp_mono [OF steps])
    fix r s1 assume a: "?L s1 \<and> (\<forall>x. r = Ret x \<longrightarrow> no_account V gid db s1)"
    have "wp (teardown_failed E gid rid actor re e) ?K s1" for e
    proof (rule wp_mono)
      show "wp (teardown_failed E gid rid actor re e) (\<lambda>r s2. ?L s2 \<and> (\<forall>c. r = Ret c \<longrightarrow> \<not> c)) s1"
        using secure_returns [OF teardown_failed_secure [OF assms] teardown_failed_returns] a by blast
      fix r s2 assume "?L s2 \<and> (\<forall>c. r = Ret c \<longrightarrow> \<not> c)"
      then show "?K r s2" by (cases r) (auto simp: wp_ret intro: live_inv)
    qed
    then show "on_ret (\<lambda>_. wp (ret True) (on_raise (\<lambda>e s. if is_exception e
          then wp (teardown_failed E gid rid actor re e) ?K s else ?K (Raise e) s) ?K))
       (on_raise (\<lambda>e s. if is_exception e then wp (teardown_failed E gid rid actor re e) ?K s
          else ?K (Raise e) s) ?K) r s1"
      using a secure_wp [OF teardown_finished_secure [OF assms]]
      by (cases r) (auto simp: wp_ret intro: live_inv)
  qed
  then show "wp (teardown E gid final rid actor re) ?I s"
    using g inv_opened [OF live_inv [OF l]]
    by (simp add: teardown_def wp_bindM [of "get_grant gid"] wp_get_grant flip: rows_apply) (simp add: wp_bindM)
qed

lemma secure_bind_ret:
  assumes "\<And>s. P s \<Longrightarrow> wp m (\<lambda>r s'. Q s' \<and> (\<forall>x. r = Ret x \<longrightarrow> P' x s')) s"
    and "\<And>x. secure (P' x) (k x) Q"
  shows "secure P (bindM m k) Q"
proof (rule secureI)
  fix s assume "P s"
  then show "wp (bindM m k) (\<lambda>_. Q) s"
    unfolding wp_bindM
  proof (rule wp_mono [OF assms(1)])
    fix r s' assume "Q s' \<and> (\<forall>x. r = Ret x \<longrightarrow> P' x s')"
    then show "on_ret (\<lambda>x. wp (k x) (\<lambda>_. Q)) (\<lambda>_. Q) r s'"
      using secure_wp [OF assms(2)] by (cases r) simp_all
  qed
qed

text \<open>A fresh id has no account and no role yet, so the new row starts from a clean state.\<close>

lemma inv_insert:
  assumes inv: "account_inv V s" and ok: "grant_id_ok gid" and new: "rows s gid = None"
    and g: "g_status g \<notin> TERMINAL"
    and s': "opened s'" "rows s' = (rows s)(gid \<mapsto> g)" "no_new V (world s) (world s')"
  shows "live V gid (g_db_type g) s'"
proof -
  have "account_inv V (s'\<lparr>world := world s\<rparr>)"
  proof (rule account_invI)
    show "opened (s'\<lparr>world := world s\<rparr>)" using s' by simp
    show "grant_id_ok i" if "rows (s'\<lparr>world := world s\<rparr>) i = Some h" for i h
      using that s' ok inv_id [OF inv] by (auto split: if_splits)
    fix i d x assume i: "grant_id_ok i"
    show "\<exists>h. rows (s'\<lparr>world := world s\<rparr>) i = Some h \<and> g_status h \<notin> TERMINAL \<and> g_db_type h = d"
      if a: "(d, x) \<in> accounts V (world (s'\<lparr>world := world s\<rparr>))" "prefix (account_prefix i) x"
      using inv_account [OF inv i _ a(2), of d] a(1) new s' by auto
    show "\<exists>h. rows (s'\<lparr>world := world s\<rparr>) i = Some h \<and> g_db_type h = d"
      if a: "(x, d) \<in> roles V (world (s'\<lparr>world := world s\<rparr>))" "own i x"
      using inv_role [OF inv i _ a(2), of d] a(1) new s' by auto
  qed
  then have "account_inv V s'" by (rule inv_no_new) (use s' in simp_all)
  then show ?thesis using s' g by (simp add: live_def)
qed

lemma insert_effect:
  assumes "opened s"
  shows "wp (insert_grant E n) (\<lambda>r s'. alike s s' \<and> (\<forall>x. r \<noteq> Ret x)
           \<or> rows s (n_id n) = None \<and> opened s' \<and> (\<exists>t. rows s' = (rows s)(n_id n \<mapsto> grant_row n t))) s"
proof -
  have "wp (seqM (insert_grant E n) skip) (\<lambda>r s'. alike s s' \<and> (\<forall>x. r \<noteq> Ret x)
           \<or> rows s (n_id n) = None \<and> opened s' \<and> (\<exists>t. rows s' = (rows s)(n_id n \<mapsto> grant_row n t))) s"
    using here_start [OF assms]
    by (rule step_insert) (use assms in \<open>auto simp: wp_ret here_def alike_def\<close>)
  then show ?thesis by (simp only: seqM_skip)
qed

lemma insert_secure:
  assumes "backend_laws E V" "grant_id_ok (n_id n)" "account_inv V s"
  shows "wp (insert_grant E n)
     (\<lambda>r s'. account_inv V s' \<and> (\<forall>x. r = Ret x \<longrightarrow> live V (n_id n) (n_db_type n) s')) s"
proof (rule wp_intro)
  fix r s' assume m: "insert_grant E n s = (r, s')"
  have w: "no_new V (world s) (world s')"
    using keepsD [OF still.store_world(2) [OF still_calm [OF assms(1)]] m] by (simp add: on_world_def)
  have "alike s s' \<and> (\<forall>x. r \<noteq> Ret x)
       \<or> rows s (n_id n) = None \<and> opened s' \<and> (\<exists>t. rows s' = (rows s)(n_id n \<mapsto> grant_row n t))"
    using insert_effect [OF inv_opened [OF assms(3)], where E = E and n = n] m by (simp add: wp_def)
  then show "account_inv V s' \<and> (\<forall>x. r = Ret x \<longrightarrow> live V (n_id n) (n_db_type n) s')"
  proof
    assume "alike s s' \<and> (\<forall>x. r \<noteq> Ret x)"
    then show ?thesis using inv_no_new [OF assms(3) _ _ w] by (simp add: alike_def)
  next
    assume "rows s (n_id n) = None \<and> opened s' \<and> (\<exists>t. rows s' = (rows s)(n_id n \<mapsto> grant_row n t))"
    then obtain t where t: "rows s (n_id n) = None" "opened s'" "rows s' = (rows s)(n_id n \<mapsto> grant_row n t)"
      by blast
    have "live V (n_id n) (g_db_type (grant_row n t)) s'"
      by (rule inv_insert [OF assms(3,2) t(1) _ t(2,3) w]) (simp add: grant_row_def)
    then show ?thesis by (simp add: live_inv grant_row_def)
  qed
qed

lemma issue_steps_live:
  assumes "backend_laws E V" "rq_db_type req = db"
  shows "secure (live V gid db) (issue_steps E req gid cs rs) (live V gid db)"
proof -
  note c = calm_touches [OF assms(1)] and r = role_touches [OF assms(1) own_self]
  have out: "secure (live V gid db) (write_role E gid (rq_db_type req) cs rs n) (live V gid db)"
    "secure (live V gid db) (point E name) (live V gid db)"
    "secure (live V gid db) (create_grant_token E n gid) (live V gid db)"
    "secure (live V gid db) (read_credentials E tok gid) (live V gid db)"
    "secure (live V gid db) (now E) (live V gid db)" for n name tok
    unfolding assms(2)
    by (intro outside_live outside_keeps touch.role_world [OF c r] touch.faults_world c touch.client_world
        touch.calm_calls)+
  show ?thesis
    unfolding issue_steps_def
    by (intro secure_seq [where P' = "live V gid db"] secure_bind [where P' = "live V gid db"] out
        update_live assms(1) secure_ret; (clarify, intro secure_seq [where P' = "live V gid db"] secure_bind [where P' = "live V gid db"] out
        update_live assms(1) secure_ret)?; simp)
qed

lemma issue_failed_secure:
  assumes "backend_laws E V"
  shows "secure (live V gid db) (issue_failed E gid actor rid e) (account_inv V)"
  unfolding issue_failed_def
  by (rule secure_seq [OF audit_secure(1) [OF assms] secure_seq [OF teardown_secure [OF assms] secure_raise]])
     (auto intro: live_inv)

lemma issue_locked_secure:
  assumes "backend_laws E V" "grant_id_ok gid"
  shows "secure (account_inv V) (issue_locked E req actor rid gid cs rs) (account_inv V)"
proof -
  let ?db = "rq_db_type req"
  have body: "secure (live V gid ?db) (catchM (issue_steps E req gid cs rs) (issue_failed E gid actor rid))
      (account_inv V)"
    by (rule secure_catch [OF issue_steps_live [OF assms(1) HOL.refl] issue_failed_secure [OF assms(1)] live_inv])
  have ins: "wp (insert_grant E (new_row req actor gid))
      (\<lambda>r s'. account_inv V s' \<and> (\<forall>x. r = Ret x \<longrightarrow> live V gid ?db s')) s" if "account_inv V s" for s
    using insert_secure [OF assms(1) _ that, of "new_row req actor gid"] assms(2) by (simp add: new_row_def)
  have ok: "secure (account_inv V) (seqM (audit E rid' gid' a b c d) (ret x)) (account_inv V)"
    for rid' gid' a b c d and x :: creds
    by (rule secure_seq [OF audit_secure(2) [OF assms(1)] secure_ret])
  show ?thesis
    unfolding issue_locked_def seqM_def [of "insert_grant E (new_row req actor gid)"]
    by (rule secure_bind_ret [OF ins], assumption, rule secure_bind [OF body ok])
qed

text \<open>The lock and in-flight bookkeeping is invisible to the invariant.\<close>

lemma same_view:
  assumes "opened s' = opened s" "disk s' = disk s" "world s' = world s"
  shows "account_inv V s' = account_inv V s" "live V gid db s' = live V gid db s"
  using assms by (simp_all add: account_inv_def live_def rows_def row_def)

lemma control_view [simp]:
  "account_inv V (s\<lparr>locks := l, inflight := f\<rparr>) = account_inv V s"
  "account_inv V (s\<lparr>inflight := f, locks := l\<rparr>) = account_inv V s"
  "live V gid db (s\<lparr>locks := l, inflight := f\<rparr>) = live V gid db s"
  by (rule same_view; simp)+

lemma begin_secure:
  "secure (live V gid db) (begin_op d i) (live V gid db)" "secure (account_inv V) (begin_op d i) (account_inv V)"
  by (simp_all add: secure_def begin_op_def bindM_def gets_def raise_def modify_def)

lemma end_secure: "secure (account_inv V) (end_op d i) (account_inv V)"
  by (simp add: secure_def end_op_def modify_def)

lemma outside_secure:
  assumes "backend_laws E V" "keeps outside_only m" "keeps (on_world (no_new V)) m"
  shows "secure (account_inv V) m (account_inv V)"
  by (rule calm_secure(2) [OF outside_alike [OF assms(2)] assms(3)])

lemma new_grant_id_secure:
  assumes "backend_laws E V" "account_inv V s"
  shows "wp (new_grant_id E) (\<lambda>r s'. account_inv V s' \<and> (\<forall>x. r = Ret x \<longrightarrow> account_inv V s' \<and> grant_id_ok x)) s"
proof (rule wp_intro)
  fix r s' assume m: "new_grant_id E s = (r, s')"
  have "keeps (on_world (no_new V)) (new_grant_id E)"
    unfolding new_grant_id_def by (intro still.lifted.rules still.calm_calls still_calm assms(1))
  then have "account_inv V s'"
    using outside_secure [OF assms(1) new_grant_id_outside] assms(2) m
    unfolding secure_def by (metis snd_conv)
  moreover have "grant_id_ok x" if "r = Ret x" for x
  proof -
    have l: "hex_law E" using assms(1) by (simp add: backend_laws_def)
    have "x = ROLE_PREFIX @ fst (token_hex E 5 (world s))"
      using m that by (auto simp: new_grant_id_def bindM_def draw_hex_def call_ext_def ret_def split: prod.splits)
    then show ?thesis using l by (auto simp: grant_id_ok_def hex_law_def)
  qed
  ultimately show "account_inv V s' \<and> (\<forall>x. r = Ret x \<longrightarrow> account_inv V s' \<and> grant_id_ok x)" by simp
qed

lemma public_of_secure: "secure (account_inv V) (public_of gid) (account_inv V)"
  by (auto simp: secure_def public_of_def get_grant_def query_def bindM_def raise_def ret_def
      split: option.split)

lemma issue_secure:
  assumes "backend_laws E V"
  shows "secure (account_inv V) (issue E req actor rid) (account_inv V)"
proof -
  let ?I = "account_inv V"
  note c = still_calm [OF assms]
  have locked: "secure ?I (seqM (begin_op (rq_db_type req) gid)
     (bindM (finallyM (issue_locked E req actor rid gid cs rs) (end_op (rq_db_type req) gid)) (\<lambda>creds.
      bindM (public_of gid) (\<lambda>out. ret (out, c_password creds))))) ?I" if "grant_id_ok gid" for gid cs rs
    by (intro secure_seq [where P' = ?I] secure_bind [where P' = ?I] begin_secure public_of_secure
        secure_finally issue_locked_secure [OF assms that] end_secure secure_ret)
  have id: "secure ?I (bindM (new_grant_id E) (\<lambda>gid. seqM (begin_op (rq_db_type req) gid)
     (bindM (finallyM (issue_locked E req actor rid gid cs rs) (end_op (rq_db_type req) gid)) (\<lambda>creds.
      bindM (public_of gid) (\<lambda>out. ret (out, c_password creds)))))) ?I" for cs rs
  proof (rule secure_bind_ret [OF new_grant_id_secure [OF assms]], assumption)
    fix x show "secure (\<lambda>s. ?I s \<and> grant_id_ok x) (seqM (begin_op (rq_db_type req) x)
     (bindM (finallyM (issue_locked E req actor rid x cs rs) (end_op (rq_db_type req) x)) (\<lambda>creds.
      bindM (public_of x) (\<lambda>out. ret (out, c_password creds))))) ?I"
      using locked [of x] by (simp add: secure_def)
  qed
  have pre: "secure ?I (lift r) ?I" "secure ?I (catalog E db) ?I" "secure ?I (mutate_statements E sts) ?I" for r db sts
    by (intro outside_secure [OF assms] outside.lift outside_keeps still.lifted.lift still.introspect_world
        still.faults_world c)+
  show ?thesis
    unfolding issue_def
    by (intro secure_seq [OF pre(1)] secure_bind [OF pre(2)] secure_bind [OF pre(1)]; clarify?;
        (intro secure_bind [OF pre(3)] id)?)
qed

text \<open>A row that is read and not final makes the state one with a grant in work.\<close>

lemma read_live:
  assumes "account_inv V s"
  shows "wp (get_grant gid) (\<lambda>r s'. account_inv V s' \<and> (\<forall>x. r = Ret x \<longrightarrow> account_inv V s' \<and> rows s' gid = x)) s"
  using assms inv_opened [OF assms] by (simp add: wp_get_grant rows_apply)

lemma revoke_locked_secure:
  assumes "backend_laws E V"
  shows "secure (live V gid db) (revoke_locked E gid actor rid) (account_inv V)"
  unfolding revoke_locked_def
  by (intro secure_seq [where P' = "live V gid db"] update_live audit_secure teardown_secure assms live_inv) simp_all

lemma revoke_secure:
  assumes "backend_laws E V"
  shows "secure (account_inv V) (revoke E gid actor rid) (account_inv V)"
  unfolding revoke_def terminal_set
proof (rule secure_bind_ret [OF read_live], assumption)
  fix x
  let ?P = "\<lambda>s. account_inv V s \<and> rows s gid = x"
  show "secure ?P (case x of None \<Rightarrow> raise (Exn NotFound gid)
     | Some g \<Rightarrow> if g_status g \<in> TERMINAL then ret (public g)
         else seqM (begin_op (g_db_type g) gid)
              (seqM (finallyM (revoke_locked E gid actor rid) (end_op (g_db_type g) gid)) (public_of gid)))
     (account_inv V)"
  proof (cases x)
    case None
    then show ?thesis by (auto intro!: secure_raise)
  next
    case (Some g)
    have "secure (live V gid (g_db_type g)) (seqM (begin_op (g_db_type g) gid)
            (seqM (finallyM (revoke_locked E gid actor rid) (end_op (g_db_type g) gid)) (public_of gid)))
            (account_inv V)"
      by (rule secure_seq [OF begin_secure(1) secure_seq [OF
            secure_finally [OF revoke_locked_secure [OF assms] end_secure] public_of_secure] live_inv])
    then have "secure ?P (seqM (begin_op (g_db_type g) gid)
            (seqM (finallyM (revoke_locked E gid actor rid) (end_op (g_db_type g) gid)) (public_of gid)))
            (account_inv V)" if "g_status g \<notin> TERMINAL"
      by (rule secure_pre) (use Some that in \<open>simp add: live_def\<close>)
    then show ?thesis using Some by (auto intro: secure_ret)
  qed
qed

lemma reconcile_locked_secure:
  assumes "backend_laws E V"
  shows "secure (account_inv V) (reconcile_locked E gid) (account_inv V)"
  unfolding reconcile_locked_def
proof (rule secure_bind_ret [OF read_live], assumption)
  fix x
  let ?P = "\<lambda>s. account_inv V s \<and> rows s gid = x"
  show "secure ?P (case x of None \<Rightarrow> skip
     | Some g \<Rightarrow> bindM (now E) (\<lambda>t. case final_for g t of None \<Rightarrow> skip
         | Some final \<Rightarrow> teardown E gid final None ''system'' False)) (account_inv V)"
  proof (cases x)
    case None
    then show ?thesis by (auto intro!: secure_ret)
  next
    case (Some g)
    have now: "secure ?P (now E) ?P"
    proof (rule secureI, rule wp_intro)
      fix s r s' assume p: "account_inv V s \<and> rows s gid = x" and m: "now E s = (r, s')"
      have "alike s s'" "no_new V (world s) (world s')"
        using keepsD [OF outside_alike [OF world_programs_outside(1)] m]
          keepsD [OF still.calm_calls(1) [OF still_calm [OF assms]] m] by (simp_all add: on_world_def)
      then show "account_inv V s' \<and> rows s' gid = x" using p by (auto simp: alike_def intro: inv_no_new)
    qed
    have td: "secure ?P (teardown E gid final None ''system'' False) (account_inv V)"
      if "final_for g t = Some final" for t final
      by (rule secure_pre [OF teardown_secure [OF assms, where db = "g_db_type g"]])
        (use Some final_for_moves [OF that] in \<open>auto simp: live_def dest: moves_terminal\<close>)
    have due: "secure ?P (case final_for g t of None \<Rightarrow> skip
         | Some final \<Rightarrow> teardown E gid final None ''system'' False) (account_inv V)" for t
      using td by (auto intro: secure_ret split: option.split)
    have "secure ?P (bindM (now E) (\<lambda>t. case final_for g t of None \<Rightarrow> skip
         | Some final \<Rightarrow> teardown E gid final None ''system'' False)) (account_inv V)"
      by (rule secure_bind [OF now due]) simp
    then show ?thesis by (simp add: Some)
  qed
qed

lemma reconcile_one_secure:
  assumes "backend_laws E V"
  shows "secure (account_inv V) (reconcile_one E gid) (account_inv V)"
  unfolding reconcile_one_def
proof (rule secure_bind_ret [OF read_live], assumption)
  fix x :: "grant option"
  have "secure (account_inv V) (case x of None \<Rightarrow> skip
      | Some g \<Rightarrow> seqM (begin_op (g_db_type g) gid)
          (finallyM (reconcile_locked E gid) (end_op (g_db_type g) gid))) (account_inv V)"
    by (cases x) (auto intro: secure_ret secure_seq [OF begin_secure(2)] secure_finally
        reconcile_locked_secure [OF assms] end_secure)
  then show "secure (\<lambda>s. account_inv V s \<and> rows s gid = x) (case x of None \<Rightarrow> skip
      | Some g \<Rightarrow> seqM (begin_op (g_db_type g) gid)
          (finallyM (reconcile_locked E gid) (end_op (g_db_type g) gid))) (account_inv V)"
    by (rule secure_pre) simp
qed

lemma calm_inv:
  "keeps alike m \<Longrightarrow> keeps (on_world (no_new V)) m \<Longrightarrow> keeps (stable (account_inv V)) m"
  using calm_secure(2) by (simp add: secure_stable)

lemma report_orphans_world:
  assumes "backend_laws E V"
  shows "keeps (on_world (no_new V)) (report_orphans E)"
  unfolding report_orphans_def orphan_scan_def
  by (intro still.lifted.rules still.store_world [OF still_calm [OF assms]]
      still.introspect_world [OF still_calm [OF assms]])

lemma reconcile_once_secure:
  assumes "backend_laws E V"
  shows "secure (account_inv V) (reconcile_once E) (account_inv V)"
proof -
  note c = still_calm [OF assms]
  have quiet_one: "keeps (stable (account_inv V)) (quiet (reconcile_one E i))" for i
    using reconcile_one_secure [OF assms] by (intro quiet_keeps stable.frame_axioms) (simp add: secure_stable)
  have tail: "keeps (stable (account_inv V)) (now E)"
    "keeps (stable (account_inv V)) (list_by_status sts)"
    "keeps (stable (account_inv V)) (purge_sessions E)"
    "keeps (stable (account_inv V)) (revoke_token_quietly E tok)"
    "keeps (stable (account_inv V)) (report_orphans E)" for sts tok
    by (intro calm_inv purge_alike report_orphans_alike outside_alike outside_keeps
        still.calm_calls [OF c] still.store_world [OF c] still.client_world [OF c] report_orphans_world [OF assms])+
  show ?thesis
    unfolding secure_stable reconcile_once_def reconcile_row_def
    by (intro stable.rules quiet_one tail)
qed

end
