(* ===== verification/Operations.thy ===== *)
theory Operations
  imports Pages Safety
begin

text \<open>
  The portal as a state machine: its steps are the HTTP requests a browser or an API client can make, the
  rounds of the reconciler, a crash with the restart after it, and what the world does by itself. The
  invariants of the parts become invariants of every history of such steps.
\<close>

section \<open>Frames of the handlers\<close>

definition same_rows :: "'w sys \<Rightarrow> 'w sys \<Rightarrow> bool" where
  "same_rows s s' \<longleftrightarrow> opened s' = opened s \<and> rows s' = rows s"

interpretation same_rows: frame same_rows
  by unfold_locales (auto simp: same_rows_def)

lemma alike_same_rows: "keeps alike m \<Longrightarrow> keeps same_rows m"
  by (erule keeps_mono) (simp add: alike_def same_rows_def)

lemma outside_same_rows: "keeps outside_only m \<Longrightarrow> keeps same_rows m"
  by (intro alike_same_rows outside_alike)

text \<open>Admission does not matter to a relation that does not look at the semaphores.\<close>

lemma admit_frame:
  assumes "frame R" "\<And>s f. R s (s\<lparr>slots := f\<rparr>)" "keeps R m"
  shows "keeps R (admit k m)"
  unfolding admit_def
  by (intro frame.rules [OF assms(1)] assms(3) keeps_modify assms(2))

lemma rows_slots [simp]: "rows (s\<lparr>slots := f\<rparr>) = rows s"
  by (simp add: rows_def row_def)

lemma admit_same_rows: "keeps same_rows m \<Longrightarrow> keeps same_rows (admit k m)"
  by (rule admit_frame [OF same_rows.frame_axioms]) (simp_all add: same_rows_def)

lemma busy_frame: "frame R \<Longrightarrow> keeps R m \<Longrightarrow> keeps R (busy_503 m)"
  by (simp add: busy_503_def frame.try_exc frame.raise)

lemma session_same_rows:
  "keeps same_rows (audit E rid gid actor action result detail)"
  "keeps same_rows (create_session E u v)" "keeps same_rows (touch_session E sid b)"
  "keeps same_rows (delete_session E sid)"
  by (intro alike_same_rows alike_of_rows audit_rows session_rows store_control)+

lemmas same_rows_intros = same_rows.rules session_same_rows admit_same_rows
  busy_frame [OF same_rows.frame_axioms] outside_same_rows outside_keeps

lemma end_session_same_rows: "keeps same_rows (end_session E sid x)"
  unfolding end_session_def by (intro same_rows_intros)

lemma login_page_same_rows: "keeps same_rows (login_page E rid msg n u)"
  unfolding login_page_def by (intro same_rows_intros)

lemma handlers_same_rows:
  "keeps same_rows (require_admin E ip_check r)" "keeps same_rows (login_submit E ip_check r)"
  "keeps same_rows (do_logout E r x)" "keeps same_rows (rotate_connection E r x db)"
  "keeps same_rows (index_page E err)" "keeps same_rows (api_list_tables E db)"
  "keeps same_rows api_list_grants" "keeps same_rows (login_form E r)"
  unfolding login_form_def require_admin_def current_session_def use_session_def recheck_def login_submit_def Let_def
    do_login_def open_session_def replace_session_def do_logout_def rotate_connection_def index_page_def
    index_tables_def api_list_tables_def api_list_grants_def
  by (intro same_rows_intros end_session_same_rows login_page_same_rows)+

context world_frame
begin

lemma admit_world: "keeps (on_world W) m \<Longrightarrow> keeps (on_world W) (admit k m)"
  by (rule admit_frame [OF lifted.frame_axioms]) (simp_all add: on_world_def W_refl)

lemma busy_world: "keeps (on_world W) m \<Longrightarrow> keeps (on_world W) (busy_503 m)"
  by (rule busy_frame [OF lifted.frame_axioms])

lemma handlers_world:
  assumes "calm W E"
  shows "keeps (on_world W) (require_admin E ip_check r)" "keeps (on_world W) (login_submit E ip_check r)"
    "keeps (on_world W) (do_logout E r x)" "keeps (on_world W) (rotate_connection E r x db)"
    "keeps (on_world W) (index_page E err)" "keeps (on_world W) (api_list_tables E db)"
    "keeps (on_world W) api_list_grants" "keeps (on_world W) (login_form E r)"
  unfolding login_form_def require_admin_def current_session_def use_session_def recheck_def end_session_def
    login_submit_def Let_def login_page_def
    do_login_def open_session_def replace_session_def do_logout_def rotate_connection_def index_page_def
    index_tables_def api_list_tables_def api_list_grants_def
  by (intro lifted.rules admit_world busy_world calm_calls [OF assms] client_world [OF assms]
      store_world [OF assms] introspect_world [OF assms])+

end

section \<open>The portal's steps\<close>

text \<open>
  \<open>C\<close> says what the world may do by itself (leases run out, an operator drops an account).
\<close>

inductive step :: "'w env \<Rightarrow> ('w \<Rightarrow> 'w \<Rightarrow> bool) \<Rightarrow> 'w sys \<Rightarrow> 'w sys \<Rightarrow> bool"
  for E :: "'w env" and C :: "'w \<Rightarrow> 'w \<Rightarrow> bool" where
  request: "step E C s (snd (portal E ip_check r s))"
| reconcile: "step E C s (snd (reconcile_once E s))"
| crash: "step E C s (restart s)"
| outside: "C (world s) w \<Longrightarrow> step E C s (s\<lparr>world := w\<rparr>)"

inductive_cases step_cases: "step E C s s'"

text \<open>Every history keeps a relation that the handlers, the reconciler, a crash and the world keep.\<close>

lemma step_frame:
  assumes pages: "page_frame R E"
    and reconcile: "keeps R (reconcile_once E)"
    and crash: "\<And>s. R s (restart s)"
    and outside: "\<And>s w. C (world s) w \<Longrightarrow> R s (s\<lparr>world := w\<rparr>)"
    and steps: "(step E C)\<^sup>*\<^sup>* s s'"
  shows "R s s'"
  using steps
proof (induction rule: rtranclp_induct)
  case base
  show ?case by (rule frame.refl [OF page_frame.axioms(1) [OF pages]])
next
  case (step t u)
  have all: "R t (snd (portal E ip_check r t))" "R t (snd (reconcile_once E t))" for ip_check r
    using page_frame.request [OF pages] reconcile by (simp_all add: keeps_def)
  from step.hyps(2) have "R t u" by (elim step_cases) (simp_all add: all crash outside)
  then show ?case using step.IH frame.trans [OF page_frame.axioms(1) [OF pages]] by blast
qed

section \<open>Grants only follow their life cycle\<close>

lemma restart_rows [simp]: "rows (restart s) = rows s" "opened (restart s)"
  by (simp_all add: restart_def rows_def row_def)

lemma same_rows_evolves: "keeps same_rows m \<Longrightarrow> keeps evolves m"
  by (erule keeps_mono) (simp add: same_rows_def evolves_same)

interpretation evolves_pages: page_frame evolves E for E
  by unfold_locales
     (auto simp: evolves_def [of _ "_\<lparr>slots := _\<rparr>"]
        intro: issue_evolves revoke_evolves same_rows_evolves handlers_same_rows)

lemma history_evolves: "(step E C)\<^sup>*\<^sup>* s s' \<Longrightarrow> evolves s s'"
  by (erule step_frame [OF evolves_pages.page_frame_axioms reconcile_once_evolves, rotated 2])
     (auto simp: evolves_def)

section \<open>The audit table only grows\<close>

definition audit_kept :: "'w sys \<Rightarrow> 'w sys \<Rightarrow> bool" where
  "audit_kept s s' \<longleftrightarrow> prefix (audit_tab (disk s)) (audit_tab (disk s'))"

interpretation audit_kept: frame audit_kept
  by unfold_locales (auto simp: audit_kept_def intro: prefix_order.order_trans)

lemma history_audit: "keeps history_kept m \<Longrightarrow> keeps audit_kept m"
  by (erule keeps_mono) (simp add: history_kept_def audit_kept_def)

lemma insert_audit: "keeps audit_kept (insert_grant E n)"
  unfolding insert_grant_def
  by (rule audit_kept.bind [OF history_audit [OF outside_history [OF world_programs_outside(1)]]], rule keeps_tx)
     (auto simp: audit_kept_def db_insert_grant_def split: option.splits)

lemma control_audit: "keeps audit_kept (begin_op db gid)" "keeps audit_kept (end_op db gid)"
  unfolding begin_op_def end_op_def
  by (intro audit_kept.rules keeps_modify; simp add: audit_kept_def)+

lemma outside_audit: "keeps outside_only m \<Longrightarrow> keeps audit_kept m"
  by (intro history_audit outside_history)

lemmas audit_intros = audit_kept.rules insert_audit control_audit
  history_audit [OF audit_rows(2)] history_audit [OF update_grant_history]
  history_audit [OF session_rows(2)] history_audit [OF session_rows(4)] history_audit [OF session_rows(6)]
  history_audit [OF session_rows(8)]
  busy_frame [OF audit_kept.frame_axioms] quiet_keeps [OF audit_kept.frame_axioms] outside_audit outside_keeps

lemma admit_audit: "keeps audit_kept m \<Longrightarrow> keeps audit_kept (admit k m)"
  by (rule admit_frame [OF audit_kept.frame_axioms]) (simp_all add: audit_kept_def)

lemma public_of_audit: "keeps audit_kept (public_of gid)"
  unfolding public_of_def by (intro audit_intros)

lemma teardown_audit: "keeps audit_kept (teardown E gid final rid actor re)"
  unfolding teardown_def teardown_failed_def teardown_finished_def by (intro audit_intros)

lemma issue_locked_audit: "keeps audit_kept (issue_locked E req actor rid gid cs rs)"
  unfolding issue_locked_def issue_failed_def issue_steps_def
  by (intro audit_intros teardown_audit)

lemma operations_audit:
  "keeps audit_kept (issue E req actor rid)" "keeps audit_kept (revoke E gid actor rid)"
  "keeps audit_kept (reconcile_one E gid)"
proof -
  show "keeps audit_kept (issue E req actor rid)"
    unfolding issue_def by (intro audit_intros issue_locked_audit public_of_audit new_grant_id_outside)
  show "keeps audit_kept (revoke E gid actor rid)"
    unfolding revoke_def revoke_locked_def by (intro audit_intros teardown_audit public_of_audit)
  show "keeps audit_kept (reconcile_one E gid)"
    unfolding reconcile_one_def reconcile_locked_def by (intro audit_intros teardown_audit)
qed

lemma reconcile_once_audit: "keeps audit_kept (reconcile_once E)"
  unfolding reconcile_once_def reconcile_row_def report_orphans_def orphan_scan_def
  by (intro audit_intros operations_audit)

lemma handlers_audit:
  "keeps audit_kept (require_admin E ip_check r)" "keeps audit_kept (login_submit E ip_check r)"
  "keeps audit_kept (do_logout E r x)" "keeps audit_kept (rotate_connection E r x db)"
  "keeps audit_kept (index_page E err)" "keeps audit_kept (api_list_tables E db)"
  "keeps audit_kept api_list_grants" "keeps audit_kept (login_form E r)"
  unfolding login_form_def require_admin_def current_session_def use_session_def recheck_def end_session_def
    login_submit_def Let_def login_page_def
    do_login_def open_session_def replace_session_def do_logout_def rotate_connection_def index_page_def
    index_tables_def api_list_tables_def api_list_grants_def
  by (intro audit_intros admit_audit)+

interpretation audit_pages: page_frame audit_kept E for E
  by unfold_locales (auto simp: audit_kept_def [of _ "_\<lparr>slots := _\<rparr>"] intro: operations_audit handlers_audit)

lemma audit_history: "(step E C)\<^sup>*\<^sup>* s s' \<Longrightarrow> audit_kept s s'"
  by (erule step_frame [OF audit_pages.page_frame_axioms reconcile_once_audit, rotated 2])
     (auto simp: audit_kept_def restart_def)

section \<open>No account survives its grant\<close>

lemma inv_same_rows:
  "keeps same_rows m \<Longrightarrow> keeps (on_world (no_new V)) m \<Longrightarrow> keeps (stable (account_inv V)) m"
  unfolding keeps_def stable_def same_rows_def on_world_def by (metis inv_no_new)

lemma stable_of_secure: "secure P m P \<Longrightarrow> keeps (stable P) m"
  by (simp add: secure_stable)

lemma inv_pages:
  assumes "backend_laws E V"
  shows "page_frame (stable (account_inv V)) E"
proof
  show "stable (account_inv V) s (s\<lparr>slots := f\<rparr>)" for s f
    unfolding stable_def using same_view(1) [of "s\<lparr>slots := f\<rparr>" s] by simp
qed (rule stable_of_secure [OF issue_secure [OF assms]] stable_of_secure [OF revoke_secure [OF assms]]
     | (rule inv_same_rows, rule handlers_same_rows, rule still.handlers_world [OF still_calm [OF assms]]))+

lemma inv_history:
  assumes "backend_laws E V" "(step E (no_new V))\<^sup>*\<^sup>* s s'"
  shows "stable (account_inv V) s s'"
proof (rule step_frame [OF inv_pages _ _ _ assms(2)])
  show "stable (account_inv V) s (restart s)" for s
    unfolding stable_def using inv_no_new [of V s "restart s"] inv_opened [of V s]
    by (simp add: restart_def no_new_def) (simp add: rows_def row_def)
  show "no_new V (world s) w \<Longrightarrow> stable (account_inv V) s (s\<lparr>world := w\<rparr>)" for s w
    unfolding stable_def using inv_no_new [of V s "s\<lparr>world := w\<rparr>"] by simp
qed (intro stable_of_secure reconcile_once_secure assms(1))+

section \<open>Which requests touch grants\<close>

definition grant_endpoint :: "endpoint \<Rightarrow> bool" where
  "grant_endpoint ep \<longleftrightarrow> ep \<in> {Create_Grant_Form, Api_Create_Grant} \<or> (\<exists>gid. ep = Revoke_Grant gid)"

lemma admin_page_same_rows:
  "\<not> grant_endpoint ep \<Longrightarrow> keeps same_rows (admin_page E r x ep)"
  by (cases ep)
     (auto simp: grant_endpoint_def index_response_def
        intro!: same_rows.rules handlers_same_rows split: option.split)

lemma serve_same_rows: "\<not> grant_endpoint ep \<Longrightarrow> keeps same_rows (serve E ip_check r ep)"
  using serve_protected [of ep E ip_check r]
  by (cases "ep \<in> public_endpoints")
     (auto simp: public_endpoints_def intro!: same_rows.rules handlers_same_rows admin_page_same_rows)

lemma grant_endpoint_post: "route r = Some ep \<Longrightarrow> grant_endpoint ep \<Longrightarrow> r_method r = ''POST''"
  by (auto simp: route_def get_route_def grant_endpoint_def split: if_splits)

lemma same_rows_bind:
  assumes "keeps same_rows m" and "\<And>x s1. m s \<noteq> (Ret x, s1)"
  shows "same_rows s (snd (bindM m k s))"
  using keepsD [OF assms(1), of s "fst (m s)" "snd (m s)"] assms(2)
  by (cases "m s"; cases "fst (m s)") (auto simp: bindM_def)

lemma unauthorised_same_rows:
  assumes "\<nexists>x. authorised E ip_check r s x" and "grant_endpoint ep"
  shows "same_rows s (snd (serve E ip_check r ep s))"
proof -
  have "require_admin E ip_check r s \<noteq> (Ret x, s1)" for x s1
    using assms(1) require_admin_authorised by blast
  then have "same_rows s (snd (bindM (require_admin E ip_check r) k s))" for k :: "session \<Rightarrow> ('a sys, response) prog"
    by (intro same_rows_bind handlers_same_rows) auto
  moreover have "ep \<notin> public_endpoints"
    using assms(2) by (auto simp: grant_endpoint_def public_endpoints_def)
  ultimately show ?thesis
    by (simp add: serve_protected raise_def same_rows.refl)
qed

section \<open>Everything is given back\<close>

text \<open>The locks and semaphores are as before, and of the in-flight ids none has appeared.\<close>

definition given_back :: "'w sys \<Rightarrow> 'w sys \<Rightarrow> bool" where
  "given_back s s' \<longleftrightarrow> locks s' = locks s \<and> slots s' = slots s \<and> inflight s' \<subseteq> inflight s"

lemma freed_given_back: "freed G s R s' \<Longrightarrow> given_back s s'"
  by (auto simp: freed_def given_back_def)

fun regular :: "'a outcome \<Rightarrow> bool" where
  "regular (Ret _) \<longleftrightarrow> True"
| "regular (Raise _) \<longleftrightarrow> True"
| "regular _ \<longleftrightarrow> False"

lemma issue_gives_back: "opened s \<Longrightarrow> wp (issue E req actor rid) (\<lambda>r s'. regular r \<longrightarrow> given_back s s') s"
proof (rule wp_mono [OF issue_spec], assumption)
  fix r s'
  show "issue_result req actor s r s' \<Longrightarrow> regular r \<longrightarrow> given_back s s'"
    by (cases r) (auto dest: freed_given_back)
qed

lemma given_back_refl [simp]: "given_back s s"
  by (simp add: given_back_def)

lemma revoke_gives_back: "opened s \<Longrightarrow> wp (revoke E gid actor rid) (\<lambda>r s'. regular r \<longrightarrow> given_back s s') s"
proof (rule wp_mono [OF revoke_spec], assumption)
  fix r s'
  show "revoke_result gid s r s' \<Longrightarrow> regular r \<longrightarrow> given_back s s'"
    by (cases r) (auto dest!: freed_given_back split: if_splits option.splits)
qed

lemma reconcile_gives_back: "opened s \<Longrightarrow> wp (reconcile_one E gid) (\<lambda>r s'. regular r \<longrightarrow> given_back s s') s"
proof (rule wp_mono [OF reconcile_one_spec], assumption)
  fix r s'
  show "reconcile_result E gid s r s' \<Longrightarrow> regular r \<longrightarrow> given_back s s'"
    by (cases r) (auto dest!: freed_given_back split: if_splits option.splits)
qed

lemma admit_gives_back:
  assumes "\<And>s. P s \<Longrightarrow> wp m (\<lambda>r s'. regular r \<longrightarrow> given_back s s') s" and "\<And>f. P (s\<lparr>slots := f\<rparr>)"
  shows "wp (admit k m) (\<lambda>r s'. regular r \<longrightarrow> given_back s s') s"
proof (cases "slots s k = 0")
  case True
  then show ?thesis by (simp add: admit_def wp_bindM wp_gets wp_raise)
next
  case False
  let ?s = "s\<lparr>slots := (slots s)(k := slots s k - Suc 0)\<rparr>"
  have regained: "given_back s (s1\<lparr>slots := (slots s1)(k := Suc (slots s1 k))\<rparr>)" if "given_back ?s s1" for s1
    using that False by (simp add: given_back_def)
  have "wp m (\<lambda>r s1. regular r \<longrightarrow> given_back ?s s1) ?s"
    by (rule assms(1) [OF assms(2)])
  then show ?thesis
    using False unfolding admit_def
    by (simp add: wp_bindM wp_gets wp_seqM wp_modify wp_finallyM)
       (erule wp_mono, auto simp: regained wp_modify split: outcome.splits)
qed

section \<open>What the reconciler leaves alone\<close>

text \<open>Work on \<open>gid\<close> touches no other row and takes no other id out of the in-flight set.\<close>

definition only_on :: "string \<Rightarrow> 'w sys \<Rightarrow> 'w sys \<Rightarrow> bool" where
  "only_on gid s s' \<longleftrightarrow> inflight s - {gid} \<subseteq> inflight s' \<and> (\<forall>i. i \<noteq> gid \<longrightarrow> row i s' = row i s)"

interpretation only_on: frame "only_on gid" for gid
  by unfold_locales (auto simp: only_on_def)

lemma alike_only_on: "keeps alike m \<Longrightarrow> keeps (only_on gid) m"
  by (erule keeps_mono) (auto simp: alike_def only_on_def same_control_def rows_def fun_eq_iff)

lemma update_only_on: "keeps (only_on gid) (update_grant E gid fs)"
proof (rule keepsI)
  fix s r s' assume m: "update_grant E gid fs s = (r, s')"
  have "rows_within {gid} UNIV s s'" "same_control s s'"
    using keepsD [OF update_grant_within m] keepsD [OF store_control(2) m] by auto
  then show "only_on gid s s'" by (auto simp: only_on_def rows_within_def same_control_def)
qed

lemma lock_only_on: "keeps (only_on gid) (begin_op db gid)" "keeps (only_on gid) (end_op db gid)"
  unfolding begin_op_def end_op_def
  by (intro only_on.rules keeps_modify; auto simp: only_on_def row_def)+

lemmas only_on_intros = only_on.rules update_only_on lock_only_on alike_only_on audit_alike outside_alike
  outside_keeps

lemma reconcile_one_only_on: "keeps (only_on gid) (reconcile_one E gid)"
  unfolding reconcile_one_def reconcile_locked_def teardown_def teardown_failed_def teardown_finished_def
  by (intro only_on_intros)

definition spared :: "string \<Rightarrow> 'w sys \<Rightarrow> 'w sys \<Rightarrow> bool" where
  "spared gid s s' \<longleftrightarrow> (gid \<in> inflight s \<longrightarrow> gid \<in> inflight s' \<and> rows s' gid = rows s gid)"

interpretation spared: frame "spared gid" for gid
  by unfold_locales (auto simp: spared_def)

lemma quiet_run: "snd (quiet m s) = snd (m s)"
  by (cases "m s"; cases "fst (m s)")
    (auto simp: quiet_def try_except_def catchM_def ret_def raise_def)

lemma reconcile_row_spares: "keeps (spared gid) (reconcile_row E t g)"
proof (rule keepsI)
  fix s r s' assume m: "reconcile_row E t g s = (r, s')"
  show "spared gid s s'"
  proof (cases "g_id g \<in> inflight s \<or> final_for g t = None")
    case True
    then have "s' = s" using m by (auto simp: reconcile_row_def bindM_def gets_def ret_def split: if_splits)
    then show ?thesis by (simp add: spared_def)
  next
    case False
    then have s': "s' = snd (reconcile_one E (g_id g) s)"
      using m quiet_run [of "reconcile_one E (g_id g)" s]
      by (simp add: reconcile_row_def bindM_def gets_def)
    then have "only_on (g_id g) s s'" using reconcile_one_only_on [of "g_id g" E] by (simp add: keeps_def)
    then show ?thesis using False by (cases "gid = g_id g") (auto simp: spared_def only_on_def rows_apply)
  qed
qed

lemma alike_spared: "keeps alike m \<Longrightarrow> keeps (spared gid) m"
  by (erule keeps_mono) (auto simp: alike_def spared_def same_control_def)

lemma reconcile_once_spares: "keeps (spared gid) (reconcile_once E)"
  unfolding reconcile_once_def
  by (intro spared.rules reconcile_row_spares alike_spared outside_alike outside_keeps purge_alike
      report_orphans_alike)

end
