(* ===== verification/Races.thy ===== *)
theory Races
  imports Operations
begin

text \<open>
  Operations of several threads. In \<open>grants.py\<close> what is done before a lock is taken (reading the row, the catalog)
  may be out of date by the time the lock is there. The steps below let the part from the lock on run in any later
  state, next to the whole requests; it is serialised by the lock, as in the code.
\<close>

section \<open>The parts from the lock on\<close>

definition issue_section ::
  "'w env \<Rightarrow> grant_request \<Rightarrow> string \<Rightarrow> string \<Rightarrow> string \<Rightarrow> string list \<Rightarrow> string list
     \<Rightarrow> ('w sys, public_grant \<times> string) prog" where
  "issue_section E req actor rid gid creation revocation =
     seqM (begin_op (rq_db_type req) gid)
     (bindM (finallyM (issue_locked E req actor rid gid creation revocation) (end_op (rq_db_type req) gid)) (\<lambda>creds.
     bindM (public_of gid) (\<lambda>out.
     ret (out, c_password creds))))"

definition revoke_section ::
  "'w env \<Rightarrow> db_type \<Rightarrow> string \<Rightarrow> string \<Rightarrow> string \<Rightarrow> ('w sys, public_grant) prog" where
  "revoke_section E db gid actor rid =
     seqM (begin_op db gid)
     (seqM (finallyM (revoke_locked E gid actor rid) (end_op db gid))
     (public_of gid))"

definition reconcile_section :: "'w env \<Rightarrow> db_type \<Rightarrow> string \<Rightarrow> ('w sys, unit) prog" where
  "reconcile_section E db gid =
     seqM (begin_op db gid)
          (finallyM (reconcile_locked E gid) (end_op db gid))"

text \<open>The operations are their first part and then such a section.\<close>

lemma issue_is_section:
  "issue E req actor rid =
     seqM (lift (validate_ttl (cfg E) (rq_ttl_seconds req)))
     (bindM (catalog E (rq_db_type req)) (\<lambda>cat.
     bindM (lift (build_statements (rq_db_type req) (rq_scope req) (rq_tables req) (rq_commands req)
              (set (cat_tables cat)) (Some (cat_sequences cat)))) (\<lambda>(creation, revocation).
     bindM (mutate_statements E creation) (\<lambda>creation'.
     bindM (new_grant_id E) (\<lambda>gid. issue_section E req actor rid gid creation' revocation)))))"
  by (simp only: issue_def issue_section_def)

lemma revoke_is_section:
  "revoke E gid actor rid =
     bindM (get_grant gid) (\<lambda>row.
     case row of
       None \<Rightarrow> raise (Exn NotFound gid)
     | Some g \<Rightarrow>
         if g_status g \<in> TERMINAL then ret (public g)
         else revoke_section E (g_db_type g) gid actor rid)"
  by (simp only: revoke_def revoke_section_def terminal_set)

lemma reconcile_is_section:
  "reconcile_one E gid =
     bindM (get_grant gid) (\<lambda>row. case row of None \<Rightarrow> skip | Some g \<Rightarrow> reconcile_section E (g_db_type g) gid)"
  by (simp only: reconcile_one_def reconcile_section_def)

section \<open>The steps\<close>

text \<open>What \<open>issue\<close> has found out about its request before it takes the lock, for some catalog.\<close>

definition checked_request :: "'w env \<Rightarrow> grant_request \<Rightarrow> bool" where
  "checked_request E req \<longleftrightarrow>
     validate_ttl (cfg E) (rq_ttl_seconds req) = Inr ()
     \<and> (\<exists>ts seqs r. build_statements (rq_db_type req) (rq_scope req) (rq_tables req) (rq_commands req)
          (set ts) (Some seqs) = Inr r)"

inductive race :: "'w env \<Rightarrow> ('w \<Rightarrow> 'w \<Rightarrow> bool) \<Rightarrow> 'w sys \<Rightarrow> 'w sys \<Rightarrow> bool"
  for E :: "'w env" and C :: "'w \<Rightarrow> 'w \<Rightarrow> bool" where
  whole: "step E C s s' \<Longrightarrow> race E C s s'"
| late_issue: "grant_id_ok gid \<Longrightarrow> checked_request E req \<Longrightarrow>
     race E C s (snd (issue_section E req actor rid gid cs rs s))"
| late_revoke: "rows s gid = Some g \<Longrightarrow> race E C s (snd (revoke_section E (g_db_type g) gid actor rid s))"
| late_reconcile: "race E C s (snd (reconcile_section E db gid s))"

inductive_cases race_cases: "race E C s s'"

lemma steps_race: "(step E C)\<^sup>*\<^sup>* s s' \<Longrightarrow> (race E C)\<^sup>*\<^sup>* s s'"
  by (rule rtranclp_mono [THEN predicate2D]) (auto intro: race.whole)

lemma race_frame:
  assumes refl: "\<And>s. R s s" and trans: "\<And>s t u. R s t \<Longrightarrow> R t u \<Longrightarrow> R s u"
    and whole: "\<And>s s'. step E C s s' \<Longrightarrow> R s s'"
    and issue: "\<And>req actor rid gid cs rs. grant_id_ok gid \<Longrightarrow> checked_request E req \<Longrightarrow>
       keeps R (issue_section E req actor rid gid cs rs)"
    and revoke: "\<And>s gid g actor rid. rows s gid = Some g \<Longrightarrow>
       R s (snd (revoke_section E (g_db_type g) gid actor rid s))"
    and reconcile: "\<And>db gid. keeps R (reconcile_section E db gid)"
    and steps: "(race E C)\<^sup>*\<^sup>* s s'"
  shows "R s s'"
  using steps
proof (induction rule: rtranclp_induct)
  case (step t u)
  from step.hyps(2) have "R t u"
    using issue reconcile by (elim race_cases) (auto simp: keeps_def whole revoke)
  then show ?case using step.IH trans by blast
qed (rule refl)

section \<open>What a late section keeps\<close>

text \<open>A row that has become final is opened again by a late revocation; no account comes with it.\<close>

lemma reopen_secure:
  assumes "backend_laws E V" "rows s gid = Some g" "account_inv V s"
  shows "wp (update_grant E gid [Status Revoking])
     (\<lambda>r s'. account_inv V s' \<and> (\<forall>x. r = Ret x \<longrightarrow> live V gid (g_db_type g) s')) s"
proof (rule wp_intro)
  fix r s' assume u: "update_grant E gid [Status Revoking] s = (r, s')"
  note still = update_no_new [OF assms(1) u]
  have effect: "wp (update_grant E gid [Status Revoking])
      (\<lambda>r s'. put gid [Status Revoking] s s' \<or> alike s s' \<and> (\<forall>x. r \<noteq> Ret x)) s"
    by (rule wp_update [OF inv_opened [OF assms(3)]]) simp_all
  from wp_run [OF effect u] show "account_inv V s' \<and> (\<forall>x. r = Ret x \<longrightarrow> live V gid (g_db_type g) s')"
  proof
    assume "alike s s' \<and> (\<forall>x. r \<noteq> Ret x)"
    then show ?thesis using inv_no_new [OF assms(3) _ _ still] by (simp add: alike_def)
  next
    assume p: "put gid [Status Revoking] s s'"
    then obtain t where r: "rows s' = (rows s)(gid \<mapsto> set_fields [Status Revoking] t g)"
      using put_Some [OF p assms(2)] by auto
    have "account_inv V s'"
      by (rule inv_put_row [OF assms(3,2) HOL.refl p still]) (simp add: TERMINAL_def)
    moreover have "g_status (set_fields [Status Revoking] t g) = Revoking"
      "g_db_type (set_fields [Status Revoking] t g) = g_db_type g"
      by (simp_all add: set_fields_def)
    ultimately show ?thesis using r by (simp add: live_def TERMINAL_def)
  qed
qed

lemma late_revoke_secure:
  assumes "backend_laws E V"
  shows "secure (\<lambda>s. account_inv V s \<and> rows s gid = Some g) (revoke_section E (g_db_type g) gid actor rid) (account_inv V)"
proof -
  let ?P = "\<lambda>s. account_inv V s \<and> rows s gid = Some g"
  have rest: "secure (live V gid (g_db_type g))
      (seqM (audit E (Some rid) (Some gid) actor ''revoke'' ''started'' []) (teardown E gid Revoked (Some rid) actor True))
      (account_inv V)"
    by (rule secure_seq [OF audit_secure(1) [OF assms] teardown_secure [OF assms] live_inv])
  have "secure ?P (revoke_locked E gid actor rid) (account_inv V)"
    unfolding revoke_locked_def seqM_def [of "update_grant E gid [Status Revoking]"]
    by (rule secure_bind_ret [OF _ rest]) (use reopen_secure [OF assms] in blast)
  moreover have "secure ?P (begin_op (g_db_type g) gid) ?P"
    by (simp add: secure_def begin_op_def bindM_def gets_def raise_def modify_def) (simp add: rows_def row_def)
  ultimately show ?thesis
    unfolding revoke_section_def
    by (intro secure_seq [where P' = ?P] secure_seq [where P' = "account_inv V"] secure_finally
        end_secure public_of_secure) auto
qed

lemma late_sections_secure:
  assumes "backend_laws E V"
  shows "grant_id_ok gid \<Longrightarrow> secure (account_inv V) (issue_section E req actor rid gid cs rs) (account_inv V)"
    "secure (account_inv V) (reconcile_section E db gid) (account_inv V)"
  unfolding issue_section_def reconcile_section_def
  by (intro secure_seq [where P' = "account_inv V"] secure_bind [where P' = "account_inv V"] begin_secure
      public_of_secure secure_finally issue_locked_secure [OF assms] reconcile_locked_secure [OF assms]
      end_secure secure_ret; assumption?)+

lemma inv_races:
  assumes "backend_laws E V" "(race E (no_new V))\<^sup>*\<^sup>* s s'"
  shows "stable (account_inv V) s s'"
proof (rule race_frame [OF _ _ _ _ _ _ assms(2)])
  show "stable (account_inv V) s (snd (revoke_section E (g_db_type g) gid actor rid s))"
    if "rows s gid = Some g" for s gid g actor rid
    using late_revoke_secure [OF assms(1), of gid g actor rid] that by (simp add: secure_def stable_def)
qed (use stable.refl stable.trans inv_history [OF assms(1) r_into_rtranclp]
      late_sections_secure [OF assms(1)] in \<open>auto intro: stable_of_secure\<close>)

lemma sections_audit:
  "keeps audit_kept (issue_section E req actor rid gid cs rs)" "keeps audit_kept (revoke_section E db gid actor rid)"
  "keeps audit_kept (reconcile_section E db gid)"
  unfolding issue_section_def revoke_section_def reconcile_section_def revoke_locked_def reconcile_locked_def
  by (intro audit_intros issue_locked_audit teardown_audit public_of_audit)+

lemma audit_races:
  assumes "(race E C)\<^sup>*\<^sup>* s s'"
  shows "audit_kept s s'"
proof (rule race_frame [OF _ _ _ _ _ _ assms])
  show "audit_kept t (snd (revoke_section E (g_db_type g) gid actor rid t))" for t gid g actor rid
    using sections_audit(2) [of E "g_db_type g" gid actor rid] by (simp add: keeps_def)
qed (use audit_kept.refl audit_kept.trans audit_history [OF r_into_rtranclp] sections_audit in auto)

section \<open>What a late revocation does to a final row\<close>

lemma late_revoke_end:
  "opened s \<Longrightarrow> rows s gid = Some g \<Longrightarrow> wp (revoke_section E (g_db_type g) gid actor rid) (revoke_end gid g s) s"
  unfolding revoke_section_def by (rule revoke_under_lock)

end
