(* ===== verification/Termination.thy ===== *)
theory Termination
  imports Operations
begin

text \<open>
  The one loop of the code that only the clock bounds, \<open>_lock_out_and_terminate\<close>, always ends: as
  every round sleeps 0.3 seconds and the deadline is 20 seconds away, 68 rounds are enough. So no
  operation runs out of the rounds of the model.
\<close>

section \<open>Programs that end\<close>

definition converges :: "('s, 'a) prog \<Rightarrow> bool" where
  "converges m \<longleftrightarrow> (\<forall>s. fst (m s) \<noteq> Diverge)"

lemma conv_basic: "converges (ret x)" "converges (raise e)" "converges halt" "converges (lift r)"
  "converges (gets f)" "converges (modify g)"
  by (simp_all add: converges_def ret_def raise_def halt_def lift_def gets_def modify_def split: sum.split)

lemma conv_bind: "converges m \<Longrightarrow> (\<And>x. converges (k x)) \<Longrightarrow> converges (bindM m k)"
  by (auto simp: converges_def bindM_def split: prod.splits outcome.splits) (metis fst_conv)+

lemma conv_seq: "converges m \<Longrightarrow> converges k \<Longrightarrow> converges (seqM m k)"
  by (simp add: seqM_def conv_bind)

lemma conv_catch: "converges m \<Longrightarrow> (\<And>e. converges (h e)) \<Longrightarrow> converges (catchM m h)"
  by (auto simp: converges_def catchM_def split: prod.splits outcome.splits) (metis fst_conv)+

lemma conv_try: "converges m \<Longrightarrow> (\<And>e. converges (h e)) \<Longrightarrow> converges (try_except m p h)"
  by (simp add: try_except_def conv_catch conv_basic)

lemma conv_finally: "converges m \<Longrightarrow> converges f \<Longrightarrow> converges (finallyM m f)"
  by (simp add: finallyM_def conv_bind conv_catch conv_seq conv_basic)

lemma conv_when: "converges m \<Longrightarrow> converges (whenM b m)"
  by (simp add: whenM_def conv_basic)

lemma conv_foreach: "(\<And>x. converges (f x)) \<Longrightarrow> converges (foreach xs f)"
  by (induction xs) (simp_all add: conv_basic conv_seq)

lemma conv_filter: "(\<And>x. converges (f x)) \<Longrightarrow> converges (filterM xs f)"
  by (induction xs) (simp_all add: conv_basic conv_bind)

lemma conv_if: "converges m \<Longrightarrow> converges k \<Longrightarrow> converges (if b then m else k)"
  by simp

lemma conv_option: "converges m \<Longrightarrow> (\<And>x. converges (k x)) \<Longrightarrow> converges (case v of None \<Rightarrow> m | Some x \<Rightarrow> k x)"
  by (simp split: option.split)

lemma conv_pair: "(\<And>x y. converges (k x y)) \<Longrightarrow> converges (case v of (x, y) \<Rightarrow> k x y)"
  by (simp split: prod.split)

lemma conv_quiet: "converges m \<Longrightarrow> converges (quiet m)"
  by (simp add: quiet_def conv_try conv_basic)

lemma conv_ignore: "converges m \<Longrightarrow> converges (ignore m)"
  by (simp add: ignore_def conv_bind conv_basic)

lemma conv_store: "converges (tx f)" "converges (query g)"
  by (simp_all add: converges_def tx_def query_def split: sum.split prod.split)

lemmas conv_rules = conv_basic conv_bind conv_seq conv_catch conv_try conv_finally conv_when conv_foreach
  conv_filter conv_if conv_option conv_pair conv_quiet conv_ignore conv_store

section \<open>The laws of time\<close>

text \<open>A call to the outside ends: it returns, raises or is the last thing the process does.\<close>

definition answers :: "('w, 'a) ext \<Rightarrow> bool" where
  "answers f \<longleftrightarrow> (\<forall>w. fst (f w) \<noteq> Diverge)"

definition calls_end :: "'w env \<Rightarrow> bool" where
  "calls_end E \<longleftrightarrow>
     (\<forall>p. answers (read_text E p)) \<and> (\<forall>c p a. answers (vault_write E c p a))
     \<and> (\<forall>c p. answers (vault_read E c p)) \<and> (\<forall>c p. answers (vault_list E c p))
     \<and> (\<forall>c p. answers (vault_delete E c p)) \<and> (\<forall>c p. answers (kv_read E c p))
     \<and> (\<forall>r i. answers (approle_login E r i)) \<and> (\<forall>c. answers (token_revoke_self E c))
     \<and> (\<forall>i. answers (pg_connect E i)) \<and> (\<forall>h q a. answers (pg_texts E h q a))
     \<and> (\<forall>h q. answers (pg_pairs E h q)) \<and> (\<forall>h q a. answers (pg_count E h q a))
     \<and> (\<forall>i. answers (ch_connect E i)) \<and> (\<forall>h q a. answers (ch_texts E h q a))"

definition not_back :: "('w \<Rightarrow> real) \<Rightarrow> 'w \<Rightarrow> 'w \<Rightarrow> bool" where
  "not_back time w w' \<longleftrightarrow> time w \<le> time w'"

text \<open>No call turns the clock back, the clock shows the time, and \<open>sleep(d)\<close> takes at least \<open>d\<close>.\<close>

definition time_laws :: "'w env \<Rightarrow> ('w \<Rightarrow> real) \<Rightarrow> bool" where
  "time_laws E time \<longleftrightarrow>
     calm (not_back time) E \<and> (\<forall>r db. role_calm (not_back time) E r db)
     \<and> (\<forall>w t. fst (clock E w) = Some t \<longrightarrow> time w \<le> t \<and> t \<le> time (snd (clock E w)))
     \<and> (\<forall>d w. time w + d \<le> time (sleep E d w))"

interpretation clockwork: world_frame "not_back time" for time :: "'w \<Rightarrow> real"
  by unfold_locales (auto simp: not_back_def)

lemma conv_ext: "answers f \<Longrightarrow> converges (call_ext f)"
  by (simp add: converges_def call_ext_def answers_def split_beta)

lemma conv_world: "converges (now E)" "converges (draw_hex E n)" "converges (draw_urlsafe E n)"
  "converges (do_sleep E d)" "converges (do_unlink E p)"
  unfolding now_def draw_hex_def draw_urlsafe_def do_sleep_def do_unlink_def
  by (intro conv_ext; simp add: answers_def split_beta split: option.split)+

lemma conv_calls:
  assumes "calls_end E"
  shows "converges (call_ext (read_text E p))" "converges (call_ext (vault_write E c p a))"
    "converges (call_ext (vault_read E c p))" "converges (call_ext (vault_list E c p))"
    "converges (call_ext (vault_delete E c p))" "converges (call_ext (kv_read E c p))"
    "converges (call_ext (approle_login E r i))" "converges (call_ext (token_revoke_self E c))"
    "converges (call_ext (pg_connect E info))" "converges (call_ext (pg_texts E h sql ps))"
    "converges (call_ext (pg_pairs E h sql))" "converges (call_ext (pg_count E h sql ps))"
    "converges (call_ext (ch_connect E info'))" "converges (call_ext (ch_texts E h sql cs))"
  using assms by (simp_all add: calls_end_def conv_ext)

lemma conv_service_call:
  assumes "calls_end E" "\<And>c. converges (fn c)"
  shows "converges (service_call E fn)"
  unfolding service_call_def service_client_def service_login_def read_approle_def
  by (intro conv_rules conv_calls [OF assms(1)] conv_world assms(2))

lemma conv_client:
  assumes "calls_end E"
  shows "converges (write_role E r db cs rs n)" "converges (delete_role E r)"
    "converges (create_grant_token E n r)" "converges (lookup_accessor E a)"
    "converges (read_credentials E tok r)" "converges (list_leases E r)"
    "converges (revoke_lease E l)" "converges (revoke_accessor E a)"
    "converges (introspect_credentials E db)" "converges (revoke_token_quietly E tok)"
  unfolding write_role_def delete_role_def create_grant_token_def lookup_accessor_def
    read_credentials_def list_leases_def revoke_lease_def revoke_accessor_def
    introspect_credentials_def revoke_token_quietly_def
  by (intro conv_rules conv_service_call conv_calls [OF assms] assms)+

lemma conv_find_tokens: "calls_end E \<Longrightarrow> converges (find_token_accessors E r)"
  unfolding find_token_accessors_def by (intro conv_rules conv_service_call conv_calls conv_client)

lemma conv_introspect:
  assumes "calls_end E"
  shows "converges (catalog E db)" "converges (leftover_users E db)"
    "converges (find_accounts E db gid)" "converges (pg_backends E a)"
  unfolding catalog_def postgres_catalog_def clickhouse_catalog_def leftover_users_def
    find_accounts_def pg_backends_def open_pg_def open_ch_def
  by (intro conv_rules conv_calls [OF assms] conv_client [OF assms])+

lemma conv_faults:
  assumes "calls_end E" shows "converges (point E name)" "converges (mutate_statements E sts)"
  unfolding armed_def point_def mutate_statements_def
  by (intro conv_rules conv_calls [OF assms] conv_world)+

lemma conv_manager: "calls_end E \<Longrightarrow> converges (run_as_manager E db r sts)"
  unfolding run_as_manager_def helper_cleanup_def on_error_def
  by (intro conv_rules conv_client)

lemma conv_run: "calls_end E \<Longrightarrow> converges (run_statements E db gid sts)"
  unfolding run_statements_def by (intro conv_rules conv_world conv_manager)

section \<open>The termination loop\<close>

lemma conv_step:
  assumes "converges m" "keeps (on_world W) m"
    and "\<And>x s1. W (world s) (world s1) \<Longrightarrow> wp (k x) (\<lambda>r _. r \<noteq> Diverge) s1"
  shows "wp (bindM m k) (\<lambda>r _. r \<noteq> Diverge) s"
  unfolding wp_bindM
proof (rule wp_intro)
  fix r s1 assume m: "m s = (r, s1)"
  then have "r \<noteq> Diverge" using assms(1) by (metis converges_def fst_conv)
  moreover have "W (world s) (world s1)" using keepsD [OF assms(2) m] by (simp add: on_world_def)
  ultimately show "on_ret (\<lambda>x. wp (k x) (\<lambda>r _. r \<noteq> Diverge)) (\<lambda>r _. r \<noteq> Diverge) r s1"
    using assms(3) by (cases r) auto
qed

lemma conv_now_step:
  assumes "time_laws E time"
    and "\<And>t s1. time (world s) \<le> t \<Longrightarrow> time (world s) \<le> time (world s1) \<Longrightarrow> wp (k t) (\<lambda>r _. r \<noteq> Diverge) s1"
  shows "wp (bindM (now E) k) (\<lambda>r _. r \<noteq> Diverge) s"
proof -
  have "time (world s) \<le> t \<and> t \<le> time w" if "clock E (world s) = (Some t, w)" for t w
    using assms(1) that by (auto simp: time_laws_def dest!: spec [of _ "world s"])
  then show ?thesis
    unfolding wp_bindM wp_now
    using assms(2) by (fastforce split: prod.split option.split)
qed

lemma terminate_loop_ends:
  assumes c: "calls_end E" and t: "time_laws E time"
  shows "deadline < time (world s) + real m * 3 / 10 \<Longrightarrow>
    wp (terminate_loop (Suc m) E db a gid deadline) (\<lambda>r _. r \<noteq> Diverge) s"
proof (induction m arbitrary: s)
  case (0 s)
  have calm: "calm (not_back time) E" using t by (simp add: time_laws_def)
  show ?case
    using 0 unfolding terminate_loop.simps(2)
    by (intro conv_step [OF conv_introspect(4) [OF c] clockwork.introspect_world(4) [OF calm]])
       (auto simp: wp_ret wp_raise not_back_def intro!: conv_now_step [OF t])
next
  case (Suc m s)
  have calm: "calm (not_back time) E" and role: "\<And>r db. role_calm (not_back time) E r db"
    using t by (simp_all add: time_laws_def)
  have slept: "time (world s1) + d \<le> time (world s2)" if "do_sleep E d s1 = (r, s2)" for d r s1 s2
    using t that by (auto simp: time_laws_def do_sleep_def call_ext_def)
  let ?round = "\<lambda>t. if t > deadline then raise (Exn RuntimeError
          (''backends of '' @ a @ '' still alive after termination attempts''))
       else seqM (bindM (lift (terminate_statements db a)) (run_statements E db gid))
         (seqM (do_sleep E (3 / 10)) (terminate_loop (Suc m) E db a gid deadline))"
  have round: "wp (?round u) (\<lambda>r _. r \<noteq> Diverge) s1" if "time (world s) \<le> time (world s1)" for u s1
  proof -
    have "wp (seqM (do_sleep E (3 / 10)) (terminate_loop (Suc m) E db a gid deadline)) (\<lambda>r _. r \<noteq> Diverge) s2"
      if 2: "time (world s1) \<le> time (world s2)" for s2
      unfolding wp_seqM
    proof (rule wp_intro)
      fix r s3 assume z: "do_sleep E (3 / 10) s2 = (r, s3)"
      have r: "r = Ret ()" using z by (simp add: do_sleep_def call_ext_def)
      have "deadline < time (world s3) + real m * 3 / 10"
        using slept [OF z] 2 \<open>time (world s) \<le> time (world s1)\<close> Suc.prems by (simp add: add_divide_distrib)
      then show "on_ret (\<lambda>_. wp (terminate_loop (Suc m) E db a gid deadline) (\<lambda>r _. r \<noteq> Diverge))
          (\<lambda>r _. r \<noteq> Diverge) r s3"
        unfolding r by (simp add: Suc.IH del: terminate_loop.simps)
    qed
    then show ?thesis
      unfolding seqM_def [of "bindM _ _"]
      by (auto simp: wp_raise not_back_def simp del: terminate_loop.simps
          intro!: conv_step [where W = "not_back time"] conv_bind conv_basic conv_run c
            clockwork.lifted.bind clockwork.lifted.lift clockwork.maintenance_world(1) calm role)
  qed
  show ?case
    unfolding terminate_loop.simps(2) [of "Suc m"]
  proof (rule conv_step [OF conv_introspect(4) [OF c] clockwork.introspect_world(4) [OF calm]])
    fix alive and s1 :: "'a sys" assume "not_back time (world s) (world s1)"
    then show "wp (if alive > 0 then bindM (now E) ?round else skip) (\<lambda>r _. r \<noteq> Diverge) s1"
      by (auto simp: wp_ret not_back_def simp del: terminate_loop.simps intro!: conv_now_step [OF t] round)
  qed
qed

text \<open>20 seconds at 0.3 seconds a round: the 68th round is past the deadline.\<close>

lemma lock_out_ends:
  assumes c: "calls_end E" and t: "time_laws E time" and n: "loop_rounds E \<ge> 68"
  shows "converges (lock_out_and_terminate E db a gid)"
proof -
  obtain m where m: "loop_rounds E = Suc m" "m \<ge> 67" using n by (cases "loop_rounds E") auto
  have loop: "wp (bindM (now E) (\<lambda>t. terminate_loop (loop_rounds E) E db a gid (t + 20))) (\<lambda>r _. r \<noteq> Diverge) s" for s
    unfolding wp_bindM wp_now
  proof -
    have "wp (terminate_loop (Suc m) E db a gid (u + 20)) (\<lambda>r _. r \<noteq> Diverge) (s\<lparr>world := w\<rparr>)"
      if "clock E (world s) = (Some u, w)" for u w
    proof (rule terminate_loop_ends [OF c t])
      have "u \<le> time w" using t that by (auto simp: time_laws_def dest!: spec [of _ "world s"])
      then show "u + 20 < time (world (s\<lparr>world := w\<rparr>)) + real m * 3 / 10" using m(2) by simp
    qed
    then show "case clock E (world s) of (t, w) \<Rightarrow>
      (case t of Some x \<Rightarrow> on_ret (\<lambda>t. wp (terminate_loop (loop_rounds E) E db a gid (t + 20)) (\<lambda>r _. r \<noteq> Diverge))
          (\<lambda>r _. r \<noteq> Diverge) (Ret x) (s\<lparr>world := w\<rparr>)
       | None \<Rightarrow> on_ret (\<lambda>t. wp (terminate_loop (loop_rounds E) E db a gid (t + 20)) (\<lambda>r _. r \<noteq> Diverge))
          (\<lambda>r _. r \<noteq> Diverge) Halt (s\<lparr>world := w\<rparr>))"
      by (auto simp: m(1) simp del: terminate_loop.simps split: prod.split option.split)
  qed
  have "converges (bindM (now E) (\<lambda>t. terminate_loop (loop_rounds E) E db a gid (t + 20)))"
    using loop by (simp add: converges_def wp_def split_beta)
  moreover have "converges (bindM (lift (lockout_statements db a)) (run_statements E db gid))"
    by (intro conv_rules conv_run c)
  ultimately show ?thesis
    unfolding lock_out_and_terminate_def by (intro conv_if conv_basic conv_seq)
qed

section \<open>Every operation ends\<close>

definition terminating :: "'w env \<Rightarrow> ('w \<Rightarrow> real) \<Rightarrow> bool" where
  "terminating E time \<longleftrightarrow> calls_end E \<and> time_laws E time \<and> loop_rounds E \<ge> 68"

lemma conv_grants_store:
  "converges (update_grant E gid fs)" "converges (insert_grant E n)"
  "converges (audit E rid gid' actor action result detail)" "converges (purge_sessions E)"
  "converges (get_grant gid)" "converges (list_by_status sts)" "converges (audit_exists x y)"
  unfolding update_grant_def insert_grant_def audit_def purge_sessions_def get_grant_def
    list_by_status_def audit_exists_def
  by (intro conv_rules conv_world)+

lemma conv_teardown:
  assumes "terminating E time"
  shows "converges (teardown E gid final rid actor re)"
proof -
  have c: "calls_end E" and l: "\<And>db a gid. converges (lock_out_and_terminate E db a gid)"
    using assms lock_out_ends by (auto simp: terminating_def)
  have "converges (teardown_steps E gid g)" for g
    unfolding teardown_steps_def grant_accessors_def drop_account_def confirm_gone_def
    by (intro conv_rules conv_client conv_find_tokens conv_introspect conv_run l c)
  then show ?thesis
    unfolding teardown_def teardown_failed_def teardown_finished_def
    by (intro conv_rules conv_grants_store)
qed

lemma conv_lock: "converges (begin_op db gid)" "converges (end_op db gid)" "converges (public_of gid)"
  unfolding begin_op_def end_op_def public_of_def by (intro conv_rules conv_grants_store)+

lemma conv_issue:
  assumes "terminating E time" shows "converges (issue E req actor rid)"
proof -
  have c: "calls_end E" using assms by (simp add: terminating_def)
  have "converges (issue_locked E req actor rid gid cs rs)" for gid cs rs
    unfolding issue_locked_def issue_failed_def issue_steps_def
    by (intro conv_rules conv_client conv_faults conv_world conv_grants_store conv_teardown [OF assms] c)
  then show ?thesis
    unfolding issue_def new_grant_id_def
    by (intro conv_rules conv_introspect conv_faults conv_world conv_lock c)
qed

lemma conv_revoke:
  assumes "terminating E time" shows "converges (revoke E gid actor rid)"
  unfolding revoke_def revoke_locked_def
  by (intro conv_rules conv_grants_store conv_lock conv_teardown [OF assms])

lemma conv_reconcile:
  assumes "terminating E time" shows "converges (reconcile_once E)"
proof -
  have c: "calls_end E" using assms by (simp add: terminating_def)
  have "converges (reconcile_one E gid)" for gid
    unfolding reconcile_one_def reconcile_locked_def
    by (intro conv_rules conv_grants_store conv_world conv_lock conv_teardown [OF assms])
  then show ?thesis
    unfolding reconcile_once_def reconcile_row_def report_orphans_def orphan_scan_def
    by (intro conv_rules conv_grants_store conv_world conv_client conv_introspect c)
qed

end
