(* ===== verification/Example_World.thy ===== *)
theory Example_World
  imports Races Termination
begin

text \<open>
  A small world the environment's functions really act on: Vault keeps roles, tokens and leases, the
  databases keep accounts. It is the concrete input of the witnesses, and runs the whole life of a
  grant through the model.
\<close>

record world =
  w_roles :: "(string \<times> db_type \<times> bool) list"   \<comment> \<open>role, database, whether its statements make an account\<close>
  w_accounts :: "(db_type \<times> string) list"
  w_tokens :: "(string \<times> string) list"              \<comment> \<open>accessor and display name\<close>
  w_time :: int
  w_down :: bool                                     \<comment> \<open>reading credentials fails\<close>

fun db_of_connection :: "json \<Rightarrow> db_type" where
  "db_of_connection (JStr s) = (if s = ''clickhouse'' then Clickhouse else Postgres)"
| "db_of_connection _ = Postgres"

fun makes_account :: "json option \<Rightarrow> bool" where
  "makes_account (Some (JArr (JStr s # _))) \<longleftrightarrow> prefix ''CREATE'' s"
| "makes_account _ \<longleftrightarrow> False"

fun text_of :: "json option \<Rightarrow> string" where
  "text_of (Some (JStr s)) = s"
| "text_of _ = []"

definition w_write :: "string option \<Rightarrow> string \<Rightarrow> (string \<times> json) list \<Rightarrow> (world, json) ext" where
  "w_write c p a w =
     (if prefix ''database/roles/'' p then
        (Ret JNull, w\<lparr>w_roles := (drop 15 p, db_of_connection (the (map_of a ''db_name'')),
           makes_account (map_of a ''creation_statements'')) # w_roles w\<rparr>)
      else if prefix ''auth/token/create/'' p then
        (let label = text_of (map_of a ''display_name'') in
         (Ret (JObj [(''auth'', JObj [(''client_token'', JStr (''tok-'' @ label)),
                                      (''accessor'', JStr (''acc-'' @ label))])]),
          w\<lparr>w_tokens := (''acc-'' @ label, ''token-'' @ replace_char CHR ''_'' CHR ''-'' label) # w_tokens w\<rparr>))
      else if p = ''auth/token/revoke-accessor'' then
        (Ret JNull, w\<lparr>w_tokens := filter (\<lambda>(x, _). x \<noteq> text_of (map_of a ''accessor'')) (w_tokens w)\<rparr>)
      else if prefix ''sys/leases/revoke/database/creds/'' p then
        (let r = takeWhile (\<lambda>x. x \<noteq> CHR ''/'') (drop 33 p) in
         (Ret JNull, w\<lparr>w_accounts := filter (\<lambda>(d, a). \<not> prefix (r @ ''_'') a) (w_accounts w)\<rparr>))
      else if p = ''auth/token/lookup-accessor'' then
        (case map_of (w_tokens w) (text_of (map_of a ''accessor'')) of
           None \<Rightarrow> (Raise (Exn InvalidRequest ''invalid accessor''), w)
         | Some n \<Rightarrow> (Ret (JObj [(''data'', JObj [(''display_name'', JStr n)])]), w))
      else (Ret JNull, w))"

definition w_read :: "string option \<Rightarrow> string \<Rightarrow> (world, json) ext" where
  "w_read c p w =
     (if prefix ''database/creds/'' p then
        if w_down w then (Raise (Exn (VaultErr ''InternalServerError'') []), w)
        else
          let r = drop 15 p in
          (Ret (JObj [(''data'', JObj [(''username'', JStr (r @ ''_abc123'')), (''password'', JStr ''secret'')]),
                (''lease_id'', JStr (p @ ''/l1'')), (''lease_duration'', JInt 60)]),
           (case map_of (w_roles w) r of
              Some (d, True) \<Rightarrow> w\<lparr>w_accounts := (d, r @ ''_abc123'') # w_accounts w\<rparr>
            | _ \<Rightarrow> w))
      else (Ret JNull, w))"

definition w_list :: "string option \<Rightarrow> string \<Rightarrow> (world, json) ext" where
  "w_list c p w =
     (Ret (if p = ''auth/token/accessors'' then
             JObj [(''data'', JObj [(''keys'', JArr (map (\<lambda>(a, _). JStr a) (w_tokens w)))])]
           else JNull), w)"

definition w_delete :: "string option \<Rightarrow> string \<Rightarrow> (world, json) ext" where
  "w_delete c p w = (Ret JNull, w\<lparr>w_roles := filter (\<lambda>(r, _). ''database/roles/'' @ r \<noteq> p) (w_roles w)\<rparr>)"

definition w_texts :: "db_type \<Rightarrow> string \<Rightarrow> string list \<Rightarrow> world \<Rightarrow> string list" where
  "w_texts db sql args w =
     (if prefix ''SELECT tablename'' sql \<or> prefix ''SELECT name FROM system.tables'' sql
      then [''items'', ''orders'']
      else if sql = PG_ACCOUNTS_SQL \<or> sql = CH_ACCOUNTS_SQL
      then [a. (d, a) \<leftarrow> w_accounts w, d = db, prefix (hd args) a]
      else [a. (d, a) \<leftarrow> w_accounts w, d = db])"

definition example_config :: config where
  "example_config =
     \<lparr>VAULT_ADDR = ''http://vault:8200'', APPROLE_DIR = ''/run'', DB_PATH = ''/data/db'',
      POSTGRES_HOST = ''postgres'', POSTGRES_PORT = 5432, CLICKHOUSE_HOST = ''clickhouse'',
      CLICKHOUSE_HTTP_PORT = 8123, CLICKHOUSE_NATIVE_PORT = 9000, PG_SSLROOTCERT = [],
      ALLOW_INSECURE = True, PG_SSLMODE = ''prefer'', CH_SECURE = False, CH_CA_CERT = [], TTL_MIN = 10,
      TTL_MAX = 86400, SESSION_RECHECK_SECONDS = 300, RECONCILE_INTERVAL = 60, TEST_HOOKS = False,
      FAULT_FILE = ''/data/fault-point'', PUBLIC_ORIGIN = [], EXTRA_ORIGINS = [], COOKIE_SECURE = ''auto''\<rparr>"

text \<open>The clock moves by one second with every reading; random digits are zeros.\<close>

definition example_env :: "world env" where
  "example_env =
     \<lparr>cfg = example_config, loop_rounds = 70,
      clock = (\<lambda>w. (Some (real_of_int (w_time w)), w\<lparr>w_time := w_time w + 1\<rparr>)),
      sleep = (\<lambda>d w. w\<lparr>w_time := w_time w + max 0 \<lceil>d\<rceil>\<rparr>),
      token_hex = (\<lambda>n w. (replicate (2 * n) CHR ''0'', w)),
      token_urlsafe = (\<lambda>n w. (replicate n CHR ''a'', w)),
      sha256_hex = (\<lambda>s. s),
      read_text = (\<lambda>p w. (Ret ''id'', w)),
      unlink = (\<lambda>p w. w),
      vault_write = w_write, vault_read = w_read, vault_list = w_list, vault_delete = w_delete,
      kv_read = (\<lambda>c p w. (Ret (JObj [(''data'', JObj [(''data'',
        JObj [(''username'', JStr ''reader''), (''password'', JStr ''pw'')])])]), w)),
      approle_login = (\<lambda>r i w. (Ret ''svc'', w)),
      userpass_auth = (\<lambda>u q w. (Ret (JObj [(''auth'', JObj [(''client_token'', JStr ''admin''),
        (''token_policies'', JArr [JStr ''db-access-admin''])])]), w)),
      token_revoke_self = (\<lambda>c w. (Ret JNull, w)),
      token_lookup_self = (\<lambda>c w. (Ret (JObj [(''data'', JObj [(''policies'', JArr [JStr ''default''])])]), w)),
      pg_connect = (\<lambda>i w. (Ret 0, w)),
      pg_texts = (\<lambda>h sql args w. (Ret (w_texts Postgres sql args w), w)),
      pg_pairs = (\<lambda>h sql w. (Ret [], w)),
      pg_count = (\<lambda>h sql args w. (Ret 0, w)),
      ch_connect = (\<lambda>i w. (Ret 0, w)),
      ch_texts = (\<lambda>h sql args w. (Ret (w_texts Clickhouse sql (map snd args) w), w))\<rparr>"

definition example_view :: "world obs" where
  "example_view =
     \<lparr>accounts = (\<lambda>w. set (w_accounts w)), roles = (\<lambda>w. {(r, d). \<exists>m. (r, d, m) \<in> set (w_roles w)})\<rparr>"

definition example_request :: grant_request where
  "example_request =
     \<lparr>rq_db_type = Postgres, rq_scope = Tables, rq_tables = [''orders''], rq_commands = [''SELECT''],
      rq_ttl_seconds = 60, rq_requested_for = ''bob''\<rparr>"

definition example_world :: world where
  "example_world = \<lparr>w_roles = [], w_accounts = [], w_tokens = [], w_time = 1000, w_down = False\<rparr>"

definition example_start :: "world sys" where
  "example_start =
     restart \<lparr>disk = empty_database, opened = False, svc_client = None, svc_logged_in_at = 0,
      locks = (\<lambda>_. False), inflight = {}, slots = (\<lambda>_. 0), world = example_world\<rparr>"

section \<open>The world satisfies the laws\<close>

lemmas example_env_simps = example_env_def example_view_def no_new_def

lemma w_write_kept:
  "\<not> prefix ''database/roles/'' p \<Longrightarrow> w_roles (snd (w_write c p a w)) = w_roles w"
  "\<not> prefix ''database/roles/'' p \<Longrightarrow> set (w_accounts (snd (w_write c p a w))) \<subseteq> set (w_accounts w)"
  "w_time (snd (w_write c p a w)) = w_time w" "fst (w_write c p a w) \<noteq> Diverge"
  by (auto simp: w_write_def Let_def split: option.split)

lemma w_read_kept:
  "w_roles (snd (w_read c p w)) = w_roles w" "w_time (snd (w_read c p w)) = w_time w"
  "fst (w_read c p w) \<noteq> Diverge"
  "\<not> prefix ''database/creds/'' p \<Longrightarrow> w_accounts (snd (w_read c p w)) = w_accounts w"
  by (auto simp: w_read_def Let_def split: option.split bool.split)

lemma w_delete_kept:
  "set (w_roles (snd (w_delete c p w))) \<subseteq> set (w_roles w)" "w_accounts (snd (w_delete c p w)) = w_accounts w"
  "w_time (snd (w_delete c p w)) = w_time w" "fst (w_delete c p w) \<noteq> Diverge"
  "snd (w_list c p w) = w" "fst (w_list c p w) \<noteq> Diverge"
  by (auto simp: w_delete_def w_list_def)

lemmas world_kept = w_write_kept w_read_kept w_delete_kept

lemma example_calm: "calm (no_new example_view) example_env"
  using w_write_kept w_read_kept w_delete_kept(2,5)
  by (auto simp: calm_def example_env_simps intro: subsetD [OF w_delete_kept(1)])

lemma w_roles_write:
  "w_roles (snd (w_write c (''database/roles/'' @ r) a w)) =
     (r, db_of_connection (the (map_of a ''db_name'')), makes_account (map_of a ''creation_statements'')) # w_roles w"
  "w_accounts (snd (w_write c (''database/roles/'' @ r) a w)) = w_accounts w"
  by (simp_all add: w_write_def)

lemma db_of_connection_name [simp]: "db_of_connection (JStr (connection_name db)) = db"
  by (cases db) simp_all

lemma w_creds:
  "set (w_accounts (snd (w_read c (''database/creds/'' @ r) w))) \<subseteq>
     set (w_accounts w) \<union> {(db, r @ ''_abc123'') | db. (r, db, True) \<in> set (w_roles w)}"
  by (auto simp: w_read_def Let_def split: option.splits bool.splits dest: map_of_SomeD)

lemma example_laws: "backend_laws example_env example_view"
proof -
  have "role_law example_env example_view"
    unfolding role_law_def
  proof (intro allI impI)
    fix c r a db w assume "map_of a ''db_name'' = Some (JStr (connection_name db))"
    then have "db_of_connection (the (map_of a ''db_name'')) = db" by (cases db) simp_all
    then show "accounts example_view (snd (vault_write example_env c (''database/roles/'' @ r) a w))
        \<subseteq> accounts example_view w
      \<and> roles example_view (snd (vault_write example_env c (''database/roles/'' @ r) a w))
        \<subseteq> insert (r, db) (roles example_view w)"
      by (auto simp: example_env_def example_view_def w_roles_write [simplified])
  qed
  moreover have "creds_law example_env example_view"
    unfolding creds_law_def
  proof (intro allI conjI)
    fix c r w
    have "(r, db) \<in> roles example_view w \<and> prefix (account_prefix r) (r @ ''_abc123'')"
      if "(r, db, True) \<in> set (w_roles w)" for db
      using that by (auto simp: example_view_def account_prefix_def)
    then show "accounts example_view (snd (vault_read example_env c (''database/creds/'' @ r) w))
        \<subseteq> accounts example_view w
          \<union> {(db, a). (r, db) \<in> roles example_view w \<and> prefix (account_prefix r) a}"
      using w_creds [of c r w] by (auto simp: example_env_def example_view_def simp del: append_Cons)
    show "roles example_view (snd (vault_read example_env c (''database/creds/'' @ r) w)) \<subseteq> roles example_view w"
      by (simp add: example_env_def example_view_def w_read_kept)
  qed
  moreover have "lookup_law example_env example_view"
    by (auto simp: lookup_law_def example_env_simps w_texts_def PG_ACCOUNTS_SQL_def CH_ACCOUNTS_SQL_def)
  moreover have "hex_law example_env"
    by (simp add: hex_law_def example_env_def list_all_iff is_hex_def char_class_defs)
  ultimately show ?thesis using example_calm by (simp add: backend_laws_def)
qed

definition example_time :: "world \<Rightarrow> real" where
  "example_time w = real_of_int (w_time w)"

lemma example_terminating: "terminating example_env example_time"
proof -
  have "calm (not_back example_time) example_env"
    using world_kept by (auto simp: calm_def example_env_def not_back_def example_time_def)
  moreover have "role_calm (not_back example_time) example_env r db" for r db
    using world_kept by (auto simp: role_calm_def example_env_def not_back_def example_time_def)
  moreover have "calls_end example_env"
    using world_kept by (auto simp: calls_end_def answers_def example_env_def)
  moreover have "example_time w + d \<le> example_time (sleep example_env d w)" for w d
    by (simp add: example_env_def example_time_def max_def)
  ultimately show ?thesis
    by (auto simp: terminating_def time_laws_def example_env_def example_time_def)
qed

section \<open>A run\<close>

text \<open>
  Three HTTP requests: an administrator logs in, issues a grant with the JSON API, and revokes it. The states
  in between and the one at the end.
\<close>

definition example_http :: request where
  "example_http =
     \<lparr>r_method = ''POST'', r_path = ''/login'',
      r_headers = [''host'' \<mapsto> ''portal'', ''origin'' \<mapsto> ''http://portal''], r_sid = None, r_pre = Some ''pre'',
      r_form = [(''csrf_token'', ''pre''), (''username'', ''alice''), (''password'', ''pw'')], r_query = Map.empty,
      r_json = None, r_scheme = ''http'', r_id = ''r1''\<rparr>"

definition example_sid :: string where
  "example_sid = replicate 32 CHR ''a''"

definition example_json :: json where
  "example_json = JObj
     [(''db_type'', JStr ''postgres''), (''scope'', JStr ''tables''), (''tables'', JArr [JStr ''orders'']),
      (''commands'', JArr [JStr ''SELECT'']), (''ttl_seconds'', JInt 60), (''requested_for'', JStr ''bob'')]"

definition example_create :: request where
  "example_create = example_http\<lparr>
     r_path := ''/api/grants'', r_id := ''r2'', r_sid := Some example_sid, r_json := Some example_json,
     r_headers := [''host'' \<mapsto> ''portal'', ''origin'' \<mapsto> ''http://portal'', ''x-csrf-token'' \<mapsto> example_sid,
       ''content-type'' \<mapsto> ''application/json'']\<rparr>"

definition example_gid :: string where
  "example_gid = ''vdba_0000000000''"

definition example_revoke :: request where
  "example_revoke = example_create\<lparr>
     r_path := ''/api/grants/vdba_0000000000/revoke'', r_id := ''r3'', r_json := None\<rparr>"

abbreviation example_portal :: "request \<Rightarrow> (world sys, response) prog" where
  "example_portal \<equiv> portal example_env (\<lambda>_. None)"

definition example_login :: "world sys" where
  "example_login = snd (example_portal example_http example_start)"

definition example_issued :: "world sys" where
  "example_issued = snd (example_portal example_create example_login)"

definition example_revoked :: "world sys" where
  "example_revoked = snd (example_portal example_revoke example_issued)"

lemma example_body: "body_request example_json = Inr example_request"
  by code_simp

lemma example_issued_run:
  "(case example_portal example_create (snd (example_portal example_http example_start)) of
      (Ret a, s) \<Rightarrow>
        (case rs_body a of
           Json_Issued p pw \<Rightarrow> Some (p_grant_id p, p_status p, pw)
         | _ \<Rightarrow> None,
         w_accounts (world s), w_tokens (world s), w_roles (world s),
         map (\<lambda>g. (g_id g, g_status g, g_username g)) (grants_tab (disk s)), length (audit_tab (disk s)))
    | (_, s) \<Rightarrow> (None, [], [], [], [], 0)) =
   (Some (example_gid, Active, ''secret''), [(Postgres, ''vdba_0000000000_abc123'')],
     [(''acc-vdba_0000000000'', ''token-vdba-0000000000'')], [(example_gid, Postgres, True)],
     [(example_gid, Active, Some ''vdba_0000000000_abc123'')], 2)"
  by code_simp

lemma example_revoked_run:
  "(case example_portal example_revoke
      (snd (example_portal example_create (snd (example_portal example_http example_start)))) of
      (Ret a, s) \<Rightarrow>
        (case rs_body a of
           Json_Grant p \<Rightarrow> Some (p_grant_id p, p_status p)
         | _ \<Rightarrow> None,
         w_accounts (world s), w_tokens (world s), w_roles (world s),
         map (\<lambda>g. (g_id g, g_status g)) (grants_tab (disk s)), length (audit_tab (disk s)))
    | _ \<Rightarrow> (None, [], [], [], [], 0)) =
   (Some (example_gid, Revoked), [], [], [], [(example_gid, Revoked)], 4)"
  by code_simp

text \<open>
  A grant that has expired and been cleaned up, and the revocation of another thread that gets the lock only now, with
  PostgreSQL out of reach.
\<close>

definition expired_row :: grant where
  "expired_row =
     \<lparr>g_id = example_gid, g_db_type = Postgres, g_scope = Database, g_tables = [], g_commands = [''SELECT''],
      g_requested_for = ''bob'', g_issued_by = ''alice'', g_ttl_seconds = 60, g_status = Expired, g_created_at = 900,
      g_expires_at = Some 960, g_username = Some ''vdba_0000000000_abc123'', g_lease_id = None, g_token_accessor = None,
      g_last_error = None, g_updated_at = 980\<rparr>"

definition expired_state :: "world sys" where
  "expired_state = example_start\<lparr>disk := empty_database\<lparr>grants_tab := [expired_row]\<rparr>\<rparr>"

definition down_env :: "world env" where
  "down_env = example_env\<lparr>pg_connect := (\<lambda>i w. (Raise (Exn OSError ''connection refused''), w))\<rparr>"

lemma late_run:
  "(case revoke_section down_env Postgres example_gid ''bob'' ''r9'' expired_state of
      (Raise e, s) \<Rightarrow> Some (exc_class e) | _ \<Rightarrow> None) = Some OSError"
  by code_simp

end
