(* ===== verification/Well_Formed.thy ===== *)
theory Well_Formed
  imports Races
begin

text \<open>
  What every stored row satisfies: the terms of a grant are those of a request that passed all checks, an active row
  names the account and the lease it stands for, and a final row carries no error. \<open>_row\<close> and the readers of the
  columns rely on it.
\<close>

section \<open>Well-formed rows\<close>

definition terms_ok :: "config \<Rightarrow> grant \<Rightarrow> bool" where
  "terms_ok c g \<longleftrightarrow>
     TTL_MIN c \<le> g_ttl_seconds g \<and> g_ttl_seconds g \<le> TTL_MAX c
     \<and> g_commands g \<noteq> [] \<and> set (g_commands g) \<subseteq> set (allowed_commands_of (g_db_type g))
     \<and> (if g_scope g = Tables then g_tables g \<noteq> [] \<and> list_all identifier_fullmatch (g_tables g)
        else g_tables g = [])"

definition status_ok :: "grant \<Rightarrow> bool" where
  "status_ok g \<longleftrightarrow>
     (g_status g = Active \<longrightarrow> g_username g \<noteq> None \<and> g_lease_id g \<noteq> None \<and> g_expires_at g \<noteq> None)
     \<and> (g_status g \<in> TERMINAL \<longrightarrow> g_last_error g = None)"

definition rows_ok :: "config \<Rightarrow> 'w sys \<Rightarrow> bool" where
  "rows_ok c s \<longleftrightarrow> opened s \<and> (\<forall>gid g. rows s gid = Some g \<longrightarrow> terms_ok c g \<and> status_ok g)"

section \<open>Updates and inserts\<close>

lemma terms_ok_same: "same_terms g g' \<Longrightarrow> terms_ok c g' = terms_ok c g"
  by (simp add: terms_ok_def same_terms_def)

text \<open>The lists of fields the program passes to \<open>update_grant\<close>.\<close>

definition safe_fields :: "grant_field list \<Rightarrow> bool" where
  "safe_fields fs \<longleftrightarrow> (\<forall>t g. status_ok g \<longrightarrow> status_ok (set_fields fs t g))"

lemma program_fields:
  "safe_fields [Token_accessor a]" "safe_fields [Status Revoking]"
  "safe_fields [Status Revoking, Last_error e]"
  "safe_fields [Status Active, Username u, Lease_id l, Expires_at x]"
  "final \<in> TERMINAL \<Longrightarrow> safe_fields [Status final, Last_error None]"
  unfolding safe_fields_def status_ok_def by (auto simp: set_fields_def TERMINAL_def)

lemma rows_ok_put:
  assumes "put gid fs s s'" "safe_fields fs" "rows_ok c s"
  shows "rows_ok c s'"
  using assms iffD2 [OF same_terms_set_fields same_terms_refl, THEN terms_ok_same]
  by (auto simp: rows_ok_def put_def safe_fields_def fun_upd_def split: if_splits)

lemma update_rows_ok:
  assumes "safe_fields fs"
  shows "keeps (stable (rows_ok c)) (update_grant E gid fs)"
proof (rule keepsI)
  fix s r s' assume u: "update_grant E gid fs s = (r, s')"
  show "stable (rows_ok c) s s'"
    unfolding stable_def
  proof
    assume ok: "rows_ok c s"
    then have "put gid fs s s' \<or> alike s s'"
      by (intro update_effect [OF _ u]) (simp add: rows_ok_def)
    then show "rows_ok c s'"
      using ok rows_ok_put [OF _ assms ok] by (auto simp: rows_ok_def alike_def)
  qed
qed

lemma insert_rows_ok:
  assumes "\<And>t. terms_ok c (grant_row n t)"
  shows "keeps (stable (rows_ok c)) (insert_grant E n)"
proof (rule keepsI)
  fix s r s' assume m: "insert_grant E n s = (r, s')"
  have new: "status_ok (grant_row n t)" for t by (simp add: status_ok_def grant_row_def TERMINAL_def)
  show "stable (rows_ok c) s s'"
    unfolding stable_def
  proof
    assume ok: "rows_ok c s"
    then have "opened s" by (simp add: rows_ok_def)
    from wp_run [OF insert_effect [OF this] m] show "rows_ok c s'"
      using ok assms new by (auto simp: rows_ok_def alike_def split: if_splits)
  qed
qed

lemma rows_ok_same: "opened s' = opened s \<Longrightarrow> rows s' = rows s \<Longrightarrow> stable (rows_ok c) s s'"
  by (simp add: stable_def rows_ok_def)

lemma alike_rows_ok: "keeps alike m \<Longrightarrow> keeps (stable (rows_ok c)) m"
  by (erule keeps_mono) (auto simp: alike_def intro: rows_ok_same)

lemma control_rows_ok:
  "keeps (stable (rows_ok c)) (begin_op db gid)" "keeps (stable (rows_ok c)) (end_op db gid)"
  unfolding begin_op_def end_op_def
  by (intro stable.rules keeps_modify rows_ok_same; simp add: rows_def row_def fun_eq_iff)+

lemmas rows_ok_intros = stable.rules control_rows_ok update_rows_ok program_fields
  alike_rows_ok [OF audit_alike] alike_rows_ok [OF purge_alike] alike_rows_ok [OF report_orphans_alike]
  alike_rows_ok [OF outside_alike] outside_keeps

section \<open>The operations\<close>

lemma query_rows_ok:
  "keeps (stable (rows_ok c)) (get_grant gid)" "keeps (stable (rows_ok c)) (public_of gid)"
  unfolding public_of_def by (intro rows_ok_intros)+

lemma teardown_rows_ok:
  "final \<in> TERMINAL \<Longrightarrow> keeps (stable (rows_ok c)) (teardown E gid final rid actor re)"
  unfolding teardown_def teardown_failed_def teardown_finished_def by (intro rows_ok_intros)

lemma issue_locked_rows_ok:
  assumes "\<And>t. terms_ok c (grant_row (new_row req actor gid) t)"
  shows "keeps (stable (rows_ok c)) (issue_locked E req actor rid gid cs rs)"
  unfolding issue_locked_def issue_failed_def issue_steps_def
  by (intro rows_ok_intros insert_rows_ok assms teardown_rows_ok) (simp add: TERMINAL_def)

lemma checked_terms:
  "checked_request E req \<Longrightarrow> terms_ok (cfg E) (grant_row (new_row req actor gid) t)"
  by (auto simp: checked_request_def validate_ttl_def build_statements_Inr acceptable_def terms_ok_def grant_row_def
      new_row_def chosen_tables_def set_fromkeys list_all_iff split: if_splits)

lemma issue_section_rows_ok:
  "checked_request E req \<Longrightarrow> keeps (stable (rows_ok (cfg E))) (issue_section E req actor rid gid cs rs)"
  unfolding issue_section_def
  by (intro rows_ok_intros query_rows_ok issue_locked_rows_ok checked_terms)

lemma issue_rows_ok: "keeps (stable (rows_ok (cfg E))) (issue E req actor rid)"
proof -
  have checked: "keeps (stable (rows_ok (cfg E)))
      (bindM (lift (build_statements (rq_db_type req) (rq_scope req) (rq_tables req) (rq_commands req)
              (set (cat_tables cat)) (Some (cat_sequences cat)))) (\<lambda>(creation, revocation).
       bindM (mutate_statements E creation) (\<lambda>creation'.
       bindM (new_grant_id E) (\<lambda>gid. issue_section E req actor rid gid creation' revocation))))"
    if "validate_ttl (cfg E) (rq_ttl_seconds req) = Inr ()" for cat
  proof (rule stable.bind_returned [OF stable.lift], safe)
    fix s :: "'a sys" and s' creation revocation
    assume "lift (build_statements (rq_db_type req) (rq_scope req) (rq_tables req) (rq_commands req)
        (set (cat_tables cat)) (Some (cat_sequences cat))) s = (Ret (creation, revocation), s')"
    with that have "checked_request E req" by (auto simp: checked_request_def returned)
    then show "keeps (stable (rows_ok (cfg E))) (bindM (mutate_statements E creation) (\<lambda>creation'.
       bindM (new_grant_id E) (\<lambda>gid. issue_section E req actor rid gid creation' revocation)))"
      by (intro stable.bind issue_section_rows_ok alike_rows_ok outside_alike outside_keeps new_grant_id_outside)
  qed
  show ?thesis
    unfolding issue_is_section seqM_def
    by (rule stable.bind_returned [OF stable.lift], safe)
       (intro stable.bind checked alike_rows_ok outside_alike outside_keeps; simp add: returned)
qed

lemma revoke_section_rows_ok: "keeps (stable (rows_ok c)) (revoke_section E db gid actor rid)"
  unfolding revoke_section_def revoke_locked_def
  by (intro rows_ok_intros query_rows_ok teardown_rows_ok) (simp add: TERMINAL_def)

lemma revoke_rows_ok: "keeps (stable (rows_ok c)) (revoke E gid actor rid)"
  unfolding revoke_is_section by (intro rows_ok_intros query_rows_ok revoke_section_rows_ok)

lemma final_for_final: "final_for g t = Some final \<Longrightarrow> final \<in> TERMINAL"
  by (auto simp: final_for_def TERMINAL_def split: if_splits)

lemma reconcile_section_rows_ok: "keeps (stable (rows_ok c)) (reconcile_section E db gid)"
proof -
  have due: "keeps (stable (rows_ok c)) (case final_for g t of None \<Rightarrow> skip
      | Some final \<Rightarrow> teardown E gid final None ''system'' False)" for g t
    by (auto intro: stable.ret teardown_rows_ok final_for_final split: option.split)
  show ?thesis
    unfolding reconcile_section_def reconcile_locked_def
    by (intro rows_ok_intros query_rows_ok due)
qed

lemma reconcile_one_rows_ok: "keeps (stable (rows_ok c)) (reconcile_one E gid)"
  unfolding reconcile_is_section by (intro rows_ok_intros query_rows_ok reconcile_section_rows_ok)

lemma reconcile_once_rows_ok: "keeps (stable (rows_ok c)) (reconcile_once E)"
  by (rule reconcile_once_frame [OF stable.frame_axioms reconcile_one_rows_ok])
     (auto simp: alike_def intro: rows_ok_same)

section \<open>Every history\<close>

lemma same_rows_ok: "keeps same_rows m \<Longrightarrow> keeps (stable (rows_ok c)) m"
  by (erule keeps_mono) (auto simp: same_rows_def intro: rows_ok_same)

lemma rows_ok_pages: "page_frame (stable (rows_ok (cfg E))) E"
proof
  show "stable (rows_ok (cfg E)) s (s\<lparr>slots := f\<rparr>)" for s :: "'a sys" and f
    by (rule rows_ok_same) (simp_all add: rows_def row_def fun_eq_iff)
qed (rule issue_rows_ok revoke_rows_ok | (rule same_rows_ok, rule handlers_same_rows))+

lemma rows_ok_races:
  assumes "(race E C)\<^sup>*\<^sup>* s s'"
  shows "stable (rows_ok (cfg E)) s s'"
proof (rule race_frame [OF _ _ _ _ _ _ assms])
  show "stable (rows_ok (cfg E)) s t" if "step E C s t" for s t
  proof (rule step_frame [OF rows_ok_pages reconcile_once_rows_ok])
    show "(step E C)\<^sup>*\<^sup>* s t" using that by blast
    show "stable (rows_ok (cfg E)) s (restart s)" for s :: "'a sys"
      by (auto simp: stable_def rows_ok_def)
    show "stable (rows_ok (cfg E)) s (s\<lparr>world := w\<rparr>)" for s :: "'a sys" and w
      by (rule rows_ok_same) simp_all
  qed
  show "stable (rows_ok (cfg E)) s (snd (revoke_section E (g_db_type g) gid actor rid s))" for s gid g actor rid
    using revoke_section_rows_ok [of "cfg E" E "g_db_type g" gid actor rid] by (simp add: keeps_def)
qed (rule stable.refl reconcile_section_rows_ok | erule (1) stable.trans | erule issue_section_rows_ok)+

end
