(* ===== verification/Secrecy.thy ===== *)
theory Secrecy
  imports Grants
begin

text \<open>
  The password of a grant reaches the answer of \<open>issue\<close> and nothing else: changing the password in
  every answer of Vault changes neither the state that is left nor any call to the outside nor the
  outcome, except for the password in the answer.
\<close>

section \<open>Another password\<close>

fun on_field :: "string \<Rightarrow> (json \<Rightarrow> json) \<Rightarrow> json \<Rightarrow> json" where
  "on_field k f (JObj kvs) = JObj (map (\<lambda>(n, v). (n, if n = k then f v else v)) kvs)"
| "on_field k f j = j"

fun on_string :: "(string \<Rightarrow> string) \<Rightarrow> json \<Rightarrow> json" where
  "on_string f (JStr s) = JStr (f s)"
| "on_string f j = j"

definition mask :: "(string \<Rightarrow> string) \<Rightarrow> json \<Rightarrow> json" where
  "mask p = on_field ''data'' (on_field ''password'' (on_string p))"

fun on_answer :: "('a \<Rightarrow> 'b) \<Rightarrow> 'a outcome \<Rightarrow> 'b outcome" where
  "on_answer f (Ret x) = Ret (f x)"
| "on_answer f (Raise e) = Raise e"
| "on_answer f Halt = Halt"
| "on_answer f Diverge = Diverge"

definition masked :: "(string \<Rightarrow> string) \<Rightarrow> 'w env \<Rightarrow> 'w env" where
  "masked p E = E\<lparr>vault_read := (\<lambda>c path w. case vault_read E c path w of (r, w') \<Rightarrow> (on_answer (mask p) r, w'))\<rparr>"

named_theorems unseen

lemma masked_fields [simp, unseen]:
  "cfg (masked p E) = cfg E" "loop_rounds (masked p E) = loop_rounds E" "clock (masked p E) = clock E"
  "sleep (masked p E) = sleep E" "token_hex (masked p E) = token_hex E"
  "token_urlsafe (masked p E) = token_urlsafe E" "read_text (masked p E) = read_text E"
  "unlink (masked p E) = unlink E" "vault_write (masked p E) = vault_write E"
  "vault_list (masked p E) = vault_list E" "vault_delete (masked p E) = vault_delete E"
  "kv_read (masked p E) = kv_read E" "approle_login (masked p E) = approle_login E"
  "token_revoke_self (masked p E) = token_revoke_self E" "pg_connect (masked p E) = pg_connect E"
  "pg_texts (masked p E) = pg_texts E" "pg_pairs (masked p E) = pg_pairs E"
  "pg_count (masked p E) = pg_count E" "ch_connect (masked p E) = ch_connect E"
  "ch_texts (masked p E) = ch_texts E" "sha256_hex (masked p E) = sha256_hex E"
  by (simp_all add: masked_def)

lemma map_of_on_field:
  "map_of (map (\<lambda>(n, v). (n, if n = k then f v else v)) kvs) n =
     map_option (\<lambda>v. if n = k then f v else v) (map_of kvs n)"
  by (induction kvs) auto

lemma item_on_field: "item (on_field k f j) n = (if n = k then map_sum id f (item j n) else item j n)"
  by (cases j) (simp_all add: map_of_on_field split: option.split)

lemma as_string_on_string: "as_string (on_string p v) = map_sum id p (as_string v)"
  by (cases v) simp_all

lemma sbind_map_sum: "sbind (map_sum id f r) k = sbind r (\<lambda>x. k (f x))"
  by (cases r) simp_all

lemma map_sum_sbind: "map_sum id f (sbind r k) = sbind r (\<lambda>x. map_sum id f (k x))"
  by (cases r) simp_all

lemma sbind_assoc: "sbind (sbind r f) g = sbind r (\<lambda>x. sbind (f x) g)"
  by (cases r) simp_all

lemma mask_null: "mask p j = JNull \<longleftrightarrow> j = JNull"
  by (cases j) (simp_all add: mask_def)

text \<open>Only the password of the credentials changes.\<close>

definition with_password :: "(string \<Rightarrow> string) \<Rightarrow> creds \<Rightarrow> creds" where
  "with_password p c = c\<lparr>c_password := p (c_password c)\<rparr>"

lemma with_password_fields [simp]:
  "c_username (with_password p c) = c_username c" "c_lease_id (with_password p c) = c_lease_id c"
  "c_lease_duration (with_password p c) = c_lease_duration c"
  "c_password (with_password p c) = p (c_password c)"
  by (simp_all add: with_password_def)

lemma parse_creds_mask: "parse_creds (mask p j) = map_sum id (with_password p) (parse_creds j)"
  by (simp add: parse_creds_def mask_def item_on_field sbind_map_sum as_string_on_string map_sum_sbind
      sbind_assoc with_password_def)

section \<open>Programs that never see a password\<close>

text \<open>\<open>on_return f m\<close>: the same program with another answer.\<close>

definition on_return :: "('a \<Rightarrow> 'b) \<Rightarrow> ('s, 'a) prog \<Rightarrow> ('s, 'b) prog" where
  "on_return f m = bindM m (\<lambda>x. ret (f x))"

lemma lift_map_sum: "lift (map_sum id f r) = on_return f (lift r)"
  by (cases r) (auto simp: on_return_def bindM_def lift_def ret_def)

lemma call_ext_masked:
  "call_ext (vault_read (masked p E) c path) = on_return (mask p) (call_ext (vault_read E c path))"
proof
  fix s
  show "call_ext (vault_read (masked p E) c path) s = on_return (mask p) (call_ext (vault_read E c path)) s"
    by (cases "vault_read E c path (world s)"; cases "fst (vault_read E c path (world s))")
      (auto simp: masked_def call_ext_def on_return_def bindM_def ret_def)
qed

lemma bind_on_return: "bindM (on_return f m) k = bindM m (\<lambda>x. k (f x))"
  by (auto simp: on_return_def bindM_def ret_def fun_eq_iff split: prod.split outcome.split)

lemma on_return_bind: "on_return f (bindM m k) = bindM m (\<lambda>x. on_return f (k x))"
  by (simp add: on_return_def bindM_assoc)

lemma lift_creds_masked:
  "(if mask p x = JNull then raise e else lift (parse_creds (mask p x)))
      = on_return (with_password p) (if x = JNull then raise e else lift (parse_creds x))"
  by (simp add: mask_null parse_creds_mask lift_map_sum)
     (auto simp: on_return_def bindM_def raise_def)

lemma read_credentials_masked:
  "read_credentials (masked p E) tok r = on_return (with_password p) (read_credentials E tok r)"
  by (simp only: read_credentials_def call_ext_masked bind_on_return on_return_bind lift_creds_masked)

lemma world_masked [unseen]:
  "now (masked p E) = now E" "draw_hex (masked p E) n = draw_hex E n"
  "do_sleep (masked p E) d = do_sleep E d" "do_unlink (masked p E) f = do_unlink E f"
  by (simp_all add: now_def draw_hex_def do_sleep_def do_unlink_def)

lemma login_masked [unseen]: "service_login (masked p E) = service_login E"
  unfolding service_login_def read_approle_def unseen by (rule HOL.refl)

lemma service_masked [unseen]: "service_call (masked p E) fn = service_call E fn"
  unfolding service_call_def service_client_def unseen by (rule HOL.refl)

lemma lookup_masked [unseen]: "lookup_accessor (masked p E) a = lookup_accessor E a"
  unfolding lookup_accessor_def unseen by (rule HOL.refl)

lemma client_masked [unseen]:
  "write_role (masked p E) r db cs rs n = write_role E r db cs rs n" "delete_role (masked p E) r = delete_role E r"
  "create_grant_token (masked p E) n r = create_grant_token E n r"
  "find_token_accessors (masked p E) r = find_token_accessors E r" "list_leases (masked p E) r = list_leases E r"
  "revoke_lease (masked p E) l = revoke_lease E l" "revoke_accessor (masked p E) a = revoke_accessor E a"
  "introspect_credentials (masked p E) db = introspect_credentials E db"
  unfolding write_role_def delete_role_def create_grant_token_def find_token_accessors_def
    list_leases_def revoke_lease_def revoke_accessor_def introspect_credentials_def unseen
  by (rule HOL.refl)+

lemma helper_masked [unseen]: "helper_cleanup (masked p E) r l a = helper_cleanup E r l a"
  unfolding helper_cleanup_def unseen by (rule HOL.refl)

lemma on_error_return: "on_error (on_return f m) h = on_return f (on_error m h)"
  by (auto simp: on_error_def on_return_def catchM_def bindM_def seqM_def ret_def raise_def fun_eq_iff
      split: prod.split outcome.split)

lemma manager_masked [unseen]: "run_as_manager (masked p E) db l sts = run_as_manager E db l sts"
  unfolding run_as_manager_def read_credentials_masked on_error_return bind_on_return unseen with_password_fields
  by (rule HOL.refl)

lemma introspect_masked [unseen]:
  "catalog (masked p E) db = catalog E db" "find_accounts (masked p E) db gid = find_accounts E db gid"
  "pg_backends (masked p E) a = pg_backends E a"
  unfolding catalog_def postgres_catalog_def clickhouse_catalog_def find_accounts_def pg_backends_def
    open_pg_def open_ch_def unseen
  by (rule HOL.refl)+

lemma faults_masked [unseen]:
  "point (masked p E) name = point E name" "mutate_statements (masked p E) sts = mutate_statements E sts"
  unfolding point_def mutate_statements_def armed_def unseen by (rule HOL.refl)+

lemma store_masked [unseen]:
  "update_grant (masked p E) gid fs = update_grant E gid fs" "insert_grant (masked p E) n = insert_grant E n"
  "audit (masked p E) rid gid' a b c d = audit E rid gid' a b c d"
  "new_grant_id (masked p E) = new_grant_id E"
  unfolding update_grant_def insert_grant_def audit_def new_grant_id_def unseen by (rule HOL.refl)+

lemma run_masked [unseen]: "run_statements (masked p E) db gid sts = run_statements E db gid sts"
  unfolding run_statements_def unseen by (rule HOL.refl)

lemma loop_masked [unseen]: "terminate_loop n (masked p E) db a gid dl = terminate_loop n E db a gid dl"
proof (induction n)
  case (Suc n)
  show ?case unfolding terminate_loop.simps unseen Suc by (rule HOL.refl)
qed simp

lemma teardown_steps_masked [unseen]: "teardown_steps (masked p E) gid g = teardown_steps E gid g"
  unfolding teardown_steps_def grant_accessors_def lock_out_and_terminate_def drop_account_def
    confirm_gone_def unseen
  by (rule HOL.refl)

lemma teardown_masked [unseen]: "teardown (masked p E) gid final rid actor re = teardown E gid final rid actor re"
proof -
  have "teardown_failed (masked p E) gid rid actor re = teardown_failed E gid rid actor re"
    unfolding teardown_failed_def fun_eq_iff unseen by simp
  then show ?thesis
    unfolding teardown_def teardown_finished_def unseen by simp
qed

lemma issue_failed_masked [unseen]: "issue_failed (masked p E) gid actor rid e = issue_failed E gid actor rid e"
  unfolding issue_failed_def unseen by (rule HOL.refl)

section \<open>Issue\<close>

lemma on_return_seq: "on_return f (seqM m k) = seqM m (on_return f k)"
  by (simp add: seqM_def on_return_bind)

lemma on_return_ret: "on_return f (ret x) = ret (f x)"
  by (simp add: on_return_def bindM_def ret_def fun_eq_iff)

lemma on_return_split: "on_return f (case v of (x, y) \<Rightarrow> k x y) = (case v of (x, y) \<Rightarrow> on_return f (k x y))"
  by (simp split: prod.split)

lemma issue_steps_masked:
  "issue_steps (masked p E) req gid cs rs = on_return (with_password p) (issue_steps E req gid cs rs)"
  unfolding issue_steps_def read_credentials_masked bind_on_return on_return_bind on_return_seq
    on_return_split on_return_ret with_password_fields unseen
  by (rule HOL.refl)

definition never_returns :: "('s, 'a) prog \<Rightarrow> bool" where
  "never_returns m \<longleftrightarrow> (\<forall>s x. fst (m s) \<noteq> Ret x)"

lemma never_returns_seq: "never_returns k \<Longrightarrow> never_returns (seqM m k)"
  by (auto simp: never_returns_def seqM_def bindM_def split: prod.split outcome.split)

lemma never_returns_failed: "never_returns (issue_failed E gid actor rid e)"
  unfolding issue_failed_def by (intro never_returns_seq) (simp add: never_returns_def raise_def)

lemma catch_on_return:
  assumes "\<And>e. never_returns (h e)"
  shows "catchM (on_return f m) h = on_return f (catchM m h)"
proof
  fix s
  have "fst (h e s') \<noteq> Ret x" for e s' x using assms by (simp add: never_returns_def)
  then show "catchM (on_return f m) h s = on_return f (catchM m h) s"
    by (cases "m s"; cases "fst (m s)")
      (auto simp: on_return_def catchM_def bindM_def ret_def split: prod.split outcome.split, metis fst_conv)
qed

lemma finally_on_return: "finallyM (on_return f m) k = on_return f (finallyM m k)"
  by (auto simp: on_return_def finallyM_def catchM_def bindM_def seqM_def ret_def raise_def fun_eq_iff
      split: prod.split outcome.split)

lemma issue_locked_masked:
  "issue_locked (masked p E) req actor rid gid cs rs
     = on_return (with_password p) (issue_locked E req actor rid gid cs rs)"
  unfolding issue_locked_def issue_steps_masked unseen catch_on_return [OF never_returns_failed]
    bind_on_return on_return_bind on_return_seq on_return_ret
  by (rule HOL.refl)

lemma issue_masked:
  "issue (masked p E) req actor rid = on_return (map_prod id p) (issue E req actor rid)"
  unfolding issue_def issue_locked_masked finally_on_return unseen bind_on_return on_return_bind
    on_return_seq on_return_split on_return_ret with_password_fields map_prod_simp id_apply
  by (rule HOL.refl)

lemma on_return_run: "on_return f m s = (on_answer f (fst (m s)), snd (m s))"
  by (cases "m s"; cases "fst (m s)") (auto simp: on_return_def bindM_def ret_def)

end
