(* ===== verification/Preflight.thy ===== *)
theory Preflight
  imports Python
begin

text \<open>
  \<open>preflight.py\<close>: the check that refuses to start the stack with missing or placeholder secrets. The
  environment is a map of its variables; \<open>main\<close> is the list of lines it prints and its exit status.
\<close>

definition REQUIRED_SECRETS :: "string list" where
  "REQUIRED_SECRETS =
     [''POSTGRES_ADMIN_PASSWORD'', ''PG_MANAGER_PASSWORD'', ''PG_INTROSPECT_PASSWORD'',
      ''CLICKHOUSE_ADMIN_PASSWORD'', ''CLICKHOUSE_MANAGER_PASSWORD'', ''CLICKHOUSE_INTROSPECT_PASSWORD'',
      ''VDBA_ADMIN_PASSWORD'']"

definition MIN_LENGTH :: nat where "MIN_LENGTH = 16"

text \<open>\<open>re.compile(r"[A-Za-z0-9_-]+").fullmatch\<close>.\<close>

definition secret_fullmatch :: "string \<Rightarrow> bool" where
  "secret_fullmatch v \<longleftrightarrow>
     v \<noteq> [] \<and> list_all (\<lambda>c. is_alpha c \<or> is_digit c \<or> c = CHR ''_'' \<or> c = CHR ''-'') v"

definition env_value :: "(string \<rightharpoonup> string) \<Rightarrow> string \<Rightarrow> string" where
  "env_value env name = (case env name of Some v \<Rightarrow> v | None \<Rightarrow> [])"

text \<open>The chain of tests of one secret.\<close>

definition secret_problem :: "string \<Rightarrow> string \<Rightarrow> string option" where
  "secret_problem name value =
     (if value = [] then Some (name @ '' is empty'')
      else if contains ''changeme'' (lower value) then
        Some (name @ '' still contains the placeholder 'changeme'' @ [CHR 0x27])
      else if \<not> secret_fullmatch value then
        Some (name @ '' may only contain letters, digits, '_' and '-'' @ [CHR 0x27])
      else if length value < MIN_LENGTH then
        Some (name @ '' is shorter than '' @ show_nat MIN_LENGTH @ '' characters'')
      else None)"

definition problems :: "(string \<rightharpoonup> string) \<Rightarrow> string list" where
  "problems env =
     List.map_filter (\<lambda>name. secret_problem name (env_value env name)) REQUIRED_SECRETS
     @ (if env_value env ''VDBA_ADMIN_USER'' = [] then [''VDBA_ADMIN_USER is empty''] else [])"

definition preflight_main :: "(string \<rightharpoonup> string) \<Rightarrow> string list \<times> nat" where
  "preflight_main env =
     (let bad = problems env in
      if bad \<noteq> [] then
        (''Refusing to start: fix .env (run `make env` to generate random values):''
           # map (\<lambda>line. ''  - '' @ line) bad, 1)
      else ([''preflight ok''], 0))"

section \<open>Lemmas\<close>

lemma secret_problem_None:
  "secret_problem name v = None \<longleftrightarrow>
     length v \<ge> 16 \<and> secret_fullmatch v \<and> \<not> contains ''changeme'' (lower v)"
  by (auto simp: secret_problem_def MIN_LENGTH_def secret_fullmatch_def)

lemma secret_no_quote:
  "secret_fullmatch v \<Longrightarrow> set v \<inter> {CHR 0x27, CHR 0x22, CHR 0x5C, CHR '';'', CHR '' ''} = {}"
  by (auto simp: secret_fullmatch_def list_all_iff char_class_defs)

section \<open>Property\<close>

text \<open>
  C30. The preflight lets the stack start exactly when every required secret has at least 16 characters,
  all of them letters, digits, underscores or dashes, and is not the placeholder in any case, and the
  administrator's name is set; a secret that passes holds no quote, backslash, semicolon or space, so it
  can stand in the SQL literals of the init scripts as it is.
\<close>

theorem preflight_passes_iff:
  "(snd (preflight_main env) = 0 \<longleftrightarrow>
      (\<forall>name\<in>set REQUIRED_SECRETS.
         length (env_value env name) \<ge> 16 \<and> secret_fullmatch (env_value env name)
         \<and> \<not> contains ''changeme'' (lower (env_value env name)))
      \<and> env_value env ''VDBA_ADMIN_USER'' \<noteq> [])
   \<and> (snd (preflight_main env) = 0 \<longrightarrow>
        (\<forall>name\<in>set REQUIRED_SECRETS.
           set (env_value env name) \<inter> {CHR 0x27, CHR 0x22, CHR 0x5C, CHR '';'', CHR '' ''} = {}))"
proof -
  have "snd (preflight_main env) = 0 \<longleftrightarrow> problems env = []"
    by (simp add: preflight_main_def Let_def)
  also have "\<dots> \<longleftrightarrow> (\<forall>name\<in>set REQUIRED_SECRETS. secret_problem name (env_value env name) = None)
      \<and> env_value env ''VDBA_ADMIN_USER'' \<noteq> []"
    by (auto simp: problems_def List.map_filter_def filter_empty_conv)
  finally show ?thesis using secret_no_quote by (auto simp: secret_problem_None)
qed

text \<open>An environment that passes, and one with a placeholder.\<close>

definition example_secrets :: "string \<rightharpoonup> string" where
  "example_secrets name =
     (if name = ''VDBA_ADMIN_USER'' then Some ''admin'' else Some ''0123456789abcdef-_Z'')"

theorem preflight_passes_iff_witness:
  "snd (preflight_main example_secrets) = 0
   \<and> snd (preflight_main (example_secrets(''VDBA_ADMIN_PASSWORD'' \<mapsto> ''ChangeMe-0123456789''))) = 1"
proof -
  have ok: "snd (preflight_main example_secrets) = 0"
    by (rule preflight_passes_iff [THEN conjunct1, THEN iffD2])
       (simp add: REQUIRED_SECRETS_def example_secrets_def env_value_def secret_fullmatch_def lower_def
         lower_char_def char_class_defs)
  moreover have "snd (preflight_main (example_secrets(''VDBA_ADMIN_PASSWORD'' \<mapsto> ''ChangeMe-0123456789''))) = 1"
    by code_simp
  ultimately show ?thesis by simp
qed

end
