(* ===== verification/Transport.thy ===== *)
theory Transport
  imports Config Urls
begin

text \<open>
  \<open>config.check_transport\<close>: the check at start-up that plain-text transport was asked for.
\<close>

definition WEAK_SSLMODES :: "string set" where
  "WEAK_SSLMODES = {''disable'', ''allow'', ''prefer''}"

definition SSLMODES :: "string set" where
  "SSLMODES = WEAK_SSLMODES \<union> {''require'', ''verify-ca'', ''verify-full''}"

definition loopback_hosts :: "string set" where
  "loopback_hosts = {''localhost'', ''127.0.0.1'', ''::1''}"

definition loopback :: "split_url \<Rightarrow> bool" where
  "loopback u \<longleftrightarrow> (case hostname u of Some h \<Rightarrow> h \<in> loopback_hosts | None \<Rightarrow> False)"

definition check_transport :: "(string \<Rightarrow> exn option) \<Rightarrow> config \<Rightarrow> exn + unit" where
  "check_transport ip_check c =
     (if PG_SSLMODE c \<notin> SSLMODES then Inl (Exn SystemExit (''VDBA_PG_SSLMODE='' @ py_repr (PG_SSLMODE c) @ '' is not one of '' @
        py_repr_list (sorted_list_of_set SSLMODES)))
      else if PG_SSLMODE c \<in> WEAK_SSLMODES \<and> \<not> ALLOW_INSECURE c then
        Inl (Exn SystemExit (''VDBA_PG_SSLMODE='' @ PG_SSLMODE c @ '' needs VDBA_ALLOW_INSECURE=1 (demo only)''))
      else if PUBLIC_ORIGIN c = [] then Inr ()
      else sbind (urlsplit ip_check (PUBLIC_ORIGIN c)) (\<lambda>parts.
           if u_scheme parts \<noteq> ''https'' \<and> \<not> loopback parts \<and> \<not> ALLOW_INSECURE c then
             Inl (Exn SystemExit (''VDBA_PUBLIC_ORIGIN is plain http on a non-loopback host: put TLS in ''
               @ ''front of the portal or set VDBA_ALLOW_INSECURE=1''))
           else Inr ()))"

section \<open>Properties\<close>

lemma load_config_insecure:
  "load_config env = Inr c \<Longrightarrow> ALLOW_INSECURE c \<longleftrightarrow> env ''VDBA_ALLOW_INSECURE'' = Some ''1''"
  by (auto simp: load_config_def sbind_Inr)


definition example_environ :: environ where
  "example_environ =
     [''VDBA_PG_SSLROOTCERT'' \<mapsto> ''/certs/ca.pem'', ''VDBA_PUBLIC_ORIGIN'' \<mapsto> ''http://localhost:8080'']"


text \<open>
  Numbers in the environment. Every integer written in decimal is read back as that integer by the
  integer settings, and a setting that is not set has its default; any other text is a \<open>ValueError\<close>.
\<close>

lemma integer_settings_round_trip:
  "env_int (env(name \<mapsto> show_int i)) name d = Inr i
   \<and> env_int (env(name := None)) name d = Inr d
   \<and> (case env_int env name d of Inl e \<Rightarrow> exc_class e = ValueError | Inr _ \<Rightarrow> True)"
  by (auto simp: env_int_def py_int_show_int split: option.split)

end
