(* ===== verification/Guard.thy ===== *)
theory Guard
  imports Models
begin

text \<open>
  The class \<open>Guard\<close> of \<open>main.py\<close>: the ASGI wrapper that gives every request an id, limits the size of its body
  and adds the security headers. The application inside is an interaction tree, the parameter of the wrapper:
  it receives messages, sends messages, ends or raises, in any order and number. Byte strings are
  strings of characters.
\<close>

section \<open>Messages and applications\<close>

type_synonym headers = "(string \<times> string) list"

datatype asgi_in = Http_Request (chunk: string) (more_body: bool) | Disconnect

datatype asgi_out = Response_Start nat headers | Response_Body string

datatype app =
    Finished
  | Failed exn
  | Receive "exn + asgi_in \<Rightarrow> app"    \<comment> \<open>\<open>await receive()\<close>, which may raise\<close>
  | Send asgi_out app

section \<open>The checks on the headers\<close>

text \<open>\<open>{k.lower(): v for k, v in scope["headers"]}\<close>: the last value of a name; only ASCII letters are lowered.\<close>

definition ascii_lower :: "string \<Rightarrow> string" where
  "ascii_lower s = map (\<lambda>c. if is_upper c then char_of (code c + 32) else c) s"

definition header_map :: "headers \<Rightarrow> string \<rightharpoonup> string" where
  "header_map hs = map_of (rev (map (\<lambda>(k, v). (ascii_lower k, v)) hs))"

text \<open>
  \<open>length.isdigit()\<close>, and \<open>int(length)\<close> for such a text; above 4300 digits the conversion is a \<open>ValueError\<close>, which
  leaves the wrapper before the application is called.
\<close>

definition all_digits :: "string \<Rightarrow> bool" where
  "all_digits s \<longleftrightarrow> s \<noteq> [] \<and> list_all is_digit s"

definition digits_value :: "string \<Rightarrow> int" where
  "digits_value s = foldl (\<lambda>n c. 10 * n + int (code c - 48)) 0 s"

definition INT_MAX_STR_DIGITS :: nat where "INT_MAX_STR_DIGITS = 4300"

datatype verdict = Pass | Reject nat string | Fault exn

definition check_headers :: "headers \<Rightarrow> verdict" where
  "check_headers hs =
     (let te = header_map hs ''transfer-encoding''; len = header_map hs ''content-length'' in
      if te \<noteq> None \<and> len \<noteq> None then Reject 400 ''Transfer-Encoding and Content-Length together''
      else case len of
             None \<Rightarrow> Pass
           | Some l \<Rightarrow>
               if \<not> all_digits l then Reject 413 ''request body too large''
               else if length l > INT_MAX_STR_DIGITS then
                 Fault (Exn ValueError ''Exceeds the limit (4300 digits) for integer string conversion'')
               else if digits_value l > int BODY_LIMIT then Reject 413 ''request body too large''
               else Pass)"

section \<open>The wrapped calls\<close>

definition CSP :: string where
  "CSP = ''default-src 'none'; style-src 'unsafe-inline'; script-src 'unsafe-inline'; connect-src 'self'; ''
         @ ''form-action 'self'; frame-ancestors 'none'; base-uri 'none'' @ [CHR 0x27]"

definition security_headers :: "string \<Rightarrow> headers" where
  "security_headers rid =
     [(''x-request-id'', rid), (''cache-control'', ''no-store''), (''pragma'', ''no-cache''),
      (''x-content-type-options'', ''nosniff''), (''x-frame-options'', ''DENY''),
      (''referrer-policy'', ''no-referrer''), (''content-security-policy'', CSP)]"

definition too_large :: exn where
  "too_large = Exn (OtherExc ''TooLarge'') []"

record counter =
  received :: nat
  exceeded :: bool

fun counting_receive :: "counter \<Rightarrow> asgi_in \<Rightarrow> (exn + asgi_in) \<times> counter" where
  "counting_receive c (Http_Request body m) =
     (let n = received c + length body in
      if n > BODY_LIMIT then (Inl too_large, c\<lparr>received := n, exceeded := True\<rparr>)
      else (Inr (Http_Request body m), c\<lparr>received := n\<rparr>))"
| "counting_receive c Disconnect = (Inr Disconnect, c)"

fun send_wrapper :: "string \<Rightarrow> counter \<Rightarrow> asgi_out \<Rightarrow> asgi_out" where
  "send_wrapper rid c (Response_Start status hs) =
     Response_Start (if exceeded c \<and> status = 400 then 413 else status) (hs @ security_headers rid)"
| "send_wrapper rid c (Response_Body b) = Response_Body b"

text \<open>The two messages of \<open>_reject\<close>.\<close>

definition reject_body :: "string \<Rightarrow> string" where
  "reject_body t = [CHR 0x7B, CHR 0x22] @ ''detail'' @ [CHR 0x22, CHR '':'', CHR 0x22] @ t @ [CHR 0x22, CHR 0x7D]"

definition reject :: "string \<Rightarrow> nat \<Rightarrow> string \<Rightarrow> asgi_out list" where
  "reject rid status t =
     [Response_Start status
        [(''content-type'', ''application/json''), (''content-length'', show_nat (length (reject_body t))),
         (''x-request-id'', rid), (''cache-control'', ''no-store'')],
      Response_Body (reject_body t)]"

section \<open>The wrapper\<close>

text \<open>
  What the application gets from its calls of \<open>receive\<close>, what goes out to the client, and the exception that leaves
  the application, if any. A client that has sent all its messages has disconnected.
\<close>

primrec guard_run ::
  "app \<Rightarrow> string \<Rightarrow> counter \<Rightarrow> asgi_in list \<Rightarrow> (exn + asgi_in) list \<times> asgi_out list \<times> exn option" where
  "guard_run Finished rid c stream = ([], [], None)"
| "guard_run (Failed e) rid c stream = ([], [], Some e)"
| "guard_run (Receive k) rid c stream =
     (let (m, rest) = (case stream of [] \<Rightarrow> (Disconnect, []) | x # xs \<Rightarrow> (x, xs));
          (got, c') = counting_receive c m;
          (ins, outs, err) = guard_run (k got) rid c' rest
      in (got # ins, outs, err))"
| "guard_run (Send m a) rid c stream =
     (let (ins, outs, err) = guard_run a rid c stream in (ins, send_wrapper rid c m # outs, err))"

definition guard ::
  "app \<Rightarrow> string \<Rightarrow> headers \<Rightarrow> asgi_in list \<Rightarrow> (exn + asgi_in) list \<times> asgi_out list \<times> exn option" where
  "guard a rid hs stream =
     (case check_headers hs of
        Reject status t \<Rightarrow> ([], reject rid status t, None)
      | Fault e \<Rightarrow> ([], [], Some e)
      | Pass \<Rightarrow> guard_run a rid \<lparr>received = 0, exceeded = False\<rparr> stream)"

section \<open>Properties\<close>

fun body_bytes :: "exn + asgi_in \<Rightarrow> nat" where
  "body_bytes (Inr (Http_Request b m)) = length b"
| "body_bytes _ = 0"

text \<open>What every answer carries, and what every answer of the application carries.\<close>

fun start_has :: "headers \<Rightarrow> asgi_out \<Rightarrow> bool" where
  "start_has req (Response_Start status hs) \<longleftrightarrow> set req \<subseteq> set hs"
| "start_has req (Response_Body b) \<longleftrightarrow> True"

lemma receive_bytes:
  "counting_receive c m = (got, c') \<Longrightarrow> body_bytes got + (BODY_LIMIT - received c') \<le> BODY_LIMIT - received c"
  by (cases m) (auto simp: Let_def split: if_splits)

lemma guard_run_bytes:
  "guard_run a rid c stream = (ins, outs, err) \<Longrightarrow> sum_list (map body_bytes ins) \<le> BODY_LIMIT - received c"
proof (induction a arbitrary: c stream ins outs err)
  case (Receive k)
  obtain m rest where m: "(case stream of [] \<Rightarrow> (Disconnect, []) | x # xs \<Rightarrow> (x, xs)) = (m, rest)" by fastforce
  obtain got c' where g: "counting_receive c m = (got, c')" by fastforce
  obtain ins' outs' err' where r: "guard_run (k got) rid c' rest = (ins', outs', err')" by (metis prod_cases3)
  have "ins = got # ins'" using Receive.prems by (simp add: m g r)
  moreover have "sum_list (map body_bytes ins') \<le> BODY_LIMIT - received c'"
    using Receive.IH [OF rangeI r] .
  ultimately show ?case using receive_bytes [OF g] by simp
qed (auto split: prod.splits)

lemma guard_run_headers: "list_all (start_has (security_headers rid)) (fst (snd (guard_run a rid c stream)))"
proof (induction a arbitrary: c stream)
  case (Receive k)
  then show ?case by (simp add: case_prod_beta Let_def)
next
  case (Send m a)
  have "start_has (security_headers rid) (send_wrapper rid c m)" by (cases m) auto
  with Send show ?case by (simp add: case_prod_beta)
qed auto

text \<open>
  C31. The body limit is real. Whatever a client declares and however it cuts its body into chunks, and
  whatever the application does, the application never gets more than the limit of 64 KiB of a request's body.
\<close>

theorem body_limit_holds:
  "sum_list (map body_bytes (fst (guard a rid hs stream))) \<le> BODY_LIMIT"
proof -
  obtain ins outs err where "guard_run a rid \<lparr>received = 0, exceeded = False\<rparr> stream = (ins, outs, err)"
    by (metis prod_cases3)
  then show ?thesis using guard_run_bytes by (fastforce simp: guard_def split: verdict.split)
qed

text \<open>
  C32. No answer leaves without its headers: every response, also one the wrapper gives itself, starts
  with the request's id and forbids caching, and every response of the application has all the
  security headers. A request with both a length and a transfer encoding, or with a length that is no number within
  the limit, never reaches the application.
\<close>

theorem responses_are_guarded:
  "list_all (start_has [(''x-request-id'', rid), (''cache-control'', ''no-store'')]) (fst (snd (guard a rid hs stream)))
   \<and> (case check_headers hs of
        Pass \<Rightarrow> list_all (start_has (security_headers rid)) (fst (snd (guard a rid hs stream)))
          \<and> (case header_map hs ''content-length'' of None \<Rightarrow> True
             | Some l \<Rightarrow> header_map hs ''transfer-encoding'' = None \<and> all_digits l \<and> digits_value l \<le> 65536)
      | Reject status t \<Rightarrow> status \<in> {400, 413} \<and> fst (guard a rid hs stream) = []
      | Fault e \<Rightarrow> guard a rid hs stream = ([], [], Some e))"
proof -
  have weaker: "start_has (security_headers rid) m \<Longrightarrow>
      start_has [(''x-request-id'', rid), (''cache-control'', ''no-store'')] m" for m
    by (cases m) (auto simp: security_headers_def)
  have "list_all (start_has [(''x-request-id'', rid), (''cache-control'', ''no-store'')])
      (fst (snd (guard_run a rid c stream)))" for c
    using guard_run_headers weaker by (auto simp: list_all_iff)
  moreover have "list_all (start_has [(''x-request-id'', rid), (''cache-control'', ''no-store'')]) (reject rid status t)"
    for status t by (simp add: reject_def)
  moreover have "check_headers hs = Pass \<Longrightarrow> header_map hs ''content-length'' = Some l \<Longrightarrow>
      header_map hs ''transfer-encoding'' = None \<and> all_digits l \<and> digits_value l \<le> 65536" for l
    by (auto simp: check_headers_def Let_def BODY_LIMIT_def split: if_splits)
  moreover have "check_headers hs = Reject status t \<Longrightarrow> status \<in> {400, 413}" for status t
    by (auto simp: check_headers_def Let_def split: if_splits option.splits)
  ultimately show ?thesis
    using guard_run_headers by (auto simp: guard_def split: verdict.split option.split)
qed

end
