(* ===== verification/Policies.thy ===== *)
theory Policies
  imports Python
begin

text \<open>
  The Vault policies \<open>setup.py\<close> installs, as the texts it writes, and what they allow: a reader for the lines
  of such a text, and Vault's rule for a path (an exact rule first, else the longest rule that ends in a star and whose
  rest is a prefix of the path).
\<close>

section \<open>The texts\<close>

definition unlines :: "string list \<Rightarrow> string" where
  "unlines ls = concat (map (\<lambda>l. l @ [CHR 0x0A]) ls)"

definition PASSWORD_POLICY_HCL :: string where
  \<open>PASSWORD_POLICY_HCL = unlines
     [[], ''length = 24'',
      ''rule "charset" { charset = "abcdefghijklmnopqrstuvwxyz" min-chars = 4 }'',
      ''rule "charset" { charset = "ABCDEFGHIJKLMNOPQRSTUVWXYZ" min-chars = 4 }'',
      ''rule "charset" { charset = "0123456789" min-chars = 4 }'',
      ''rule "charset" { charset = "-_" min-chars = 1 }'']\<close>

definition SERVICE_POLICY :: string where
  \<open>SERVICE_POLICY = unlines
     [[],
      ''# Roles are written by the middleware with fixed, code-generated templates.'',
      ''path "database/roles/vdba_*" { capabilities = ["create", "read", "update", "delete"] }'',
      ''path "database/rotate-root/postgres" { capabilities = ["update"] }'',
      ''path "database/rotate-root/clickhouse" { capabilities = ["update"] }'',
      ''path "kv/data/vdba/introspect/*" { capabilities = ["read"] }'',
      ''# One orphan token per grant, from a token role with a FIXED allowed policy.'',
      ''path "auth/token/create/vdba-grant" { capabilities = ["create", "update"] }'',
      ''path "auth/token/revoke-accessor" { capabilities = ["update"] }'',
      ''# Revocation (no sudo, no revoke-prefix) and lease discovery for the reconciler.'',
      ''path "sys/leases/revoke/database/creds/vdba_*" { capabilities = ["update"] }'',
      ''# (listing leases requires sudo in Vault; scoped to our own role prefix only)'',
      ''path "sys/leases/lookup/database/creds/vdba_*" { capabilities = ["list", "sudo"] }'',
      ''path "auth/token/lookup-self" { capabilities = ["read"] }'',
      ''# Needed to revoke its own previous token on re-login (token_no_default_policy drops the default policy's grant).'',
      ''path "auth/token/revoke-self" { capabilities = ["update"] }'',
      ''# Read-only view of the two connections (never returns the password): lets a later setup run re-check them.'',
      ''path "database/config/postgres" { capabilities = ["read"] }'',
      ''path "database/config/clickhouse" { capabilities = ["read"] }'',
      ''# Session re-validation reads the CURRENT policies of an admin user (never the password hash).'',
      ''path "auth/userpass/users/*" { capabilities = ["read"] }'',
      ''# Recovery of a grant token whose create response was lost: find it by its display name (grant id).'',
      ''# Accessors are not credentials; listing them needs sudo on this one path.'',
      ''path "auth/token/accessors" { capabilities = ["list", "sudo"] }'',
      ''path "auth/token/lookup-accessor" { capabilities = ["update"] }'',
      ''# Deliberately absent: sys/policies/*, database/config WRITES, database/creds/*, sys/leases/revoke-prefix.'']\<close>

definition CREDS_READER_POLICY :: string where
  \<open>CREDS_READER_POLICY = unlines [''path "database/creds/vdba_*" { capabilities = ["read"] }'']\<close>

definition ADMIN_POLICY :: string where
  \<open>ADMIN_POLICY = unlines
     [''# Marker policy: portal administrators hold NO direct Vault privileges.'',
      ''path "sys/capabilities-self" { capabilities = ["update"] }'']\<close>

section \<open>What a policy allows\<close>

text \<open>The parts of a line between its double quotes: a path and its capabilities.\<close>

fun quoted_parts :: "bool \<Rightarrow> string \<Rightarrow> string list" where
  "quoted_parts inside [] = []"
| "quoted_parts inside (c # cs) =
     (if c = CHR 0x22 then
        (if inside then quoted_parts False cs else takeWhile (\<lambda>x. x \<noteq> CHR 0x22) cs # quoted_parts True cs)
      else quoted_parts inside cs)"

fun lines :: "string \<Rightarrow> string list" where
  "lines [] = [[]]"
| "lines (c # cs) =
     (if c = CHR 0x0A then [] # lines cs
      else case lines cs of [] \<Rightarrow> [[c]] | l # ls \<Rightarrow> (c # l) # ls)"

definition rule_of_line :: "string \<Rightarrow> (string \<times> string list) option" where
  "rule_of_line l =
     (if prefix ''path '' l then
        (case quoted_parts False l of p # caps \<Rightarrow> Some (p, caps) | [] \<Rightarrow> None)
      else None)"

definition policy_rules :: "string \<Rightarrow> (string \<times> string list) list" where
  "policy_rules text = List.map_filter rule_of_line (lines text)"

definition star_matches :: "string \<Rightarrow> string \<Rightarrow> bool" where
  "star_matches pat path \<longleftrightarrow> pat \<noteq> [] \<and> last pat = CHR ''*'' \<and> prefix (butlast pat) path"

definition longest :: "(string \<times> 'a) list \<Rightarrow> (string \<times> 'a) option" where
  "longest rs = foldl (\<lambda>best r. case best of None \<Rightarrow> Some r
     | Some b \<Rightarrow> if length (fst b) < length (fst r) then Some r else Some b) None rs"

definition capabilities :: "string \<Rightarrow> string \<Rightarrow> string list" where
  "capabilities text path =
     (case map_of (policy_rules text) path of
        Some caps \<Rightarrow> caps
      | None \<Rightarrow>
          (case longest (filter (\<lambda>(p, _). star_matches p path) (policy_rules text)) of
             Some (_, caps) \<Rightarrow> caps
           | None \<Rightarrow> []))"

definition allows :: "string \<Rightarrow> string \<Rightarrow> string \<Rightarrow> bool" where
  "allows text cap path \<longleftrightarrow> cap \<in> set (capabilities text path)"

text \<open>A text made of lines is read line by line.\<close>

lemma lines_unlines: "list_all (\<lambda>l. CHR 0x0A \<notin> set l) ls \<Longrightarrow> lines (unlines ls) = ls @ [[]]"
proof (induction ls)
  case (Cons l ls)
  have "lines (l @ CHR 0x0A # t) = l # lines t" if "CHR 0x0A \<notin> set l" for l t
    using that by (induction l) auto
  then show ?case using Cons by (simp add: unlines_def)
qed (simp add: unlines_def)

lemma policy_rules_unlines:
  "list_all (\<lambda>l. CHR 0x0A \<notin> set l) ls \<Longrightarrow> policy_rules (unlines ls) = List.map_filter rule_of_line ls"
  by (simp add: policy_rules_def lines_unlines map_filter_def rule_of_line_def)

lemma service_rules:
  "policy_rules SERVICE_POLICY =
     [(''database/roles/vdba_*'', [''create'', ''read'', ''update'', ''delete'']),
      (''database/rotate-root/postgres'', [''update'']),
      (''database/rotate-root/clickhouse'', [''update'']),
      (''kv/data/vdba/introspect/*'', [''read'']),
      (''auth/token/create/vdba-grant'', [''create'', ''update'']),
      (''auth/token/revoke-accessor'', [''update'']),
      (''sys/leases/revoke/database/creds/vdba_*'', [''update'']),
      (''sys/leases/lookup/database/creds/vdba_*'', [''list'', ''sudo'']),
      (''auth/token/lookup-self'', [''read'']),
      (''auth/token/revoke-self'', [''update'']),
      (''database/config/postgres'', [''read'']),
      (''database/config/clickhouse'', [''read'']),
      (''auth/userpass/users/*'', [''read'']),
      (''auth/token/accessors'', [''list'', ''sudo'']),
      (''auth/token/lookup-accessor'', [''update''])]"
  unfolding SERVICE_POLICY_def
  by (subst policy_rules_unlines, code_simp, code_simp)

section \<open>Least privilege\<close>

lemma star_rules:
  "filter (\<lambda>(p, _). star_matches p path) (policy_rules SERVICE_POLICY) =
     (if prefix ''database/roles/vdba_'' path then [(''database/roles/vdba_*'', [''create'', ''read'', ''update'', ''delete''])]
      else if prefix ''kv/data/vdba/introspect/'' path then [(''kv/data/vdba/introspect/*'', [''read''])]
      else if prefix ''sys/leases/revoke/database/creds/vdba_'' path
      then [(''sys/leases/revoke/database/creds/vdba_*'', [''update''])]
      else if prefix ''sys/leases/lookup/database/creds/vdba_'' path
      then [(''sys/leases/lookup/database/creds/vdba_*'', [''list'', ''sudo''])]
      else if prefix ''auth/userpass/users/'' path then [(''auth/userpass/users/*'', [''read''])]
      else [])"
  unfolding service_rules by (auto simp: star_matches_def prefix_def)

lemma service_capabilities:
  "capabilities SERVICE_POLICY path =
     (case map_of (policy_rules SERVICE_POLICY) path of
        Some caps \<Rightarrow> caps
      | None \<Rightarrow>
          if prefix ''database/roles/vdba_'' path then [''create'', ''read'', ''update'', ''delete'']
          else if prefix ''kv/data/vdba/introspect/'' path then [''read'']
          else if prefix ''sys/leases/revoke/database/creds/vdba_'' path then [''update'']
          else if prefix ''sys/leases/lookup/database/creds/vdba_'' path then [''list'', ''sudo'']
          else if prefix ''auth/userpass/users/'' path then [''read'']
          else [])"
  unfolding capabilities_def star_rules by (simp add: longest_def split: option.split)


end
