(* ===== verification/Json_Text.thy ===== *)
theory Json_Text
  imports Python "HOL-Library.AList"
begin

text \<open>
  \<open>json.dumps\<close> with its defaults and \<open>json.loads\<close>, on the values of \<open>json\<close>: a number with a fraction or an
  exponent, \<open>NaN\<close> and \<open>Infinity\<close>, and an escape of a code point above 255 have no value there and are read as
  the error of a malformed text. The last lemma is the round trip.
\<close>

section \<open>Writing\<close>

definition quote :: char where "quote = CHR 0x22"
definition backslash :: char where "backslash = CHR 0x5C"

definition hex2 :: "nat \<Rightarrow> string" where
  "hex2 n = [hex_digit (n div 16), hex_digit (n mod 16)]"

definition dump_char :: "char \<Rightarrow> string" where
  "dump_char c =
     (if c = quote \<or> c = backslash then [backslash, c]
      else if code c = 10 then [backslash, CHR ''n'']
      else if code c = 13 then [backslash, CHR ''r'']
      else if code c = 9 then [backslash, CHR ''t'']
      else if code c = 12 then [backslash, CHR ''f'']
      else if code c = 8 then [backslash, CHR ''b'']
      else if code c < 32 \<or> 126 < code c then [backslash, CHR ''u''] @ ''00'' @ hex2 (code c)
      else [c])"

definition dump_string :: "string \<Rightarrow> string" where
  "dump_string s = quote # concat (map dump_char s) @ [quote]"

fun dumps :: "json \<Rightarrow> string" where
  "dumps JNull = ''null''"
| "dumps (JBool b) = (if b then ''true'' else ''false'')"
| "dumps (JInt i) = show_int i"
| "dumps (JStr s) = dump_string s"
| "dumps (JArr xs) = [CHR 0x5B] @ join '', '' (map dumps xs) @ [CHR 0x5D]"
| "dumps (JObj kvs) =
     [CHR 0x7B] @ join '', '' (map (\<lambda>(k, v). dump_string k @ '': '' @ dumps v) kvs) @ [CHR 0x7D]"

section \<open>Reading\<close>

definition json_space :: "char \<Rightarrow> bool" where
  "json_space c \<longleftrightarrow> code c = 32 \<or> code c = 9 \<or> code c = 10 \<or> code c = 13"

definition skip_space :: "string \<Rightarrow> string" where
  "skip_space s = dropWhile json_space s"

definition hex_value :: "char \<Rightarrow> nat option" where
  "hex_value c =
     (if is_digit c then Some (code c - 48)
      else if 97 \<le> code c \<and> code c \<le> 102 then Some (code c - 87)
      else if 65 \<le> code c \<and> code c \<le> 70 then Some (code c - 55)
      else None)"

definition unicode_escape :: "char \<Rightarrow> char \<Rightarrow> char \<Rightarrow> char \<Rightarrow> char option" where
  "unicode_escape a b c d =
     (case (hex_value a, hex_value b, hex_value c, hex_value d) of
        (Some 0, Some 0, Some h, Some l) \<Rightarrow> Some (char_of (16 * h + l))
      | _ \<Rightarrow> None)"

definition simple_escape :: "char \<Rightarrow> char option" where
  "simple_escape c =
     (if c = quote \<or> c = backslash \<or> c = CHR ''/'' then Some c
      else if c = CHR ''b'' then Some (char_of (8 :: nat))
      else if c = CHR ''f'' then Some (char_of (12 :: nat))
      else if c = CHR ''n'' then Some (char_of (10 :: nat))
      else if c = CHR ''r'' then Some (char_of (13 :: nat))
      else if c = CHR ''t'' then Some (char_of (9 :: nat))
      else None)"

definition cons_to :: "char option \<Rightarrow> (string \<times> string) option \<Rightarrow> (string \<times> string) option" where
  "cons_to c r = (case (c, r) of (Some x, Some (s, t)) \<Rightarrow> Some (x # s, t) | _ \<Rightarrow> None)"

text \<open>The rest of a string after its opening quote: its text and what follows the closing quote.\<close>

fun scan_string :: "string \<Rightarrow> (string \<times> string) option" where
  "scan_string [] = None"
| "scan_string [c] = (if c = quote then Some ([], []) else None)"
| "scan_string (c # d # s) =
     (if c = quote then Some ([], d # s)
      else if c = backslash then
        (if d = CHR ''u'' then
           (case s of x1 # x2 # x3 # x4 # s' \<Rightarrow> cons_to (unicode_escape x1 x2 x3 x4) (scan_string s') | _ \<Rightarrow> None)
         else cons_to (simple_escape d) (scan_string s))
      else if code c < 32 then None
      else cons_to (Some c) (scan_string (d # s)))"

text \<open>\<open>-?(0|[1-9][0-9]*)\<close>; what makes it no integer ends it here.\<close>

definition scan_nat :: "string \<Rightarrow> (nat \<times> string) option" where
  "scan_nat s =
     (case s of
        [] \<Rightarrow> None
      | c # cs \<Rightarrow>
          if \<not> is_digit c then None
          else
            let (digits, rest) = (if c = CHR ''0'' then ([c], cs) else (takeWhile is_digit s, dropWhile is_digit s)) in
            if rest \<noteq> [] \<and> hd rest \<in> {CHR ''.'', CHR ''e'', CHR ''E''} then None
            else Some (foldl (\<lambda>n d. 10 * n + (code d - 48)) 0 digits, rest))"

definition scan_int :: "string \<Rightarrow> (json \<times> string) option" where
  "scan_int s =
     (case s of
        [] \<Rightarrow> None
      | c # cs \<Rightarrow>
          if c = CHR ''-'' then map_option (\<lambda>(n, r). (JInt (- int n), r)) (scan_nat cs)
          else map_option (\<lambda>(n, r). (JInt (int n), r)) (scan_nat s))"

text \<open>
  \<open>scan_once\<close>, \<open>JSONArray\<close> and \<open>JSONObject\<close>. Every call consumes a character, so that the length of the text is
  enough as the number \<open>n\<close> of nested and successive calls.
\<close>

fun scan_value :: "nat \<Rightarrow> string \<Rightarrow> (json \<times> string) option"
  and scan_items :: "nat \<Rightarrow> string \<Rightarrow> json list \<Rightarrow> (json \<times> string) option"
  and scan_pairs :: "nat \<Rightarrow> string \<Rightarrow> (string \<times> json) list \<Rightarrow> (json \<times> string) option" where
  "scan_value 0 s = None"
| "scan_value (Suc n) s =
     (case s of
        [] \<Rightarrow> None
      | c # cs \<Rightarrow>
          if c = quote then map_option (\<lambda>(t, r). (JStr t, r)) (scan_string cs)
          else if c = CHR 0x5B then
            (let r = skip_space cs in
             if r \<noteq> [] \<and> hd r = CHR 0x5D then Some (JArr [], tl r) else scan_items n r [])
          else if c = CHR 0x7B then
            (let r = skip_space cs in
             if r \<noteq> [] \<and> hd r = CHR 0x7D then Some (JObj [], tl r) else scan_pairs n r [])
          else if prefix ''null'' s then Some (JNull, drop 4 s)
          else if prefix ''true'' s then Some (JBool True, drop 4 s)
          else if prefix ''false'' s then Some (JBool False, drop 5 s)
          else scan_int s)"
| "scan_items 0 s acc = None"
| "scan_items (Suc n) s acc =
     (case scan_value n s of
        None \<Rightarrow> None
      | Some (v, r) \<Rightarrow>
          (case skip_space r of
             c # cs \<Rightarrow>
               if c = CHR 0x5D then Some (JArr (acc @ [v]), cs)
               else if c = CHR '','' then scan_items n (skip_space cs) (acc @ [v])
               else None
           | [] \<Rightarrow> None))"
| "scan_pairs 0 s acc = None"
| "scan_pairs (Suc n) s acc =
     (case s of
        [] \<Rightarrow> None
      | q # s' \<Rightarrow>
          if q \<noteq> quote then None
          else
            (case scan_string s' of
               None \<Rightarrow> None
             | Some (k, r) \<Rightarrow>
                 (case skip_space r of
                    [] \<Rightarrow> None
                  | c # cs \<Rightarrow>
                      if c \<noteq> CHR '':'' then None
                      else
                        (case scan_value n (skip_space cs) of
                           None \<Rightarrow> None
                         | Some (v, r') \<Rightarrow>
                             (case skip_space r' of
                                [] \<Rightarrow> None
                              | d # ds \<Rightarrow>
                                  if d = CHR 0x7D then Some (JObj (AList.update k v acc), ds)
                                  else if d = CHR '','' then scan_pairs n (skip_space ds) (AList.update k v acc)
                                  else None)))))"

definition loads :: "string \<Rightarrow> exn + json" where
  "loads s =
     (case scan_value (Suc (length s)) (skip_space s) of
        Some (v, r) \<Rightarrow>
          if skip_space r = [] then Inr v else Inl (Exn (OtherExc ''JSONDecodeError'') ''Extra data'')
      | None \<Rightarrow> Inl (Exn (OtherExc ''JSONDecodeError'') ''Expecting value''))"

section \<open>Reading back what was written\<close>

text \<open>A value whose objects have distinct keys, as every \<open>dict\<close> has.\<close>

fun dict_like :: "json \<Rightarrow> bool" where
  "dict_like (JArr xs) \<longleftrightarrow> (\<forall>x\<in>set xs. dict_like x)"
| "dict_like (JObj kvs) \<longleftrightarrow> distinct (map fst kvs) \<and> (\<forall>kv\<in>set kvs. case kv of (k, v) \<Rightarrow> dict_like v)"
| "dict_like _ \<longleftrightarrow> True"

lemma hex_value_digit: "n < 16 \<Longrightarrow> hex_value (hex_digit n) = Some n"
  by (auto simp: hex_value_def hex_digit_def is_digit_def code_def of_char_of)

lemma escape_back: "unicode_escape CHR ''0'' CHR ''0'' (hex_digit (code c div 16)) (hex_digit (code c mod 16)) = Some c"
proof -
  have "code c < 256" using nat_of_char_less_256 [of c] by (simp add: code_def)
  then have "code c div 16 < 16" by simp
  moreover have "hex_value CHR ''0'' = Some 0" by (simp add: hex_value_def char_class_defs)
  ultimately show ?thesis
    by (simp add: unicode_escape_def hex_value_digit) (simp add: code_def)
qed

lemma char_of_code: "code c = n \<Longrightarrow> char_of n = c"
  by (auto simp: code_def)

lemma scan_dump_char: "scan_string (dump_char c @ s) = cons_to (Some c) (scan_string s)"
proof -
  have plain: "scan_string (c # s) = cons_to (Some c) (scan_string s)"
    if "c \<noteq> quote" "c \<noteq> backslash" "\<not> code c < 32"
    using that by (cases s) (auto simp: cons_to_def)
  have esc: "scan_string (backslash # d # s) = cons_to (Some c) (scan_string s)"
    if "simple_escape d = Some c" "d \<noteq> CHR ''u''" for d
    using that by (auto simp: quote_def backslash_def)
  have uni: "scan_string ([backslash, CHR ''u''] @ ''00'' @ hex2 (code c) @ s) = cons_to (Some c) (scan_string s)"
    using escape_back [of c] by (simp add: quote_def backslash_def hex2_def)
  show ?thesis
    using plain esc uni
    by (auto simp: dump_char_def simple_escape_def quote_def backslash_def dest: char_of_code)
qed

lemma scan_dump_string: "scan_string (concat (map dump_char t) @ quote # s) = Some (t, s)"
proof (induction t)
  case Nil
  show ?case by (cases s) simp_all
next
  case (Cons c t)
  then show ?case by (simp add: scan_dump_char cons_to_def)
qed

text \<open>What may follow a value in a text that \<open>dumps\<close> wrote.\<close>

definition ends :: "string \<Rightarrow> bool" where
  "ends r \<longleftrightarrow> r = [] \<or> hd r \<in> {CHR '','', CHR 0x5D, CHR 0x7D}"

lemma ends_Cons [simp]: "ends (c # r) \<longleftrightarrow> c \<in> {CHR '','', CHR 0x5D, CHR 0x7D}"
  by (simp add: ends_def)

lemma foldl_digits: "int_digits ok acc s = Some v \<Longrightarrow> CHR ''_'' \<notin> set s \<Longrightarrow> acc = int n \<Longrightarrow>
    v = int (foldl (\<lambda>n d. 10 * n + (code d - 48)) n s)"
  by (induction ok acc s arbitrary: n rule: int_digits.induct) (auto split: if_splits)

lemma show_nat_head: "show_nat n = c # cs \<Longrightarrow> c = CHR ''0'' \<Longrightarrow> n = 0"
proof (induction n arbitrary: c cs rule: show_nat.induct)
  case (1 n)
  show ?case
  proof (cases "n < 10")
    case True
    with 1(2,3) show ?thesis
      using code_char_of [of "48 + n"] by (subst (asm) show_nat.simps) (auto simp: code_def)
  next
    case False
    then obtain d ds where d: "show_nat (n div 10) = d # ds"
      using show_nat_nonempty [of "n div 10"] by (cases "show_nat (n div 10)") auto
    then have "d = c" using 1(2) False by (subst (asm) show_nat.simps) auto
    with 1(1) [OF False d] 1(3) False show ?thesis by simp
  qed
qed

lemma ends_not_digit: "ends r \<Longrightarrow> takeWhile is_digit r = [] \<and> dropWhile is_digit r = r
    \<and> (r = [] \<or> hd r \<notin> {CHR ''.'', CHR ''e'', CHR ''E''})"
  by (cases r) (auto simp: char_class_defs)

lemma scan_show_nat:
  assumes "ends r"
  shows "scan_nat (show_nat n @ r) = Some (n, r)"
proof -
  obtain c cs where sn: "show_nat n = c # cs"
    using show_nat_nonempty [of n] by (cases "show_nat n") auto
  have dig: "\<forall>d\<in>set (c # cs). is_digit d" using show_nat_digits [of n] by (simp add: sn)
  show ?thesis
  proof (cases "c = CHR ''0''")
    case True
    then have "n = 0" by (rule show_nat_head [OF sn])
    moreover have "show_nat 0 = ''0''" by code_simp
    ultimately have "show_nat n = ''0''" by simp
    then show ?thesis using \<open>n = 0\<close> ends_not_digit [OF assms] by (auto simp: scan_nat_def char_class_defs)
  next
    case False
    have "CHR ''_'' \<notin> set (c # cs)" using dig by (auto simp: char_class_defs)
    then have "foldl (\<lambda>n d. 10 * n + (code d - 48)) 0 (c # cs) = n"
      using foldl_digits [of False 0 "c # cs" "int n" 0] int_digits_show_nat [of n] by (simp add: sn)
    moreover have "takeWhile is_digit (c # cs @ r) = c # cs" "dropWhile is_digit (c # cs @ r) = r"
      using dig ends_not_digit [OF assms] by (simp_all add: takeWhile_append dropWhile_append)
    ultimately show ?thesis
      using False dig ends_not_digit [OF assms] by (auto simp: scan_nat_def sn)
  qed
qed

lemma scan_show_int: "ends r \<Longrightarrow> scan_int (show_int i @ r) = Some (JInt i, r)"
proof -
  assume r: "ends r"
  obtain c cs where sn: "show_nat (nat i) = c # cs"
    using show_nat_nonempty [of "nat i"] by (cases "show_nat (nat i)") auto
  then have "c \<noteq> CHR ''-''" using show_nat_digits [of "nat i"] by (auto simp: char_class_defs)
  then show ?thesis
    using scan_show_nat [OF r, of "nat i"] scan_show_nat [OF r, of "nat (- i)"] sn
    by (auto simp: scan_int_def show_int_def)
qed

text \<open>The first character of a written value decides how it is read.\<close>

lemma show_int_head: "show_int i = c # cs \<Longrightarrow> is_digit c \<or> c = CHR ''-''"
  using show_nat_digits [of "nat i"] by (auto simp: show_int_def split: if_splits)

lemma dumps_head: "\<exists>c cs. dumps j = c # cs \<and> \<not> json_space c \<and> c \<noteq> CHR 0x5D \<and> c \<noteq> CHR 0x7D"
proof (cases j)
  case (JInt i)
  obtain c cs where "show_int i = c # cs"
    using show_nat_nonempty by (cases "show_int i") (auto simp: show_int_def split: if_splits)
  with show_int_head [OF this] JInt show ?thesis by (auto simp: json_space_def char_class_defs)
qed (auto simp: dump_string_def quote_def json_space_def code_def)

lemma skip_dumps: "skip_space (dumps j @ r) = dumps j @ r"
  using dumps_head [of j] by (auto simp: skip_space_def)

lemma skip_one: "skip_space (CHR '' '' # s) = skip_space s"
  by (simp add: skip_space_def json_space_def code_def)

lemma skip_ends: "ends r \<Longrightarrow> skip_space r = r"
  by (cases r) (auto simp: skip_space_def json_space_def code_def)

lemma scan_int_value:
  assumes "ends r"
  shows "scan_value (Suc n) (show_int i @ r) = Some (JInt i, r)"
proof -
  obtain c cs where c: "show_int i = c # cs"
    using show_nat_nonempty by (cases "show_int i") (auto simp: show_int_def split: if_splits)
  from show_int_head [OF c] have "c \<noteq> quote" "c \<noteq> CHR 0x5B" "c \<noteq> CHR 0x7B" "c \<noteq> CHR ''n''" "c \<noteq> CHR ''t''"
    "c \<noteq> CHR ''f''" by (auto simp: quote_def char_class_defs)
  then show ?thesis using scan_show_int [OF assms, of i] by (simp add: c)
qed

lemma join_Cons: "join sep (x # xs) = x @ (if xs = [] then [] else sep @ join sep xs)"
  by (cases xs) simp_all

lemma scan_items_dumps:
  assumes "\<And>x n r. x \<in> set xs \<Longrightarrow> ends r \<Longrightarrow> length (dumps x) \<le> n \<Longrightarrow> scan_value n (dumps x @ r) = Some (x, r)"
    and "xs \<noteq> []" and "length (join '', '' (map dumps xs)) < n"
  shows "scan_items n (join '', '' (map dumps xs) @ CHR 0x5D # r) acc = Some (JArr (acc @ xs), r)"
  using assms
proof (induction xs arbitrary: n acc)
  case (Cons x xs)
  then obtain k where n: "n = Suc k" by (cases n) auto
  show ?case
  proof (cases xs)
    case Nil
    then show ?thesis
      using Cons.prems(1) [of x "CHR 0x5D # r" k] Cons.prems(3) by (simp add: n skip_ends)
  next
    case (Cons y ys)
    let ?rest = "join '', '' (map dumps xs) @ CHR 0x5D # r"
    have j: "join '', '' (map dumps (x # xs)) = dumps x @ '', '' @ join '', '' (map dumps xs)"
      by (simp add: Cons)
    have len: "length (dumps x) \<le> k" "length (join '', '' (map dumps xs)) < k"
      using Cons.prems(3) unfolding j n by simp_all
    have v: "scan_value k (dumps x @ '', '' @ ?rest) = Some (x, '', '' @ ?rest)"
      using Cons.prems(1) [of x "'', '' @ ?rest" k] len by simp
    have "skip_space ?rest = ?rest" by (simp add: Cons join_Cons skip_dumps)
    moreover have "scan_items k ?rest (acc @ [x]) = Some (JArr ((acc @ [x]) @ xs), r)"
      using Cons.prems(1) Cons len by (intro Cons.IH) auto
    ultimately show ?thesis
      using v unfolding j n by (simp add: skip_ends skip_one)
  qed
qed simp

lemma update_new: "k \<notin> fst ` set al \<Longrightarrow> AList.update k v al = al @ [(k, v)]"
  by (induction al) auto

abbreviation dump_pair :: "string \<times> json \<Rightarrow> string" where
  "dump_pair \<equiv> (\<lambda>(k, v). dump_string k @ '': '' @ dumps v)"

lemma scan_pair:
  assumes "\<And>n r. ends r \<Longrightarrow> length (dumps v) \<le> n \<Longrightarrow> scan_value n (dumps v @ r) = Some (v, r)"
    and "ends r" "r \<noteq> []" "length (dumps v) \<le> n" "k \<notin> fst ` set acc"
  shows "scan_pairs (Suc n) (dump_pair (k, v) @ r) acc =
     (if hd r = CHR 0x7D then Some (JObj (acc @ [(k, v)]), tl r)
      else if hd r = CHR '','' then scan_pairs n (skip_space (tl r)) (acc @ [(k, v)])
      else None)"
proof -
  have "dump_pair (k, v) @ r = quote # concat (map dump_char k) @ quote # '': '' @ dumps v @ r"
    by (simp add: dump_string_def)
  moreover have "skip_space ('': '' @ dumps v @ r) = '': '' @ dumps v @ r"
    by (simp add: skip_space_def json_space_def code_def)
  moreover have "skip_space ('' '' @ dumps v @ r) = dumps v @ r"
    by (simp add: skip_one skip_dumps)
  ultimately show ?thesis
    using assms(1) [OF assms(2,4)] skip_ends [OF assms(2)] update_new [OF assms(5), of v] assms(3)
    by (cases r) (simp_all add: scan_dump_string)
qed

lemma scan_pairs_dumps:
  assumes "\<And>k v n r. (k, v) \<in> set kvs \<Longrightarrow> ends r \<Longrightarrow> length (dumps v) \<le> n \<Longrightarrow>
      scan_value n (dumps v @ r) = Some (v, r)"
    and "kvs \<noteq> []" and "length (join '', '' (map dump_pair kvs)) < n" and "distinct (map fst (acc @ kvs))"
  shows "scan_pairs n (join '', '' (map dump_pair kvs) @ CHR 0x7D # r) acc = Some (JObj (acc @ kvs), r)"
  using assms
proof (induction kvs arbitrary: n acc)
  case (Cons p kvs)
  then obtain m where n: "n = Suc m" by (cases n) auto
  obtain k v where p: "p = (k, v)" by fastforce
  have new: "k \<notin> fst ` set acc" using Cons.prems(4) by (auto simp: p)
  have v: "ends r \<Longrightarrow> length (dumps v) \<le> n \<Longrightarrow> scan_value n (dumps v @ r) = Some (v, r)" for n r
    using Cons.prems(1) [of k v] by (simp add: p)
  show ?case
  proof (cases kvs)
    case Nil
    then show ?thesis
      using scan_pair [OF v, of "CHR 0x7D # r" m k acc] Cons.prems(3) new by (simp add: n p)
  next
    case (Cons q qs)
    let ?rest = "join '', '' (map dump_pair kvs) @ CHR 0x7D # r"
    have j: "join '', '' (map dump_pair (p # kvs)) = dump_pair (k, v) @ '', '' @ join '', '' (map dump_pair kvs)"
      by (simp add: Cons p)
    have len: "length (dumps v) \<le> m" "length (join '', '' (map dump_pair kvs)) < m"
      using Cons.prems(3) unfolding j n by simp_all
    have "skip_space (CHR '' '' # ?rest) = ?rest"
      by (cases q) (simp add: Cons join_Cons skip_one skip_space_def dump_string_def quote_def json_space_def code_def)
    moreover have "scan_pairs m ?rest (acc @ [(k, v)]) = Some (JObj ((acc @ [(k, v)]) @ kvs), r)"
      using Cons.prems(1,4) Cons len by (intro Cons.IH) (auto simp: p)
    ultimately show ?thesis
      using scan_pair [OF v, of "'', '' @ ?rest" m k acc] new len unfolding j n by (simp add: p)
  qed
qed simp

lemma scan_dumps:
  "dict_like j \<Longrightarrow> ends r \<Longrightarrow> length (dumps j) \<le> n \<Longrightarrow> scan_value n (dumps j @ r) = Some (j, r)"
proof (induction j arbitrary: n r)
  case (JInt i)
  obtain m where "n = Suc m" using JInt.prems(3) dumps_head [of "JInt i"] by (cases n) auto
  then show ?case using scan_int_value [OF JInt.prems(2), of m i] by simp
next
  case (JStr t)
  obtain m where "n = Suc m" using JStr.prems(3) dumps_head [of "JStr t"] by (cases n) auto
  then show ?case by (simp add: dump_string_def scan_dump_string)
next
  case (JArr xs)
  obtain m where n: "n = Suc m" using JArr.prems(3) by (cases n) auto
  show ?case
  proof (cases xs)
    case Nil
    then show ?thesis by (simp add: n quote_def skip_space_def json_space_def code_def)
  next
    case (Cons y ys)
    then have "skip_space (join '', '' (map dumps xs) @ CHR 0x5D # r) = join '', '' (map dumps xs) @ CHR 0x5D # r"
      using skip_dumps [of y] by (cases ys) simp_all
    moreover obtain c cs where "join '', '' (map dumps xs) = c # cs" "c \<noteq> CHR 0x5D"
      using dumps_head [of y] Cons by (cases ys) auto
    moreover have "scan_items m (join '', '' (map dumps xs) @ CHR 0x5D # r) [] = Some (JArr ([] @ xs), r)"
      using JArr Cons n by (intro scan_items_dumps) auto
    ultimately show ?thesis by (simp add: n quote_def)
  qed
next
  case (JObj kvs)
  obtain m where n: "n = Suc m" using JObj.prems(3) by (cases n) auto
  show ?case
  proof (cases kvs)
    case Nil
    then show ?thesis by (simp add: n quote_def skip_space_def json_space_def code_def)
  next
    case (Cons y ys)
    obtain cs where cs: "join '', '' (map dump_pair kvs) = quote # cs"
      by (cases ys; cases y) (auto simp: Cons dump_string_def)
    moreover have "scan_pairs m (join '', '' (map dump_pair kvs) @ CHR 0x7D # r) [] = Some (JObj ([] @ kvs), r)"
      using JObj Cons n by (intro scan_pairs_dumps) fastforce+
    ultimately show ?thesis by (simp add: n quote_def skip_space_def json_space_def code_def)
  qed
next
  case JNull
  then obtain m where "n = Suc m" by (cases n) auto
  then show ?case by (simp add: quote_def)
next
  case (JBool b)
  then obtain m where "n = Suc m" by (cases n; cases b) auto
  then show ?case by (cases b) (simp_all add: quote_def)
qed

text \<open>\<open>json.loads(json.dumps(v)) == v\<close>.\<close>

lemma loads_dumps: "dict_like j \<Longrightarrow> loads (dumps j) = Inr j"
  using scan_dumps [of j "[]" "Suc (length (dumps j))"] skip_dumps [of j "[]"]
  by (simp add: loads_def ends_def skip_space_def)

text \<open>What is read has distinct keys: a later one replaces an earlier one.\<close>

lemma dict_like_update:
  "dict_like (JObj kvs) \<Longrightarrow> dict_like v \<Longrightarrow> dict_like (JObj (AList.update k v kvs))"
proof (induction kvs)
  case (Cons p kvs)
  obtain a b where p: "p = (a, b)" by fastforce
  have "fst ` set (AList.update k v kvs) = insert k (fst ` set kvs)"
    using dom_update [of k v kvs] by (simp add: dom_map_of_conv_image_fst update_conv')
  then show ?case using Cons p by auto
qed simp

lemma scan_int_dict_like: "scan_int s = Some (v, r) \<Longrightarrow> dict_like v"
  by (auto simp: scan_int_def split: list.splits if_splits)

text \<open>One step of each of the three readers.\<close>

lemma scan_value_step:
  assumes "scan_value (Suc n) s = Some (v, r)"
  shows "(\<exists>t. scan_items n t [] = Some (v, r)) \<or> (\<exists>t. scan_pairs n t [] = Some (v, r)) \<or> dict_like v"
  using assms by (auto simp: Let_def dest: scan_int_dict_like split: list.splits if_splits)

lemma scan_items_step:
  assumes "scan_items (Suc n) s acc = Some (v, r)"
  shows "\<exists>x t. scan_value n s = Some (x, t)
    \<and> (v = JArr (acc @ [x]) \<or> (\<exists>t'. scan_items n t' (acc @ [x]) = Some (v, r)))"
  using assms by (auto split: option.splits list.splits if_splits)

lemma scan_pairs_step:
  assumes "scan_pairs (Suc n) s acc = Some (v, r)"
  shows "\<exists>k x t t'. scan_value n t = Some (x, t')
    \<and> (v = JObj (AList.update k x acc) \<or> (\<exists>t''. scan_pairs n t'' (AList.update k x acc) = Some (v, r)))"
  using assms by (auto split: option.splits list.splits if_splits) blast+

lemma scan_dict_like:
  "(\<forall>s v r. scan_value n s = Some (v, r) \<longrightarrow> dict_like v)
   \<and> (\<forall>s xs v r. scan_items n s xs = Some (v, r) \<longrightarrow> dict_like (JArr xs) \<longrightarrow> dict_like v)
   \<and> (\<forall>s kvs v r. scan_pairs n s kvs = Some (v, r) \<longrightarrow> dict_like (JObj kvs) \<longrightarrow> dict_like v)"
proof (induction n)
  case (Suc n)
  have "dict_like v" if "scan_value (Suc n) s = Some (v, r)" for s v r
    using scan_value_step [OF that] Suc by (metis dict_like.simps(1,2) distinct.simps(1) empty_iff list.set(1) list.simps(8))
  moreover have "dict_like v" if a: "scan_items (Suc n) s xs = Some (v, r)" and d: "dict_like (JArr xs)" for s xs v r
  proof -
    obtain x t where x: "scan_value n s = Some (x, t)"
      and v: "v = JArr (xs @ [x]) \<or> (\<exists>t'. scan_items n t' (xs @ [x]) = Some (v, r))"
      using scan_items_step [OF a] by blast
    then have "dict_like (JArr (xs @ [x]))" using Suc d by auto
    then show ?thesis using v Suc by blast
  qed
  moreover have "dict_like v" if a: "scan_pairs (Suc n) s kvs = Some (v, r)" and d: "dict_like (JObj kvs)" for s kvs v r
  proof -
    obtain k x t t' where x: "scan_value n t = Some (x, t')"
      and v: "v = JObj (AList.update k x kvs) \<or> (\<exists>t''. scan_pairs n t'' (AList.update k x kvs) = Some (v, r))"
      using scan_pairs_step [OF a] by blast
    then have "dict_like (JObj (AList.update k x kvs))" using Suc dict_like_update [OF d] by blast
    then show ?thesis using v Suc by blast
  qed
  ultimately show ?case by blast
qed simp

lemma loads_dict_like: "loads s = Inr v \<Longrightarrow> dict_like v"
  by (auto simp: loads_def simp del: scan_value.simps dest: scan_dict_like [THEN conjunct1, rule_format] split: option.splits if_splits)

end
