(* ===== verification/Setup.thy ===== *)
theory Setup
  imports Config Policies Preflight Json_Text
begin

text \<open>
  \<open>setup.py\<close>: the one-off bootstrap of Vault. Its state is the files it keeps (with mode and owner), what it
  has printed, and the rest of the world. All of hvac is one parameter: a call is a client's token, the name of the
  method and its arguments, and its answer is a JSON value; the calls that were made are recorded in
  order with their answers, so that theorems can speak of them. A file operation may fail or be the last thing the process
  does, as the world decides. The comments and the usage text of the argument parser are left out.
\<close>

section \<open>The state and the outside\<close>

record sfile =
  sf_text :: string
  sf_mode :: nat
  sf_uid :: "int option"        \<comment> \<open>\<open>None\<close> for the user the process runs as\<close>

record hvac_call =
  hc_token :: "string option"
  hc_method :: string
  hc_args :: "(string \<times> json) list"

record 'w box =
  files :: "string \<rightharpoonup> sfile"
  dirs :: "string \<rightharpoonup> nat \<times> int option"
  printed :: "string list"
  calls :: "(hvac_call \<times> json outcome) list"
  outer :: 'w

text \<open>
  The settings read when the module is imported, and the outside: hvac, the faults of file operations by path,
  and the random part of a temporary file's name.
\<close>

record 'w host =
  environ_of :: environ
  conf :: config
  app_uid :: int
  host_uid :: "int option"
  hvac :: "hvac_call \<Rightarrow> 'w \<Rightarrow> json outcome \<times> 'w"
  fs_fault :: "string \<Rightarrow> 'w \<Rightarrow> unit outcome \<times> 'w"
  tmp_name :: "'w \<Rightarrow> string \<times> 'w"

definition env_text :: "'w host \<Rightarrow> string \<Rightarrow> string" where
  "env_text H k = env_get (environ_of H) k []"

definition SECRETS :: "'w host \<Rightarrow> string" where
  "SECRETS H = env_get (environ_of H) ''VDBA_SECRETS_DIR'' ''/secrets''"

definition KEYS_FILE :: "'w host \<Rightarrow> string" where
  "KEYS_FILE H = SECRETS H @ ''/vault-keys.json''"

definition ROOT_TOKEN_FILE :: "'w host \<Rightarrow> string" where
  "ROOT_TOKEN_FILE H = SECRETS H @ ''/root-token''"

definition APPROLE_OUT :: "'w host \<Rightarrow> string" where
  "APPROLE_OUT H = SECRETS H @ ''/approle''"

definition ROLE_ID_FILE :: "'w host \<Rightarrow> string" where
  "ROLE_ID_FILE H = APPROLE_OUT H @ ''/role_id''"

definition SECRET_ID_FILE :: "'w host \<Rightarrow> string" where
  "SECRET_ID_FILE H = APPROLE_OUT H @ ''/secret_id''"

definition PLUGIN_NAME :: string where
  "PLUGIN_NAME = ''clickhouse-database-plugin''"

definition PLUGIN_SHA_FILE :: string where
  "PLUGIN_SHA_FILE = ''/opt/vdba/clickhouse-plugin.sha256''"

definition USERNAME_TEMPLATE :: string where
  "USERNAME_TEMPLATE = [CHR 0x7B, CHR 0x7B] @ '' .RoleName '' @ [CHR 0x7D, CHR 0x7D] @ ''_''
     @ [CHR 0x7B, CHR 0x7B] @ '' random 6 | lowercase '' @ [CHR 0x7D, CHR 0x7D]"

definition PASSWORD_POLICY_NAME :: string where "PASSWORD_POLICY_NAME = ''vdba-password''"
definition SERVICE_POLICY_NAME :: string where "SERVICE_POLICY_NAME = ''vdba-service''"
definition CREDS_READER_POLICY_NAME :: string where "CREDS_READER_POLICY_NAME = ''vdba-creds-reader''"
definition APPROLE_NAME :: string where "APPROLE_NAME = ''vdba-service''"

section \<open>Calls and files\<close>

definition outer_call :: "('w \<Rightarrow> 'a outcome \<times> 'w) \<Rightarrow> ('w box, 'a) prog" where
  "outer_call f s = (case f (outer s) of (r, w) \<Rightarrow> (r, s\<lparr>outer := w\<rparr>))"

definition hv :: "'w host \<Rightarrow> string option \<Rightarrow> string \<Rightarrow> (string \<times> json) list \<Rightarrow> ('w box, json) prog" where
  "hv H c m args s =
     (let call = \<lparr>hc_token = c, hc_method = m, hc_args = args\<rparr> in
      case hvac H call (outer s) of (r, w) \<Rightarrow> (r, s\<lparr>outer := w, calls := calls s @ [(call, r)]\<rparr>))"

definition hv_read :: "'w host \<Rightarrow> string option \<Rightarrow> string \<Rightarrow> ('w box, json) prog" where
  "hv_read H c p = hv H c ''read'' [(''path'', JStr p)]"

definition hv_write ::
  "'w host \<Rightarrow> string option \<Rightarrow> string \<Rightarrow> (string \<times> json) list \<Rightarrow> ('w box, json) prog" where
  "hv_write H c p args = hv H c ''write'' ((''path'', JStr p) # args)"

definition hv_delete :: "'w host \<Rightarrow> string option \<Rightarrow> string \<Rightarrow> ('w box, json) prog" where
  "hv_delete H c p = hv H c ''delete'' [(''path'', JStr p)]"

definition ignored :: "('s, 'a) prog \<Rightarrow> ('s, unit) prog" where
  "ignored m = seqM m skip"

text \<open>\<open>client().auth.approle.login\<close> leaves the client with the token of the answer.\<close>

definition hv_approle_login :: "'w host \<Rightarrow> string \<Rightarrow> string \<Rightarrow> ('w box, string) prog" where
  "hv_approle_login H role_id secret_id =
     bindM (hv H None ''auth.approle.login'' [(''role_id'', JStr role_id), (''secret_id'', JStr secret_id)]) (\<lambda>r.
     lift (sbind (item r ''auth'') (\<lambda>a. sbind (item a ''client_token'') as_string)))"

definition log_line :: "string \<Rightarrow> ('w box, unit) prog" where
  "log_line msg = modify (\<lambda>s. s\<lparr>printed := printed s @ [''[setup] '' @ msg]\<rparr>)"

definition fs :: "'w host \<Rightarrow> string \<Rightarrow> ('w box, unit) prog" where
  "fs H p = outer_call (fs_fault H p)"

definition path_exists :: "string \<Rightarrow> ('w box, bool) prog" where
  "path_exists p = gets (\<lambda>s. files s p \<noteq> None)"

definition read_file :: "'w host \<Rightarrow> string \<Rightarrow> ('w box, string) prog" where
  "read_file H p =
     seqM (fs H p)
     (bindM (gets files) (\<lambda>fl.
      case fl p of
        None \<Rightarrow> raise (Exn OSError ''No such file or directory'')
      | Some f \<Rightarrow> ret (sf_text f)))"

definition put_file :: "string \<Rightarrow> sfile option \<Rightarrow> ('w box, unit) prog" where
  "put_file p f = modify (\<lambda>s. s\<lparr>files := (files s)(p := f)\<rparr>)"

definition unlink_file :: "'w host \<Rightarrow> string \<Rightarrow> ('w box, unit) prog" where
  "unlink_file H p = seqM (fs H p) (put_file p None)"

definition parent :: "string \<Rightarrow> string" where
  "parent p = rev (drop 1 (dropWhile (\<lambda>c. c \<noteq> CHR ''/'') (rev p)))"

text \<open>
  \<open>write_private\<close>: a temporary file beside the target, which \<open>mkstemp\<close> creates empty and with mode 0600, is
  written, given its mode and owner, and moved over the target.
\<close>

definition write_private :: "'w host \<Rightarrow> string \<Rightarrow> string \<Rightarrow> nat \<Rightarrow> int option \<Rightarrow> ('w box, unit) prog" where
  "write_private H path text mode uid =
     bindM (outer_call (\<lambda>w. case tmp_name H w of (n, w') \<Rightarrow> (Ret n, w'))) (\<lambda>n.
     let tmp = parent path @ ''/.tmp-'' @ n in
     bindM (path_exists tmp) (\<lambda>taken.
     if taken then raise (Exn OSError ''No usable temporary file name found'')
     else
       seqM (fs H tmp)
       (seqM (put_file tmp (Some \<lparr>sf_text = [], sf_mode = 384, sf_uid = None\<rparr>))
       (seqM (fs H tmp)
       (seqM (put_file tmp (Some \<lparr>sf_text = text, sf_mode = 384, sf_uid = None\<rparr>))
       (seqM (fs H tmp)
       (seqM (put_file tmp (Some \<lparr>sf_text = text, sf_mode = mode, sf_uid = None\<rparr>))
       (seqM (whenM (uid \<noteq> None)
                (seqM (fs H tmp) (put_file tmp (Some \<lparr>sf_text = text, sf_mode = mode, sf_uid = uid\<rparr>))))
       (seqM (fs H path)
       (modify (\<lambda>s. s\<lparr>files := (files s)(tmp := None, path := files s tmp)\<rparr>)))))))))))"

text \<open>\<open>mkdir(parents=True, exist_ok=True)\<close>, \<open>chmod\<close> and \<open>chown\<close> of a directory.\<close>

definition make_dir :: "'w host \<Rightarrow> string \<Rightarrow> ('w box, unit) prog" where
  "make_dir H p =
     seqM (fs H p)
          (modify (\<lambda>s. if dirs s p = None then s\<lparr>dirs := (dirs s)(p \<mapsto> (493, None))\<rparr> else s))"

definition chmod_dir :: "'w host \<Rightarrow> string \<Rightarrow> nat \<Rightarrow> ('w box, unit) prog" where
  "chmod_dir H p mode =
     seqM (fs H p) (modify (\<lambda>s. s\<lparr>dirs := (dirs s)(p := map_option (\<lambda>(_, u). (mode, u)) (dirs s p))\<rparr>))"

definition chown_dir :: "'w host \<Rightarrow> string \<Rightarrow> int \<Rightarrow> ('w box, unit) prog" where
  "chown_dir H p uid =
     seqM (fs H p) (modify (\<lambda>s. s\<lparr>dirs := (dirs s)(p := map_option (\<lambda>(m, _). (m, Some uid)) (dirs s p))\<rparr>))"

section \<open>Python on JSON values\<close>

text \<open>\<open>repr\<close> and \<open>str\<close> of a value, \<open>k in v\<close>, \<open>v[:n]\<close> and \<open>d[k] = v\<close>.\<close>

fun py_repr_json :: "json \<Rightarrow> string" where
  "py_repr_json JNull = ''None''"
| "py_repr_json (JBool b) = (if b then ''True'' else ''False'')"
| "py_repr_json (JInt i) = show_int i"
| "py_repr_json (JStr s) = py_repr s"
| "py_repr_json (JArr xs) = [CHR 0x5B] @ join '', '' (map py_repr_json xs) @ [CHR 0x5D]"
| "py_repr_json (JObj kvs) =
     [CHR 0x7B] @ join '', '' (map (\<lambda>(k, v). py_repr k @ '': '' @ py_repr_json v) kvs) @ [CHR 0x7D]"

fun py_str :: "json \<Rightarrow> string" where
  "py_str (JStr s) = s"
| "py_str v = py_repr_json v"

fun has_member :: "json \<Rightarrow> string \<Rightarrow> exn + bool" where
  "has_member (JObj kvs) k = Inr (map_of kvs k \<noteq> None)"
| "has_member (JArr xs) k = Inr (JStr k \<in> set xs)"
| "has_member (JStr s) k = Inr (contains k s)"
| "has_member _ k = Inl (Exn TypeError ''argument is not iterable'')"

definition slice_to :: "'a list \<Rightarrow> int \<Rightarrow> 'a list" where
  "slice_to xs n = (if n \<ge> 0 then take (nat n) xs else take (length xs - nat (- n)) xs)"

fun slice_end :: "json \<Rightarrow> int \<Rightarrow> exn + int" where
  "slice_end (JInt i) len = Inr i"
| "slice_end (JBool b) len = Inr (if b then 1 else 0)"
| "slice_end JNull len = Inr len"
| "slice_end _ len = Inl (Exn TypeError ''slice indices must be integers'')"

fun json_slice :: "json \<Rightarrow> json \<Rightarrow> exn + json list" where
  "json_slice (JArr xs) n = sbind (slice_end n (int (length xs))) (\<lambda>i. Inr (slice_to xs i))"
| "json_slice (JStr s) n = sbind (slice_end n (int (length s))) (\<lambda>i. Inr (map (\<lambda>c. JStr [c]) (slice_to s i)))"
| "json_slice _ n = Inl (Exn TypeError ''not subscriptable'')"

fun set_item :: "json \<Rightarrow> string \<Rightarrow> json \<Rightarrow> exn + json" where
  "set_item (JObj kvs) k v = Inr (JObj (AList.update k v kvs))"
| "set_item _ k v = Inl (Exn TypeError ''no item assignment'')"

fun pop_item :: "json \<Rightarrow> string \<Rightarrow> exn + json" where
  "pop_item (JObj kvs) k = Inr (JObj (filter (\<lambda>(j, _). j \<noteq> k) kvs))"
| "pop_item _ k = Inl (Exn AttributeError ''pop'')"

section \<open>Initialisation and unsealing\<close>

definition load_keys :: "'w host \<Rightarrow> ('w box, json) prog" where
  "load_keys H =
     bindM (path_exists (KEYS_FILE H)) (\<lambda>there.
     if there then bindM (read_file H (KEYS_FILE H)) (\<lambda>t. lift (loads t)) else ret (JObj []))"

text \<open>The keys of a new Vault, written to the file before anything else happens.\<close>

definition new_keys :: "json \<Rightarrow> int \<Rightarrow> exn + json" where
  "new_keys res threshold =
     sbind (item res ''keys_base64'') (\<lambda>ks. sbind (item res ''root_token'') (\<lambda>t.
     Inr (JObj [(''keys'', ks), (''root_token'', t), (''threshold'', JInt threshold)])))"

definition initialize :: "'w host \<Rightarrow> ('w box, json) prog" where
  "initialize H =
     bindM (lift (env_int (environ_of H) ''VDBA_UNSEAL_SHARES'' 1)) (\<lambda>shares.
     bindM (lift (env_int (environ_of H) ''VDBA_UNSEAL_THRESHOLD'' 1)) (\<lambda>threshold.
     bindM (hv H None ''sys.initialize''
              [(''secret_shares'', JInt shares), (''secret_threshold'', JInt threshold)]) (\<lambda>res.
     bindM (lift (new_keys res threshold)) (\<lambda>keys.
     seqM (write_private H (KEYS_FILE H) (dumps keys) 384 (host_uid H))
     (seqM (log_line (''Vault initialized; unseal key(s) and root token written to '' @ KEYS_FILE H @ '' (mode 0600)''))
     (ret keys))))))"

primrec submit_keys :: "'w host \<Rightarrow> json list \<Rightarrow> ('w box, unit) prog" where
  "submit_keys H [] = skip"
| "submit_keys H (k # ks) =
     bindM (hv H None ''sys.submit_unseal_key'' [(''key'', k)]) (\<lambda>res.
     bindM (lift (item res ''sealed'')) (\<lambda>sealed.
     if truthy sealed then submit_keys H ks else skip))"

definition unseal :: "'w host \<Rightarrow> json \<Rightarrow> ('w box, unit) prog" where
  "unseal H keys =
     bindM (lift (get_item keys ''keys'' JNull)) (\<lambda>ks.
     if \<not> truthy ks then
       raise (Exn SystemExit (''Vault is sealed and '' @ KEYS_FILE H @ '' has no unseal keys: unseal it manually''))
     else
       bindM (lift (get_item keys ''threshold'' (JInt 1))) (\<lambda>n.
       bindM (lift (json_slice ks n)) (\<lambda>some_keys.
       seqM (submit_keys H some_keys)
       (bindM (hv H None ''sys.is_sealed'' []) (\<lambda>sealed.
        if truthy sealed then raise (Exn SystemExit ''could not unseal Vault with the stored key(s)'')
        else log_line ''Vault unsealed'')))))"

definition init_and_unseal :: "'w host \<Rightarrow> ('w box, json) prog" where
  "init_and_unseal H =
     bindM (load_keys H) (\<lambda>stored.
     bindM (hv H None ''sys.is_initialized'' []) (\<lambda>initialized.
     bindM (if truthy initialized then ret stored else initialize H) (\<lambda>keys.
     bindM (hv H None ''sys.is_sealed'' []) (\<lambda>sealed.
     seqM (whenM (truthy sealed) (unseal H keys))
     (ret keys)))))"

text \<open>The first of the stored root tokens that Vault accepts.\<close>

primrec first_accepted :: "'w host \<Rightarrow> json list \<Rightarrow> ('w box, string option) prog" where
  "first_accepted H [] = ret None"
| "first_accepted H (source # rest) =
     (if truthy source then
        bindM (lift (as_string source)) (\<lambda>t.
        bindM (try_except (hv H (Some t) ''is_authenticated'' []) is_vault_error (\<lambda>_. ret (JBool False))) (\<lambda>okay.
        if truthy okay then ret (Some t) else first_accepted H rest))
      else first_accepted H rest)"

definition root_client :: "'w host \<Rightarrow> json \<Rightarrow> ('w box, string option) prog" where
  "root_client H keys =
     bindM (lift (get_item keys ''root_token'' JNull)) (\<lambda>stored.
     bindM (path_exists (ROOT_TOKEN_FILE H)) (\<lambda>there.
     bindM (if there then bindM (read_file H (ROOT_TOKEN_FILE H)) (\<lambda>t. ret (JStr (strip t))) else ret JNull) (\<lambda>given.
     first_accepted H [stored, given])))"

section \<open>Audit, engines and connections\<close>

definition ensure_audit :: "'w host \<Rightarrow> string \<Rightarrow> ('w box, unit) prog" where
  "ensure_audit H c =
     bindM (hv H (Some c) ''sys.list_enabled_audit_devices'' []) (\<lambda>res.
     bindM (lift (get_item res ''data'' JNull)) (\<lambda>data.
     bindM (lift (has_member (if truthy data then data else JObj []) ''file/'')) (\<lambda>there.
     if there then skip
     else
       seqM (ignored (hv H (Some c) ''sys.enable_audit_device''
               [(''device_type'', JStr ''file''), (''path'', JStr ''file''),
                (''options'', JObj [(''file_path'', JStr ''/vault/logs/audit.log'')])]))
            (log_line ''file audit device enabled (/vault/logs/audit.log in the vault container)''))))"

definition is_sha256 :: "string \<Rightarrow> bool" where
  "is_sha256 d \<longleftrightarrow> length d = 64 \<and> list_all (\<lambda>c. is_digit c \<or> 97 \<le> code c \<and> code c \<le> 102) d"

definition ensure_engines :: "'w host \<Rightarrow> string \<Rightarrow> ('w box, unit) prog" where
  "ensure_engines H c =
     bindM (hv H (Some c) ''sys.list_mounted_secrets_engines'' []) (\<lambda>res.
     bindM (lift (item res ''data'')) (\<lambda>mounts.
     bindM (lift (has_member mounts ''database/'')) (\<lambda>db.
     seqM (whenM (\<not> db) (ignored (hv H (Some c) ''sys.enable_secrets_engine''
             [(''backend_type'', JStr ''database''), (''path'', JStr ''database'')])))
     (bindM (lift (has_member mounts ''kv/'')) (\<lambda>kv.
     seqM (whenM (\<not> kv) (ignored (hv H (Some c) ''sys.enable_secrets_engine''
             [(''backend_type'', JStr ''kv''), (''path'', JStr ''kv''), (''options'', JObj [(''version'', JStr ''2'')])])))
     (seqM (ignored (hv_write H (Some c) (''sys/policies/password/'' @ PASSWORD_POLICY_NAME)
             [(''policy'', JStr PASSWORD_POLICY_HCL)]))
     (bindM (read_file H PLUGIN_SHA_FILE) (\<lambda>t.
     let digest = strip t in
     if \<not> is_sha256 digest then raise (Exn SystemExit (''bad plugin digest in '' @ PLUGIN_SHA_FILE))
     else ignored (hv_write H (Some c) (''sys/plugins/catalog/database/'' @ PLUGIN_NAME)
            [(''sha256'', JStr digest), (''command'', JStr PLUGIN_NAME)])))))))))"

text \<open>The statements that fail when the account of a connection can do more than it should.\<close>

definition PROBES :: "string \<Rightarrow> string list" where
  \<open>PROBES kind =
     (if kind = ''postgres'' then
        [''SELECT 1 / (CASE WHEN '' @
         ''(SELECT rolsuper OR rolbypassrls OR rolreplication OR rolcreatedb OR NOT rolcreaterole '' @
         '' FROM pg_roles WHERE rolname = current_user) '' @
         ''OR EXISTS (SELECT 1 FROM pg_roles r WHERE r.rolname LIKE 'pg'' @ [CHR 0x5C] @ ''_%' '' @
         '' AND pg_has_role(current_user, r.oid, 'MEMBER')) '' @
         ''OR EXISTS (SELECT 1 FROM pg_auth_members m JOIN pg_roles g ON g.oid = m.roleid '' @
         '' WHERE m.member = (SELECT oid FROM pg_roles WHERE rolname = current_user) AND g.rolname NOT LIKE 'vdba'' @
         [CHR 0x5C] @ ''_%') '' @
         ''THEN 0 ELSE 1 END)'']
      else
        [''SELECT throwIf('' @
         ''(SELECT count() FROM system.grants WHERE user_name = currentUser() AND ('' @
         ''access_type NOT IN ('KILL QUERY', 'CREATE USER', 'ALTER USER', 'DROP USER', 'SELECT', 'INSERT', 'ALTER UPDATE', 'ALTER DELETE') '' @
         ''OR (database IS NOT NULL AND database NOT IN ('appdb', 'system')))) > 0 '' @
         ''OR (SELECT count() FROM system.role_grants WHERE user_name = currentUser()) > 0)''])\<close>

definition braces :: "string \<Rightarrow> string" where
  "braces s = [CHR 0x7B, CHR 0x7B] @ s @ [CHR 0x7D, CHR 0x7D]"

definition check_connection_config :: "'w host \<Rightarrow> string \<Rightarrow> string \<Rightarrow> ('w box, unit) prog" where
  "check_connection_config H c name =
     bindM (hv_read H (Some c) (''database/config/'' @ name)) (\<lambda>res.
     bindM (lift (sbind (item res ''data'') (\<lambda>d. item d ''connection_details''))) (\<lambda>cfg.
     bindM (lift (get_item cfg ''username'' JNull)) (\<lambda>user.
     if user \<noteq> JStr ''vault_manager'' then
       raise (Exn SystemExit (''connection '' @ py_repr name @ '' uses account '' @ py_repr_json user
         @ '', not '' @ py_repr ''vault_manager'' @ '': refusing to continue. Delete it (vault delete database/config/''
         @ name @ '') and re-run setup''))
     else
       bindM (lift (get_item cfg ''username_template'' JNull)) (\<lambda>template.
       if template \<noteq> JStr USERNAME_TEMPLATE then
         raise (Exn SystemExit (''connection '' @ py_repr name @ '' has username_template '' @ py_repr_json template
           @ '', expected '' @ py_repr USERNAME_TEMPLATE
           @ '': cleanup of half-created accounts depends on it; refusing to continue''))
       else skip))))"

definition probe_role :: "string \<Rightarrow> string" where
  "probe_role name = ''vdba_probe_'' @ name"

text \<open>The \<open>finally\<close> of the probe: its lease, if there is one, and its role.\<close>

definition probe_cleanup :: "'w host \<Rightarrow> string \<Rightarrow> string \<Rightarrow> json \<Rightarrow> ('w box, unit) prog" where
  "probe_cleanup H c name lease =
     seqM (whenM (truthy lease) (ignored (hv_write H (Some c) (''sys/leases/revoke/'' @ py_str lease) [])))
          (ignored (hv_delete H (Some c) (''database/roles/'' @ probe_role name)))"

definition probe_failed :: "string \<Rightarrow> exn \<Rightarrow> exn" where
  "probe_failed name e =
     (if is_vault_error e then
        Exn SystemExit (''connection '' @ py_repr name
          @ '' failed the least-privilege probe (extra privileges or role memberships?): refusing. '' @ exc_msg e)
      else e)"

definition run_probe :: "'w host \<Rightarrow> string \<Rightarrow> string \<Rightarrow> ('w box, unit) prog" where
  "run_probe H c name =
     bindM (catchM (bindM (hv_read H (Some c) (''database/creds/'' @ probe_role name)) (\<lambda>r. lift (item r ''lease_id'')))
              (\<lambda>e. seqM (probe_cleanup H c name JNull) (raise (probe_failed name e))))
           (probe_cleanup H c name)"

definition validate_connection :: "'w host \<Rightarrow> string \<Rightarrow> string \<Rightarrow> ('w box, unit) prog" where
  "validate_connection H c name =
     seqM (check_connection_config H c name)
     (seqM (ignored (hv_write H (Some c) (''database/roles/'' @ probe_role name)
              [(''db_name'', JStr name), (''creation_statements'', JArr (map JStr (PROBES name))),
               (''revocation_statements'', JArr [JStr ''SELECT 1'']), (''default_ttl'', JStr ''30s''),
               (''max_ttl'', JStr ''30s'')]))
     (seqM (run_probe H c name)
     (log_line (''connection '' @ py_repr name
        @ '' verified: account vault_manager, our username template, privileges within the allowlist''))))"

definition SETUP_WEAK_SSLMODES :: "string set" where
  "SETUP_WEAK_SSLMODES = {''disable'', ''allow'', ''prefer''}"

definition SETUP_SSLMODES :: "string set" where
  "SETUP_SSLMODES = SETUP_WEAK_SSLMODES \<union> {''require'', ''verify-ca'', ''verify-full''}"

definition pg_sslmode :: "environ \<Rightarrow> exn + string" where
  "pg_sslmode env =
     (let mode = env_get env ''VDBA_PG_SSLMODE'' []; insecure_ok = (env ''VDBA_ALLOW_INSECURE'' = Some ''1'') in
      if mode \<noteq> [] \<and> mode \<notin> SETUP_SSLMODES then
        Inl (Exn SystemExit (''VDBA_PG_SSLMODE='' @ py_repr mode @ '' is not one of '' @ py_repr_list
          [''allow'', ''disable'', ''prefer'', ''require'', ''verify-ca'', ''verify-full'']))
      else if mode \<in> SETUP_WEAK_SSLMODES \<and> \<not> insecure_ok then
        Inl (Exn SystemExit (''VDBA_PG_SSLMODE='' @ mode
          @ '' sends data without verified TLS: needs VDBA_ALLOW_INSECURE=1 (demo only)''))
      else if mode \<noteq> [] then Inr mode
      else if env_get env ''VDBA_PG_SSLROOTCERT'' [] \<noteq> [] then Inr ''verify-full''
      else if \<not> insecure_ok then
        Inl (Exn SystemExit (''no TLS configured for Postgres: set VDBA_PG_SSLMODE (e.g. verify-full) or VDBA_PG_SSLROOTCERT, ''
          @ ''or set VDBA_ALLOW_INSECURE=1 to accept plain text on the internal network (demo only)''))
      else Inr ''disable'')"

definition ensure_connection ::
  "'w host \<Rightarrow> string \<Rightarrow> string \<Rightarrow> string \<Rightarrow> string \<Rightarrow> string \<Rightarrow> string \<Rightarrow> ('w box, unit) prog" where
  "ensure_connection H c name plugin url user password =
     bindM (hv_read H (Some c) (''database/config/'' @ name)) (\<lambda>old.
     if old \<noteq> JNull then
       seqM (log_line (''connection '' @ py_repr name @ '' already configured; validating it (it may have been rotated)''))
            (validate_connection H c name)
     else
       seqM (ignored (hv_write H (Some c) (''database/config/'' @ name)
               [(''plugin_name'', JStr plugin), (''allowed_roles'', JStr ''vdba_*''), (''connection_url'', JStr url),
                (''username'', JStr user), (''password'', JStr password),
                (''username_template'', JStr USERNAME_TEMPLATE), (''password_policy'', JStr PASSWORD_POLICY_NAME),
                (''verify_connection'', JBool True)]))
            (validate_connection H c name))"

text \<open>\<open>env[k]\<close>.\<close>

definition env_item :: "environ \<Rightarrow> string \<Rightarrow> exn + string" where
  "env_item env k = (case env k of Some v \<Rightarrow> Inr v | None \<Rightarrow> Inl (Exn KeyError k))"

definition pg_url :: "'w host \<Rightarrow> exn + string" where
  "pg_url H =
     sbind (pg_sslmode (environ_of H)) (\<lambda>mode.
     Inr (''postgresql://'' @ braces ''username'' @ '':'' @ braces ''password'' @ ''@'' @ POSTGRES_HOST (conf H) @ '':''
       @ show_int (POSTGRES_PORT (conf H)) @ ''/'' @ POSTGRES_DB @ ''?sslmode='' @ mode
       @ (if env_text H ''VDBA_PG_SSLROOTCERT'' \<noteq> [] then ''&sslrootcert='' @ env_text H ''VDBA_PG_SSLROOTCERT'' else [])))"

definition ch_url :: "'w host \<Rightarrow> string" where
  "ch_url H =
     ''clickhouse://'' @ CLICKHOUSE_HOST (conf H) @ '':'' @ show_int (CLICKHOUSE_NATIVE_PORT (conf H))
     @ ''?username='' @ braces ''username'' @ ''&password='' @ braces ''password'' @ ''&dial_timeout=10s''
     @ (if environ_of H ''VDBA_CH_SECURE'' = Some ''1'' then ''&secure=true'' else [])"

definition store_introspect :: "'w host \<Rightarrow> string \<Rightarrow> string \<times> string \<Rightarrow> ('w box, unit) prog" where
  "store_introspect H c p =
     (case p of (db, var) \<Rightarrow>
        bindM (lift (env_item (environ_of H) var)) (\<lambda>pw.
        ignored (hv H (Some c) ''secrets.kv.v2.create_or_update_secret''
          [(''path'', JStr (''vdba/introspect/'' @ db)),
           (''secret'', JObj [(''username'', JStr ''vault_introspect''), (''password'', JStr pw)]),
           (''mount_point'', JStr ''kv'')])))"

definition ensure_connections :: "'w host \<Rightarrow> string \<Rightarrow> ('w box, unit) prog" where
  "ensure_connections H c =
     bindM (lift (pg_url H)) (\<lambda>url.
     bindM (lift (env_item (environ_of H) ''PG_MANAGER_PASSWORD'')) (\<lambda>pg_password.
     seqM (ensure_connection H c ''postgres'' ''postgresql-database-plugin'' url ''vault_manager'' pg_password)
     (bindM (lift (env_item (environ_of H) ''CLICKHOUSE_MANAGER_PASSWORD'')) (\<lambda>ch_password.
     seqM (ensure_connection H c ''clickhouse'' PLUGIN_NAME (ch_url H) ''vault_manager'' ch_password)
     (foreach [(''postgres'', ''PG_INTROSPECT_PASSWORD''), (''clickhouse'', ''CLICKHOUSE_INTROSPECT_PASSWORD'')]
        (store_introspect H c))))))"

section \<open>Policies, roles and the identity of the middleware\<close>

definition ensure_auth :: "'w host \<Rightarrow> string \<Rightarrow> string \<Rightarrow> json \<Rightarrow> ('w box, unit) prog" where
  "ensure_auth H c kind auth =
     bindM (lift (has_member auth (kind @ ''/''))) (\<lambda>there.
     whenM (\<not> there) (ignored (hv H (Some c) ''sys.enable_auth_method''
       [(''method_type'', JStr kind), (''path'', JStr kind)])))"

definition put_policy :: "'w host \<Rightarrow> string \<Rightarrow> string \<Rightarrow> string \<Rightarrow> ('w box, unit) prog" where
  "put_policy H c name text =
     ignored (hv H (Some c) ''sys.create_or_update_policy'' [(''name'', JStr name), (''policy'', JStr text)])"

definition ensure_policies_and_roles :: "'w host \<Rightarrow> string \<Rightarrow> ('w box, unit) prog" where
  "ensure_policies_and_roles H c =
     seqM (put_policy H c SERVICE_POLICY_NAME SERVICE_POLICY)
     (seqM (put_policy H c CREDS_READER_POLICY_NAME CREDS_READER_POLICY)
     (seqM (put_policy H c ADMIN_POLICY_NAME ADMIN_POLICY)
     (bindM (lift (env_int (environ_of H) ''VDBA_TTL_MAX_SECONDS'' (TTL_MAX (conf H)))) (\<lambda>ttl.
     seqM (ignored (hv_write H (Some c) (''auth/token/roles/'' @ TOKEN_ROLE_NAME)
             [(''allowed_policies'', JArr [JStr CREDS_READER_POLICY_NAME]), (''orphan'', JBool True),
              (''renewable'', JBool False), (''token_no_default_policy'', JBool True), (''token_type'', JStr ''service''),
              (''token_explicit_max_ttl'', JStr (show_int (ttl + 3600) @ ''s''))]))
     (bindM (hv H (Some c) ''sys.list_auth_methods'' []) (\<lambda>res.
     bindM (lift (item res ''data'')) (\<lambda>auth.
     seqM (ensure_auth H c ''userpass'' auth)
     (seqM (ensure_auth H c ''approle'' auth)
     (bindM (lift (env_item (environ_of H) ''VDBA_ADMIN_USER'')) (\<lambda>admin.
     bindM (lift (env_item (environ_of H) ''VDBA_ADMIN_PASSWORD'')) (\<lambda>pw.
     seqM (ignored (hv_write H (Some c) (''auth/userpass/users/'' @ admin)
             [(''password'', JStr pw), (''token_policies'', JArr [JStr ADMIN_POLICY_NAME]), (''token_ttl'', JStr ''8h''),
              (''token_max_ttl'', JStr ''8h'')]))
     (ignored (hv_write H (Some c) (''auth/approle/role/'' @ APPROLE_NAME)
             [(''token_policies'', JArr [JStr SERVICE_POLICY_NAME]), (''token_no_default_policy'', JBool True),
              (''token_ttl'', JStr ''1h''), (''token_max_ttl'', JStr ''24h''), (''token_type'', JStr ''service''),
              (''secret_id_num_uses'', JInt 0), (''secret_id_ttl'', JInt 0)])))))))))))))"

definition approle_login_ok :: "'w host \<Rightarrow> string \<Rightarrow> string \<Rightarrow> ('w box, bool) prog" where
  "approle_login_ok H role_id secret_id =
     try_except (seqM (hv_approle_login H role_id secret_id) (ret True)) is_vault_error (\<lambda>_. ret False)"

text \<open>The AppRole login with the ids in the files.\<close>

definition stripped :: "'w host \<Rightarrow> string \<Rightarrow> ('w box, string) prog" where
  "stripped H p = bindM (read_file H p) (\<lambda>t. ret (strip t))"

definition service_identity :: "'w host \<Rightarrow> ('w box, string) prog" where
  "service_identity H =
     bindM (stripped H (ROLE_ID_FILE H)) (\<lambda>r. bindM (stripped H (SECRET_ID_FILE H)) (\<lambda>i. hv_approle_login H r i))"

definition recheck_connector :: "'w host \<Rightarrow> string \<Rightarrow> string \<Rightarrow> ('w box, unit) prog" where
  "recheck_connector H svc name =
     bindM (try_except (seqM (check_connection_config H svc name) (ret True)) (\<lambda>e. exc_class e = Forbidden)
              (\<lambda>_. ret False)) (\<lambda>checked.
     if checked
     then log_line (''connector '' @ py_repr name @ '' re-checked with the service identity (account and username_template ok)'')
     else log_line (''WARNING: cannot read connector '' @ py_repr name
            @ '' with the service identity (older policy): NOT re-checked''))"

definition recheck_without_root :: "'w host \<Rightarrow> ('w box, unit) prog" where
  "recheck_without_root H =
     bindM (service_identity H) (\<lambda>svc.
     seqM (foreach [''postgres'', ''clickhouse''] (recheck_connector H svc))
     (log_line (''WARNING: the root token is revoked, so the least-privilege probe was NOT re-run: the effective privileges ''
        @ ''of the vault_manager accounts were not re-validated. Re-run setup with a root token to do that.'')))"

definition new_secret_id :: "'w host \<Rightarrow> string \<Rightarrow> ('w box, unit) prog" where
  "new_secret_id H c =
     bindM (hv_write H (Some c) (''auth/approle/role/'' @ APPROLE_NAME @ ''/secret-id'') []) (\<lambda>r.
     bindM (lift (sbind (item r ''data'') (\<lambda>d. sbind (item d ''secret_id'') as_string))) (\<lambda>secret_id.
     seqM (write_private H (SECRET_ID_FILE H) secret_id 256 (Some (app_uid H)))
          (log_line ''new AppRole secret_id written to secrets/approle/secret_id'')))"

definition deliver_approle :: "'w host \<Rightarrow> string \<Rightarrow> ('w box, unit) prog" where
  "deliver_approle H c =
     seqM (make_dir H (APPROLE_OUT H))
     (seqM (chown_dir H (APPROLE_OUT H) (app_uid H))
     (seqM (chmod_dir H (APPROLE_OUT H) 448)
     (bindM (hv_read H (Some c) (''auth/approle/role/'' @ APPROLE_NAME @ ''/role-id'')) (\<lambda>r.
     bindM (lift (sbind (item r ''data'') (\<lambda>d. sbind (item d ''role_id'') as_string))) (\<lambda>role_id.
     bindM (path_exists (SECRET_ID_FILE H)) (\<lambda>there.
     bindM (if there then bindM (stripped H (SECRET_ID_FILE H)) (approle_login_ok H role_id) else ret False) (\<lambda>valid.
     seqM (if valid then log_line ''existing AppRole secret_id is still valid; keeping it'' else new_secret_id H c)
          (write_private H (ROLE_ID_FILE H) role_id 256 (Some (app_uid H))))))))))"

text \<open>A write that has to be forbidden.\<close>

definition must_be_forbidden :: "'w host \<Rightarrow> string \<Rightarrow> string \<Rightarrow> ('w box, unit) prog" where
  \<open>must_be_forbidden H svc bad =
     bindM (try_except (seqM (hv_write H (Some svc) bad
              [(''policy'', JStr ''path "*" { capabilities = ["sudo"] }''), (''plugin_name'', JStr ''x'')]) (ret True))
              (\<lambda>e. exc_class e = Forbidden) (\<lambda>_. ret False)) (\<lambda>written.
     if written then raise (Exn SystemExit (''self-check failed: service identity could write '' @ bad)) else skip)\<close>

definition self_check :: "'w host \<Rightarrow> ('w box, unit) prog" where
  "self_check H =
     bindM (service_identity H) (\<lambda>svc.
     seqM (ignored (hv H (Some svc) ''secrets.kv.v2.read_secret_version''
             [(''path'', JStr ''vdba/introspect/postgres''), (''mount_point'', JStr ''kv'')]))
     (seqM (foreach [''sys/policies/acl/evil'', ''database/config/evil''] (must_be_forbidden H svc))
     (log_line ''self-check ok: AppRole login works; policy/config writes are forbidden'')))"

section \<open>The end of a run\<close>

definition mint_test_admin :: "'w host \<Rightarrow> string \<Rightarrow> ('w box, unit) prog" where
  \<open>mint_test_admin H c =
     seqM (put_policy H c ''vdba-test-admin''
             ''path "*" { capabilities = ["create","read","update","delete","list","sudo"] }'')
     (bindM (hv H (Some c) ''auth.token.create''
        [(''policies'', JArr [JStr ''vdba-test-admin'']), (''ttl'', JStr ''2h''), (''no_parent'', JBool True),
         (''renewable'', JBool False)]) (\<lambda>tok.
     bindM (lift (sbind (item tok ''auth'') (\<lambda>a. sbind (item a ''client_token'') as_string))) (\<lambda>t.
     seqM (write_private H (SECRETS H @ ''/test-admin-token'') t 384 (host_uid H))
     (log_line ''TEST HOOKS ON: wrote a 2 h test-admin token to secrets/test-admin-token (never do this in production)''))))\<close>

definition revoke_root :: "'w host \<Rightarrow> string \<Rightarrow> bool \<Rightarrow> ('w box, unit) prog" where
  "revoke_root H c keep =
     (if keep then log_line ''--keep-root: root token left in place (revoke it yourself when done)''
      else
        bindM (load_keys H) (\<lambda>stored.
        bindM (hv H (Some c) ''auth.token.lookup_self'' []) (\<lambda>r.
        bindM (lift (sbind (item r ''data'') (\<lambda>d. item d ''accessor''))) (\<lambda>accessor.
        bindM (lift (set_item stored ''root_accessor'' accessor)) (\<lambda>keys.
        seqM (write_private H (KEYS_FILE H) (dumps keys) 384 (host_uid H))
        (seqM (ignored (hv H (Some c) ''auth.token.revoke_self'' []))
        (bindM (lift (pop_item keys ''root_token'')) (\<lambda>left.
        seqM (write_private H (KEYS_FILE H) (dumps left) 384 (host_uid H))
        (seqM (unlink_file H (ROOT_TOKEN_FILE H))
        (log_line ''root token revoked and removed from disk''))))))))))"

section \<open>The command\<close>

text \<open>
  \<open>shlex.split\<close>: the state is outside a word, in a word, in a quoted part or after a backslash (with the quote it
  stands in, if any); \<open>started\<close> tells an empty quoted word from none.
\<close>

datatype lex_state = Blank | Word | Within char | Escaped "char option"

fun shlex_go :: "lex_state \<Rightarrow> string \<Rightarrow> string \<Rightarrow> exn + string list" where
  "shlex_go Blank w [] = Inr []"
| "shlex_go Word w [] = Inr [w]"
| "shlex_go (Within q) w [] = Inl (Exn ValueError ''No closing quotation'')"
| "shlex_go (Escaped q) w [] = Inl (Exn ValueError ''No escaped character'')"
| "shlex_go Blank w (c # cs) =
     (if c \<in> {CHR '' '', CHR 0x09, CHR 0x0D, CHR 0x0A} then shlex_go Blank [] cs
      else if c = CHR 0x5C then shlex_go (Escaped None) [] cs
      else if c \<in> {CHR 0x27, CHR 0x22} then shlex_go (Within c) [] cs
      else shlex_go Word [c] cs)"
| "shlex_go Word w (c # cs) =
     (if c \<in> {CHR '' '', CHR 0x09, CHR 0x0D, CHR 0x0A} then sbind (shlex_go Blank [] cs) (\<lambda>ws. Inr (w # ws))
      else if c \<in> {CHR 0x27, CHR 0x22} then shlex_go (Within c) w cs
      else if c = CHR 0x5C then shlex_go (Escaped None) w cs
      else shlex_go Word (w @ [c]) cs)"
| "shlex_go (Within q) w (c # cs) =
     (if c = q then shlex_go Word w cs
      else if c = CHR 0x5C \<and> q = CHR 0x22 then shlex_go (Escaped (Some q)) w cs
      else shlex_go (Within q) (w @ [c]) cs)"
| "shlex_go (Escaped q) w (c # cs) =
     (case q of
        None \<Rightarrow> shlex_go Word (w @ [c]) cs
      | Some k \<Rightarrow>
          if c \<noteq> CHR 0x5C \<and> c \<noteq> k then shlex_go (Within k) (w @ [CHR 0x5C, c]) cs
          else shlex_go (Within k) (w @ [c]) cs)"

definition shlex_split :: "string \<Rightarrow> exn + string list" where
  "shlex_split s = shlex_go Blank [] s"

text \<open>
  The parser's only option may be abbreviated; help and everything else end with \<open>SystemExit\<close>.
\<close>

definition is_keep_root :: "string \<Rightarrow> bool" where
  "is_keep_root a \<longleftrightarrow> prefix a ''--keep-root'' \<and> length a \<ge> 3"

definition parse_args :: "string list \<Rightarrow> exn + bool" where
  "parse_args args =
     (if list_all is_keep_root args then Inr (args \<noteq> []) else Inl (Exn SystemExit ''arguments''))"

definition already_provisioned :: "'w host \<Rightarrow> ('w box, bool) prog" where
  "already_provisioned H =
     bindM (path_exists (ROLE_ID_FILE H)) (\<lambda>r.
     bindM (path_exists (SECRET_ID_FILE H)) (\<lambda>i.
     if r \<and> i then
       bindM (stripped H (ROLE_ID_FILE H)) (\<lambda>role_id.
       bindM (stripped H (SECRET_ID_FILE H)) (\<lambda>secret_id. approle_login_ok H role_id secret_id))
     else ret False))"

definition without_root :: "'w host \<Rightarrow> ('w box, unit) prog" where
  \<open>without_root H =
     bindM (already_provisioned H) (\<lambda>okay.
     if okay then
       seqM (log_line ''already provisioned (root token is revoked and the AppRole login works); nothing to provision'')
            (recheck_without_root H)
     else
       raise (Exn SystemExit (''no usable root token and the AppRole files are missing or invalid. To get a new root token follow ''
         @ ''README 'Getting a new root token' (it needs `enable_unauthenticated_access = ["generate-root"]` in the ''
         @ ''Vault server config for the duration of the procedure), put it in ./secrets/root-token, run setup again.'')))\<close>

definition provision :: "'w host \<Rightarrow> string \<Rightarrow> bool \<Rightarrow> ('w box, unit) prog" where
  "provision H c keep =
     seqM (ensure_audit H c)
     (seqM (ensure_engines H c)
     (seqM (ensure_connections H c)
     (seqM (ensure_policies_and_roles H c)
     (seqM (deliver_approle H c)
     (seqM (self_check H)
     (seqM (whenM (environ_of H ''VDBA_TEST_HOOKS'' = Some ''1'') (mint_test_admin H c))
     (seqM (revoke_root H c keep)
     (bindM (lift (env_item (environ_of H) ''VDBA_ADMIN_USER'')) (\<lambda>admin.
      log_line (''done: portal admin is '' @ py_repr admin @ ''; the middleware can now log in via AppRole''))))))))))"

definition setup_main :: "'w host \<Rightarrow> string list \<Rightarrow> ('w box, unit) prog" where
  "setup_main H argv =
     bindM (lift (shlex_split (env_text H ''VDBA_SETUP_ARGS''))) (\<lambda>extra.
     bindM (lift (parse_args (extra @ argv))) (\<lambda>keep.
     let bad = problems (environ_of H) in
     if bad \<noteq> [] then raise (Exn SystemExit (''refusing to run setup: '' @ join ''; '' bad))
     else
       seqM (make_dir H (SECRETS H))
       (seqM (chmod_dir H (SECRETS H) 448)
       (bindM (init_and_unseal H) (\<lambda>keys.
       bindM (root_client H keys) (\<lambda>accepted.
       case accepted of
         None \<Rightarrow> without_root H
       | Some c \<Rightarrow> provision H c keep))))))"

text \<open>The settings read at import.\<close>

definition load_host :: "'w host \<Rightarrow> environ \<Rightarrow> exn + 'w host" where
  "load_host H env =
     sbind (load_config env) (\<lambda>c.
     sbind (env_int env ''VDBA_APP_UID'' 1000) (\<lambda>app.
     sbind (if env_get env ''VDBA_HOST_UID'' [] \<noteq> [] then sbind (env_int env ''VDBA_HOST_UID'' 0) (\<lambda>u. Inr (Some u))
            else Inr None) (\<lambda>host.
     Inr (H\<lparr>environ_of := env, conf := c, app_uid := app, host_uid := host\<rparr>))))"

text \<open>
  The process: the exit status and the lines on stderr. An exception that is not an \<open>Exception\<close> passes on (\<open>SystemExit\<close>, whose
  message and status are the interpreter's business).
\<close>

definition exception_text :: "exn \<Rightarrow> string" where
  "exception_text e = (if exc_class e = KeyError then py_repr (exc_msg e) else exc_msg e)"

definition setup_process :: "'w host \<Rightarrow> environ \<Rightarrow> string list \<Rightarrow> ('w box, nat \<times> string list) prog" where
  "setup_process H env argv =
     bindM (lift (load_host H env)) (\<lambda>H'.
     try_except (seqM (setup_main H' argv) (ret (0, []))) is_exception
       (\<lambda>e. ret (1, [''[setup] FAILED: '' @ type_name e @ '': '' @ exception_text e])))"

text \<open>The block changes nothing on the host: what is proved of \<open>setup_main\<close> holds of the process.\<close>

lemma setup_process_box:
  assumes "load_host H env = Inr H'"
  shows "snd (setup_process H env argv s) = snd (setup_main H' argv s)"
    and "fst (setup_process H env argv s) = Ret (0, err) \<Longrightarrow> fst (setup_main H' argv s) = Ret () \<and> err = []"
  using assms
  by (cases "setup_main H' argv s"; cases "fst (setup_main H' argv s)";
      auto simp: setup_process_def bindM_def lift_def seqM_def try_except_def catchM_def ret_def raise_def split: if_splits)+

end
