(* ===== verification/Setup_Safety.thy ===== *)
theory Setup_Safety
  imports Setup
begin

text \<open>
  What holds of every run of \<open>setup.py\<close>, however it ends: properties of the calls it makes, of the files it writes
  and of the lines it prints.
\<close>

section \<open>The calls of a run\<close>

type_synonym trace = "(hvac_call \<times> json outcome) list"

text \<open>The calls of a run, in order and with their answers.\<close>

definition new_calls :: "'w box \<Rightarrow> 'w box \<Rightarrow> trace" where
  "new_calls s s' = drop (length (calls s)) (calls s')"

text \<open>
  A property of traces that holds of a trace when it holds of its parts gives a frame: a program keeps
  it if the calls it adds have the property.
\<close>

locale trace_law =
  fixes P :: "trace \<Rightarrow> bool"
  assumes none: "P []"
    and parts: "P t \<Longrightarrow> P u \<Longrightarrow> P (t @ u)"
begin

definition adds :: "'w box \<Rightarrow> 'w box \<Rightarrow> bool" where
  "adds s s' \<longleftrightarrow> (\<exists>t. calls s' = calls s @ t \<and> P t)"

lemma adds_frame: "frame adds"
proof
  show "adds s s" for s :: "'w box" using none by (simp add: adds_def)
  show "adds s u" if "adds s t" "adds t u" for s t u :: "'w box"
    using that parts unfolding adds_def by (metis append.assoc)
qed

sublocale frame adds by (rule adds_frame)

lemma of_run: "keeps adds m \<Longrightarrow> P (new_calls s (snd (m s)))"
  by (auto simp: keeps_def adds_def new_calls_def dest: spec [of _ s])

lemma silent: "(\<And>s. calls (snd (m s)) = calls s) \<Longrightarrow> keeps adds m"
  using none by (simp add: keeps_def adds_def)

lemma outer_keep: "keeps adds (outer_call f)"
  by (rule silent) (simp add: outer_call_def split: prod.split)

lemma modify_keep: "(\<And>s. calls (f s) = calls s) \<Longrightarrow> keeps adds (modify f)"
  by (intro silent) (simp add: modify_def)

lemma log_keep: "keeps adds (log_line t)"
  unfolding log_line_def by (intro modify_keep) simp

lemma fs_keep: "keeps adds (fs H p)"
  unfolding fs_def by (rule outer_keep)

lemma exists_keep: "keeps adds (path_exists p)"
  unfolding path_exists_def by (intro rules)

lemma read_file_keep: "keeps adds (read_file H p)"
  unfolding read_file_def by (intro rules fs_keep)

lemma put_keep: "keeps adds (put_file p x)"
  unfolding put_file_def by (intro modify_keep) simp

lemma write_private_keep: "keeps adds (write_private H p t m u)"
  unfolding write_private_def Let_def
  by (intro rules outer_keep exists_keep fs_keep put_keep modify_keep) simp

lemma dirs_keep: "keeps adds (make_dir H p)" "keeps adds (chmod_dir H p m)" "keeps adds (chown_dir H p n)"
  unfolding make_dir_def chmod_dir_def chown_dir_def by (intro rules fs_keep modify_keep; simp)+

lemma files_keep:
  "keeps adds (unlink_file H p)" "keeps adds (load_keys H)" "keeps adds (stripped H p)"
  unfolding unlink_file_def load_keys_def stripped_def by (intro rules fs_keep put_keep exists_keep read_file_keep)+

lemmas quiet_keep = outer_keep log_keep exists_keep read_file_keep write_private_keep dirs_keep files_keep

lemma one_call:
  assumes "\<And>r. P [(\<lparr>hc_token = c, hc_method = m, hc_args = args\<rparr>, r)]"
  shows "keeps adds (hv H c m args)"
  using assms by (auto simp: keeps_def hv_def adds_def Let_def split: prod.split)

end

section \<open>An existing connection is never overwritten\<close>

lemmas call_defs = ignored_def hv_read_def hv_write_def hv_delete_def hv_approle_login_def put_policy_def ensure_auth_def

lemmas keys_defs = init_and_unseal_def initialize_def unseal_def root_client_def

lemmas provision_defs = ensure_audit_def ensure_engines_def ensure_policies_and_roles_def approle_login_ok_def
  service_identity_def recheck_connector_def recheck_without_root_def new_secret_id_def deliver_approle_def
  already_provisioned_def without_root_def check_connection_config_def mint_test_admin_def Let_def

definition path_of :: "hvac_call \<Rightarrow> string" where
  "path_of k = (case map_of (hc_args k) ''path'' of Some (JStr p) \<Rightarrow> p | _ \<Rightarrow> [])"

definition config_write :: "hvac_call \<Rightarrow> bool" where
  "config_write k \<longleftrightarrow> hc_method k = ''write''
     \<and> path_of k \<in> {''database/config/postgres'', ''database/config/clickhouse''}"

text \<open>Every write of a connection's configuration comes right after a read that found none.\<close>

definition only_new_configs :: "trace \<Rightarrow> bool" where
  "only_new_configs t \<longleftrightarrow>
     (\<forall>i < length t. config_write (fst (t ! i)) \<longrightarrow>
        0 < i \<and> t ! (i - 1) = (\<lparr>hc_token = hc_token (fst (t ! i)), hc_method = ''read'',
          hc_args = [(''path'', JStr (path_of (fst (t ! i))))]\<rparr>, Ret JNull))"

interpretation configs: trace_law only_new_configs
proof
  show "only_new_configs (t @ u)" if "only_new_configs t" "only_new_configs u" for t u
    unfolding only_new_configs_def
  proof (intro allI impI)
    fix i assume i: "i < length (t @ u)" and w: "config_write (fst ((t @ u) ! i))"
    show "0 < i \<and> (t @ u) ! (i - 1) = (\<lparr>hc_token = hc_token (fst ((t @ u) ! i)), hc_method = ''read'',
          hc_args = [(''path'', JStr (path_of (fst ((t @ u) ! i))))]\<rparr>, Ret JNull)"
    proof (cases "i < length t")
      case True
      then show ?thesis using that(1) w by (auto simp: only_new_configs_def nth_append)
    next
      case False
      have "i - length t < length u" "config_write (fst (u ! (i - length t)))"
        using False i w by (auto simp: nth_append)
      then have "0 < i - length t" and e: "u ! (i - length t - 1) = (\<lparr>hc_token = hc_token (fst (u ! (i - length t))),
          hc_method = ''read'', hc_args = [(''path'', JStr (path_of (fst (u ! (i - length t)))))]\<rparr>, Ret JNull)"
        using that(2) unfolding only_new_configs_def by blast+
      then have "\<not> i - 1 < length t" "i - 1 - length t = i - length t - 1" "0 < i" by auto
      then show ?thesis using False e by (simp add: nth_append)
    qed
  qed
qed (simp add: only_new_configs_def)

lemma not_config_write: "\<not> config_write k \<Longrightarrow> only_new_configs [(k, r)]"
  by (simp add: only_new_configs_def)

lemma submit_keys_configs: "keeps configs.adds (submit_keys H ks)"
  by (induction ks) (auto intro!: configs.rules configs.one_call not_config_write simp: config_write_def)

lemma first_accepted_configs: "keeps configs.adds (first_accepted H ts)"
  by (induction ts) (auto intro!: configs.rules configs.one_call not_config_write simp: config_write_def)

lemmas configs_intros = configs.rules configs.quiet_keep configs.one_call not_config_write
  submit_keys_configs first_accepted_configs

lemma setup_parts_configs:
  "keeps configs.adds (init_and_unseal H)" "keeps configs.adds (root_client H keys)"
  "keeps configs.adds (ensure_audit H c)" "keeps configs.adds (ensure_engines H c)"
  "keeps configs.adds (ensure_policies_and_roles H c)" "keeps configs.adds (deliver_approle H c)"
  "keeps configs.adds (self_check H)" "keeps configs.adds (mint_test_admin H c)"
  "keeps configs.adds (revoke_root H c keep)" "keeps configs.adds (without_root H)"
  unfolding keys_defs provision_defs self_check_def must_be_forbidden_def revoke_root_def foreach.simps call_defs
  by (intro configs_intros; simp add: config_write_def path_of_def)+

lemma validate_configs: "keeps configs.adds (validate_connection H c name)"
  unfolding validate_connection_def check_connection_config_def run_probe_def probe_cleanup_def call_defs
  by (intro configs_intros; simp add: config_write_def path_of_def)

lemma ensure_connection_configs: "keeps configs.adds (ensure_connection H c name plugin url user password)"
proof (rule keepsI)
  fix s r s' assume run: "ensure_connection H c name plugin url user password s = (r, s')"
  let ?read = "\<lparr>hc_token = Some c, hc_method = ''read'', hc_args = [(''path'', JStr (''database/config/'' @ name))]\<rparr>"
  obtain o1 w1 where read: "hvac H ?read (outer s) = (o1, w1)" by fastforce
  let ?s1 = "s\<lparr>outer := w1, calls := calls s @ [(?read, o1)]\<rparr>"
  have r1: "hv_read H (Some c) (''database/config/'' @ name) s = (o1, ?s1)"
    using read by (simp add: hv_read_def hv_def)
  have read_ok: "only_new_configs [(?read, q)]" for q by (simp add: not_config_write config_write_def)
  show "configs.adds s s'"
  proof (cases "o1 = Ret JNull")
    case False
    then have k: "keeps configs.adds (case o1 of Ret old \<Rightarrow>
        seqM (log_line (''connection '' @ py_repr name @ '' already configured; validating it (it may have been rotated)''))
            (validate_connection H c name) | _ \<Rightarrow> skip)"
      by (cases o1) (auto intro!: configs_intros validate_configs)
    have "configs.adds s ?s1" using read_ok by (auto simp: configs.adds_def)
    moreover have "configs.adds ?s1 s'"
      using run r1 False k configs.refl [of ?s1]
      by (cases o1) (auto simp: ensure_connection_def bindM_def keeps_def split: if_splits dest: spec [of _ ?s1])
    ultimately show ?thesis by (rule configs.trans)
  next
    case True
    let ?wr = "\<lambda>args. \<lparr>hc_token = Some c, hc_method = ''write'', hc_args = (''path'', JStr (''database/config/'' @ name)) # args\<rparr>"
    obtain args where run2: "seqM (ignored (hv H (Some c) ''write'' ((''path'', JStr (''database/config/'' @ name)) # args)))
        (validate_connection H c name) ?s1 = (r, s')"
      using run r1 True by (auto simp: ensure_connection_def bindM_def hv_write_def)
    obtain o2 w2 where wr: "hvac H (?wr args) w1 = (o2, w2)" by fastforce
    let ?s2 = "s\<lparr>outer := w2, calls := calls s @ [(?read, Ret JNull), (?wr args, o2)]\<rparr>"
    have r2: "hv H (Some c) ''write'' ((''path'', JStr (''database/config/'' @ name)) # args) ?s1 = (o2, ?s2)"
      using wr True by (simp add: hv_def)
    have pair: "only_new_configs [(?read, Ret JNull), (?wr args, o2)]"
      by (auto simp: only_new_configs_def nth_Cons' config_write_def path_of_def)
    then have "configs.adds s ?s2" by (auto simp: configs.adds_def)
    moreover have "configs.adds ?s2 s'"
      using run2 r2 validate_configs [of H c name] configs.refl [of ?s2]
      by (cases o2) (auto simp: seqM_def ignored_def bindM_def ret_def keeps_def dest: spec [of _ ?s2])
    ultimately show ?thesis by (rule configs.trans)
  qed
qed

lemma ensure_connections_configs: "keeps configs.adds (ensure_connections H c)"
  unfolding ensure_connections_def store_introspect_def foreach.simps call_defs
  by (intro configs_intros ensure_connection_configs; simp add: config_write_def)

lemma setup_main_configs: "keeps configs.adds (setup_main H argv)"
  unfolding setup_main_def provision_def Let_def
  by (intro configs_intros setup_parts_configs ensure_connections_configs)

section \<open>The root token is given up last\<close>

definition login_call :: "string \<Rightarrow> string \<Rightarrow> hvac_call" where
  "login_call r i = \<lparr>hc_token = None, hc_method = ''auth.approle.login'',
     hc_args = [(''role_id'', JStr r), (''secret_id'', JStr i)]\<rparr>"

definition client_token :: "json \<Rightarrow> exn + string" where
  "client_token r = sbind (item r ''auth'') (\<lambda>a. sbind (item a ''client_token'') as_string)"

text \<open>
  The calls show that the middleware's identity works: a login, a read with its token, and a refusal of
  each of the two writes it must not be able to do.
\<close>

definition refused :: "trace \<Rightarrow> string \<Rightarrow> string \<Rightarrow> bool" where
  "refused t svc p \<longleftrightarrow> (\<exists>k e. (k, Raise e) \<in> set t \<and> exc_class e = Forbidden \<and> hc_token k = Some svc
     \<and> hc_method k = ''write'' \<and> path_of k = p)"

definition self_checked :: "trace \<Rightarrow> bool" where
  "self_checked t \<longleftrightarrow>
     (\<exists>svc r i a. (login_call r i, Ret a) \<in> set t \<and> client_token a = Inr svc
        \<and> (\<exists>k v. (k, Ret v) \<in> set t \<and> hc_token k = Some svc \<and> hc_method k = ''secrets.kv.v2.read_secret_version''
             \<and> path_of k = ''vdba/introspect/postgres'')
        \<and> refused t svc ''sys/policies/acl/evil'' \<and> refused t svc ''database/config/evil'')"

lemma self_checked_mono: "self_checked t \<Longrightarrow> set t \<subseteq> set u \<Longrightarrow> self_checked u"
  unfolding self_checked_def refused_def by (meson subsetD)

definition checked_before_revoke :: "trace \<Rightarrow> bool" where
  "checked_before_revoke t \<longleftrightarrow>
     (\<forall>i < length t. hc_method (fst (t ! i)) = ''auth.token.revoke_self'' \<longrightarrow> self_checked (take i t))"

interpretation growth: trace_law "\<lambda>_. True"
  by unfold_locales simp_all

interpretation revokes: trace_law checked_before_revoke
proof
  show "checked_before_revoke (t @ u)" if "checked_before_revoke t" "checked_before_revoke u" for t u
    unfolding checked_before_revoke_def
  proof (intro allI impI)
    fix i assume i: "i < length (t @ u)" and w: "hc_method (fst ((t @ u) ! i)) = ''auth.token.revoke_self''"
    show "self_checked (take i (t @ u))"
    proof (cases "i < length t")
      case True
      then show ?thesis using that(1) w by (auto simp: checked_before_revoke_def nth_append)
    next
      case False
      then have "self_checked (take (i - length t) u)"
        using that(2) i w by (auto simp: checked_before_revoke_def nth_append)
      then show ?thesis by (rule self_checked_mono) auto
    qed
  qed
qed (simp add: checked_before_revoke_def)

lemma not_revoke: "hc_method k \<noteq> ''auth.token.revoke_self'' \<Longrightarrow> checked_before_revoke [(k, r)]"
  by (simp add: checked_before_revoke_def)

lemma submit_keys_revokes: "keeps revokes.adds (submit_keys H ks)"
  by (induction ks) (auto intro!: revokes.rules revokes.one_call not_revoke)

lemma first_accepted_revokes: "keeps revokes.adds (first_accepted H ts)"
  by (induction ts) (auto intro!: revokes.rules revokes.one_call not_revoke)

lemmas revokes_intros = revokes.rules revokes.quiet_keep revokes.one_call not_revoke
  submit_keys_revokes first_accepted_revokes

lemmas connection_defs = ensure_connections_def ensure_connection_def validate_connection_def store_introspect_def
  run_probe_def probe_cleanup_def

lemma setup_parts_revokes:
  "keeps revokes.adds (init_and_unseal H)" "keeps revokes.adds (root_client H keys)"
  "keeps revokes.adds (ensure_audit H c)" "keeps revokes.adds (ensure_engines H c)"
  "keeps revokes.adds (ensure_connections H c)"
  "keeps revokes.adds (ensure_policies_and_roles H c)" "keeps revokes.adds (deliver_approle H c)"
  "keeps revokes.adds (self_check H)" "keeps revokes.adds (mint_test_admin H c)"
  "keeps revokes.adds (without_root H)"
  unfolding keys_defs provision_defs connection_defs self_check_def must_be_forbidden_def foreach.simps call_defs
  by (intro revokes_intros; simp)+

lemma revoke_root_grows: "keeps growth.adds (revoke_root H c keep)"
  unfolding revoke_root_def call_defs by (intro growth.rules growth.quiet_keep growth.one_call TrueI)

lemma mint_grows: "keeps growth.adds (mint_test_admin H c)"
  unfolding mint_test_admin_def call_defs by (intro growth.rules growth.quiet_keep growth.one_call TrueI)

lemma hv_run: "hv H c m args s = (r, s') \<Longrightarrow>
    calls s' = calls s @ [(\<lparr>hc_token = c, hc_method = m, hc_args = args\<rparr>, r)]"
  by (auto simp: hv_def Let_def split: prod.splits)

lemma stripped_calls: "stripped H p s = (r, s') \<Longrightarrow> calls s' = calls s"
  by (auto simp: stripped_def read_file_def fs_def outer_call_def seqM_def bindM_def gets_def ret_def raise_def
      split: prod.splits outcome.splits option.splits)

lemma service_identity_Ret:
  "service_identity H s = (Ret svc, s') \<Longrightarrow>
     \<exists>r i a. calls s' = calls s @ [(login_call r i, Ret a)] \<and> client_token a = Inr svc"
  by (auto simp: service_identity_def hv_approle_login_def returned login_call_def client_token_def
      dest!: stripped_calls hv_run)

lemma must_be_forbidden_Ret:
  assumes "must_be_forbidden H svc bad s = (Ret u, s')"
  shows "\<exists>t. calls s' = calls s @ t \<and> refused t svc bad"
proof -
  obtain args e where "hv H (Some svc) ''write'' ((''path'', JStr bad) # args) s = (Raise e, s')" "exc_class e = Forbidden"
    using assms by (auto simp: must_be_forbidden_def try_except_def returned hv_write_def seqM_def bindM_def ret_def
      split: if_splits prod.splits outcome.splits)
  then show ?thesis
    by (auto simp: refused_def path_of_def dest!: hv_run)
qed

lemma self_check_Ret:
  assumes "self_check H s = (Ret u, s')"
  shows "\<exists>t. calls s' = calls s @ t \<and> self_checked t"
proof -
  obtain svc s1 v s2 s3 s4 where svc: "service_identity H s = (Ret svc, s1)"
    and read: "hv H (Some svc) ''secrets.kv.v2.read_secret_version''
      [(''path'', JStr ''vdba/introspect/postgres''), (''mount_point'', JStr ''kv'')] s1 = (Ret v, s2)"
    and bad: "must_be_forbidden H svc ''sys/policies/acl/evil'' s2 = (Ret (), s3)"
      "must_be_forbidden H svc ''database/config/evil'' s3 = (Ret (), s4)" and s': "calls s' = calls s4"
    using assms by (auto simp: self_check_def ignored_def returned log_line_def)
  obtain r i a where t1: "calls s1 = calls s @ [(login_call r i, Ret a)]" "client_token a = Inr svc"
    using service_identity_Ret [OF svc] by blast
  obtain t3 t4 where t3: "calls s3 = calls s2 @ t3" "refused t3 svc ''sys/policies/acl/evil''"
    and t4: "calls s4 = calls s3 @ t4" "refused t4 svc ''database/config/evil''"
    using bad [THEN must_be_forbidden_Ret] by blast
  let ?k = "\<lparr>hc_token = Some svc, hc_method = ''secrets.kv.v2.read_secret_version'',
    hc_args = [(''path'', JStr ''vdba/introspect/postgres''), (''mount_point'', JStr ''kv'')]\<rparr>"
  let ?t = "[(login_call r i, Ret a), (?k, Ret v)] @ t3 @ t4"
  have "calls s' = calls s @ ?t"
    using t1 t3 t4 s' hv_run [OF read] by simp
  moreover have "refused ?t svc ''sys/policies/acl/evil''" "refused ?t svc ''database/config/evil''"
    using t3(2) t4(2) unfolding refused_def by auto
  then have "self_checked ?t"
    unfolding self_checked_def using t1(2)
    by (intro exI [of _ svc] exI [of _ r] exI [of _ i] exI [of _ a] conjI exI [of _ ?k] exI [of _ v])
       (auto simp: path_of_def)
  ultimately show ?thesis by blast
qed

lemma checked_prefix: "self_checked t \<Longrightarrow> checked_before_revoke t \<Longrightarrow> checked_before_revoke (t @ u)"
  unfolding checked_before_revoke_def
  by (auto simp: nth_append take_append split: if_splits intro: self_checked_mono)

lemma after_self_check:
  assumes "keeps growth.adds m"
  shows "keeps revokes.adds (seqM (self_check H) m)"
proof (rule keepsI)
  fix s r s' assume run: "seqM (self_check H) m s = (r, s')"
  obtain r1 s1 where c: "self_check H s = (r1, s1)" by fastforce
  have k: "revokes.adds s s1" using keepsD [OF setup_parts_revokes(8) c] .
  show "revokes.adds s s'"
  proof (cases r1)
    case (Ret u)
    obtain t where t: "calls s1 = calls s @ t" "self_checked t" using self_check_Ret c Ret by blast
    then have "checked_before_revoke t" using k by (auto simp: revokes.adds_def)
    moreover obtain t2 where "calls s' = calls s1 @ t2"
      using run c Ret assms by (auto simp: seqM_def bindM_def growth.adds_def keeps_def dest: spec [of _ s1])
    ultimately show ?thesis using t checked_prefix by (auto simp: revokes.adds_def)
  qed (use run c k in \<open>auto simp: seqM_def bindM_def\<close>)
qed

lemma setup_main_revokes: "keeps revokes.adds (setup_main H argv)"
  unfolding setup_main_def provision_def Let_def
  by (intro revokes_intros setup_parts_revokes after_self_check
        growth.rules growth.quiet_keep mint_grows revoke_root_grows)

text \<open>With the option to keep it, the root token is not revoked at all.\<close>

interpretation keeping: trace_law "\<lambda>t. \<forall>e\<in>set t. hc_method (fst e) \<noteq> ''auth.token.revoke_self''"
  by unfold_locales auto

lemma kept_call: "hc_method k \<noteq> ''auth.token.revoke_self'' \<Longrightarrow>
    \<forall>e\<in>set [(k, r)]. hc_method (fst e) \<noteq> ''auth.token.revoke_self''"
  by simp

lemma submit_keys_keeping: "keeps keeping.adds (submit_keys H ks)"
  by (induction ks) (auto intro!: keeping.rules keeping.one_call)

lemma first_accepted_keeping: "keeps keeping.adds (first_accepted H ts)"
  by (induction ts) (auto intro!: keeping.rules keeping.one_call)

lemma setup_main_keeping:
  assumes "sbind (shlex_split (env_text H ''VDBA_SETUP_ARGS'')) (\<lambda>extra. parse_args (extra @ argv)) = Inr True"
  shows "keeps keeping.adds (setup_main H argv)"
proof -
  have m: "setup_main H argv s =
     (let bad = problems (environ_of H) in
     if bad \<noteq> [] then raise (Exn SystemExit (''refusing to run setup: '' @ join ''; '' bad))
     else
       seqM (make_dir H (SECRETS H))
       (seqM (chmod_dir H (SECRETS H) 448)
       (bindM (init_and_unseal H) (\<lambda>keys.
       bindM (root_client H keys) (\<lambda>accepted.
       case accepted of
         None \<Rightarrow> without_root H
       | Some c \<Rightarrow> provision H c True))))) s" for s
    using assms by (cases "shlex_split (env_text H ''VDBA_SETUP_ARGS'')")
      (auto simp: setup_main_def bindM_def lift_def)
  have "keeps keeping.adds (\<lambda>s. setup_main H argv s)"
    unfolding m Let_def provision_def keys_defs provision_defs connection_defs self_check_def must_be_forbidden_def
      revoke_root_def foreach.simps call_defs if_True
    by (intro keeping.rules keeping.quiet_keep keeping.one_call kept_call submit_keys_keeping first_accepted_keeping; simp)
  then show ?thesis by simp
qed

section \<open>The files\<close>

text \<open>
  What a relation has to ignore to be kept by everything but the writing of files and the printing of lines.
\<close>

locale field_frame = frame R for R :: "'w box \<Rightarrow> 'w box \<Rightarrow> bool" +
  assumes calls: "R s (s\<lparr>outer := w, calls := calls s @ c\<rparr>)"
    and outer: "R s (s\<lparr>outer := w\<rparr>)"
    and dirs: "R s (s\<lparr>dirs := d\<rparr>)"
begin

lemma hv_keep: "keeps R (hv H c m args)"
  by (auto simp: keeps_def hv_def Let_def calls split: prod.split)

lemma outer_keep: "keeps R (outer_call f)"
  by (auto simp: keeps_def outer_call_def outer split: prod.split)

lemma fs_keep: "keeps R (fs H p)"
  unfolding fs_def by (rule outer_keep)

lemma exists_keep: "keeps R (path_exists p)"
  unfolding path_exists_def by (rule gets)

lemma read_file_keep: "keeps R (read_file H p)"
  unfolding read_file_def by (intro rules fs_keep)

lemma dirs_keep: "keeps R (make_dir H p)" "keeps R (chmod_dir H p m)" "keeps R (chown_dir H p n)"
  unfolding make_dir_def chmod_dir_def chown_dir_def by (intro rules fs_keep keeps_modify; simp add: dirs refl)+

lemma load_keep: "keeps R (load_keys H)" "keeps R (stripped H p)"
  unfolding load_keys_def stripped_def by (intro rules exists_keep read_file_keep)+

lemmas same_keep = hv_keep outer_keep fs_keep exists_keep read_file_keep dirs_keep load_keep

lemma loops_keep: "keeps R (submit_keys H ks)" "keeps R (first_accepted H ts)"
proof -
  show "keeps R (submit_keys H ks)" by (induction ks) (auto intro!: rules hv_keep)
  show "keeps R (first_accepted H ts)" by (induction ts) (auto intro!: rules hv_keep)
qed

end

text \<open>Every line the command can print; the only settings in them are a directory and the name of the administrator.\<close>

definition connection_messages :: "string \<Rightarrow> string set" where
  "connection_messages name =
     {''connection '' @ py_repr name @ '' already configured; validating it (it may have been rotated)'',
      ''connection '' @ py_repr name
        @ '' verified: account vault_manager, our username template, privileges within the allowlist'',
      ''connector '' @ py_repr name @ '' re-checked with the service identity (account and username_template ok)'',
      ''WARNING: cannot read connector '' @ py_repr name
        @ '' with the service identity (older policy): NOT re-checked''}"

definition messages :: "'w host \<Rightarrow> string set" where
  "messages H =
     {''Vault initialized; unseal key(s) and root token written to '' @ KEYS_FILE H @ '' (mode 0600)'',
      ''Vault unsealed'',
      ''file audit device enabled (/vault/logs/audit.log in the vault container)'',
      ''WARNING: the root token is revoked, so the least-privilege probe was NOT re-run: the effective privileges ''
        @ ''of the vault_manager accounts were not re-validated. Re-run setup with a root token to do that.'',
      ''existing AppRole secret_id is still valid; keeping it'',
      ''new AppRole secret_id written to secrets/approle/secret_id'',
      ''self-check ok: AppRole login works; policy/config writes are forbidden'',
      ''TEST HOOKS ON: wrote a 2 h test-admin token to secrets/test-admin-token (never do this in production)'',
      ''--keep-root: root token left in place (revoke it yourself when done)'',
      ''root token revoked and removed from disk'',
      ''already provisioned (root token is revoked and the AppRole login works); nothing to provision''}
     \<union> connection_messages ''postgres'' \<union> connection_messages ''clickhouse''
     \<union> {''done: portal admin is '' @ py_repr admin @ ''; the middleware can now log in via AppRole'' | admin.
          environ_of H ''VDBA_ADMIN_USER'' = Some admin}"

lemma message_in:
  "''Vault initialized; unseal key(s) and root token written to '' @ KEYS_FILE H @ '' (mode 0600)'' \<in> messages H"
  "''Vault unsealed'' \<in> messages H"
  "''file audit device enabled (/vault/logs/audit.log in the vault container)'' \<in> messages H"
  "''WARNING: the root token is revoked, so the least-privilege probe was NOT re-run: the effective privileges ''
        @ ''of the vault_manager accounts were not re-validated. Re-run setup with a root token to do that.'' \<in> messages H"
  "''existing AppRole secret_id is still valid; keeping it'' \<in> messages H"
  "''new AppRole secret_id written to secrets/approle/secret_id'' \<in> messages H"
  "''self-check ok: AppRole login works; policy/config writes are forbidden'' \<in> messages H"
  "''TEST HOOKS ON: wrote a 2 h test-admin token to secrets/test-admin-token (never do this in production)'' \<in> messages H"
  "''--keep-root: root token left in place (revoke it yourself when done)'' \<in> messages H"
  "''root token revoked and removed from disk'' \<in> messages H"
  "''already provisioned (root token is revoked and the AppRole login works); nothing to provision'' \<in> messages H"
  unfolding messages_def by (simp_all only: Un_iff insert_iff simp_thms)

lemma connection_message_in:
  assumes "name \<in> {''postgres'', ''clickhouse''}"
  shows "''connection '' @ py_repr name @ '' already configured; validating it (it may have been rotated)'' \<in> messages H"
    "''connection '' @ py_repr name
        @ '' verified: account vault_manager, our username template, privileges within the allowlist'' \<in> messages H"
    "''connector '' @ py_repr name @ '' re-checked with the service identity (account and username_template ok)'' \<in> messages H"
    "''WARNING: cannot read connector '' @ py_repr name
        @ '' with the service identity (older policy): NOT re-checked'' \<in> messages H"
proof -
  have "connection_messages name \<subseteq> messages H" using assms by (auto simp only: messages_def)
  moreover have "''connection '' @ py_repr name @ '' already configured; validating it (it may have been rotated)''
      \<in> connection_messages name"
    "''connection '' @ py_repr name
        @ '' verified: account vault_manager, our username template, privileges within the allowlist'' \<in> connection_messages name"
    "''connector '' @ py_repr name @ '' re-checked with the service identity (account and username_template ok)''
      \<in> connection_messages name"
    "''WARNING: cannot read connector '' @ py_repr name
        @ '' with the service identity (older policy): NOT re-checked'' \<in> connection_messages name"
    unfolding connection_messages_def by (simp_all only: insert_iff simp_thms)
  ultimately show "''connection '' @ py_repr name @ '' already configured; validating it (it may have been rotated)'' \<in> messages H"
    "''connection '' @ py_repr name
        @ '' verified: account vault_manager, our username template, privileges within the allowlist'' \<in> messages H"
    "''connector '' @ py_repr name @ '' re-checked with the service identity (account and username_template ok)'' \<in> messages H"
    "''WARNING: cannot read connector '' @ py_repr name
        @ '' with the service identity (older policy): NOT re-checked'' \<in> messages H"
    by blast+
qed

lemma done_message_in:
  "environ_of H ''VDBA_ADMIN_USER'' = Some admin \<Longrightarrow>
     ''done: portal admin is '' @ py_repr admin @ ''; the middleware can now log in via AppRole'' \<in> messages H"
  unfolding messages_def by blast

context field_frame
begin

lemma check_keep: "keeps R (check_connection_config H c name)"
  unfolding check_connection_config_def call_defs by (intro rules same_keep)

lemma approle_keep: "keeps R (approle_login_ok H r i)" "keeps R (service_identity H)"
  unfolding approle_login_ok_def service_identity_def call_defs by (intro rules same_keep)+

lemma probe_keep: "keeps R (run_probe H c name)"
  unfolding run_probe_def probe_cleanup_def call_defs by (intro rules same_keep)

lemma forbidden_keep: "keeps R (must_be_forbidden H svc bad)"
  unfolding must_be_forbidden_def call_defs by (intro rules same_keep)

lemma root_client_keep: "keeps R (root_client H keys)"
  unfolding root_client_def by (intro rules same_keep loops_keep)

lemmas parts_keep = same_keep loops_keep check_keep approle_keep probe_keep forbidden_keep root_client_keep

lemma setup_main_keep:
  assumes log: "\<And>t. t \<in> messages H \<Longrightarrow> keeps R (log_line t)"
    and ids: "\<And>p t. p \<in> {SECRET_ID_FILE H, ROLE_ID_FILE H} \<Longrightarrow> keeps R (write_private H p t 256 (Some (app_uid H)))"
    and tok: "\<And>t. keeps R (write_private H (SECRETS H @ ''/test-admin-token'') t 384 (host_uid H))"
    and first: "keeps R (initialize H)"
    and last: "\<And>c. keeps R (revoke_root H c False)"
  shows "keeps R (setup_main H argv)"
proof -
  note l = message_in [THEN log] and named = connection_message_in [THEN log]
  have unseal: "keeps R (unseal H keys)" for keys
    unfolding unseal_def by (intro rules parts_keep l)
  have start: "keeps R (init_and_unseal H)"
    unfolding init_and_unseal_def by (intro rules parts_keep unseal first)
  have validate: "keeps R (validate_connection H c name)" if "name \<in> {''postgres'', ''clickhouse''}" for c name
    unfolding validate_connection_def call_defs using that by (intro rules parts_keep named)
  have ensure: "keeps R (ensure_connection H c name plugin url user pw)" if "name \<in> {''postgres'', ''clickhouse''}"
    for c name plugin url user pw
    unfolding ensure_connection_def call_defs using that by (intro rules parts_keep validate named)
  have connections: "keeps R (ensure_connections H c)" for c
    unfolding ensure_connections_def store_introspect_def foreach.simps call_defs
    by (intro rules parts_keep ensure) simp_all
  have recheck: "keeps R (recheck_connector H svc name)" if "name \<in> {''postgres'', ''clickhouse''}" for svc name
    unfolding recheck_connector_def using that by (intro rules parts_keep named)
  have without: "keeps R (without_root H)"
    unfolding without_root_def already_provisioned_def recheck_without_root_def foreach.simps
    by (intro rules parts_keep recheck l; simp)
  have revoke: "keeps R (revoke_root H c keep)" for c keep
  proof (cases keep)
    case True
    then show ?thesis unfolding revoke_root_def by (simp only: if_True) (intro l)
  qed (simp add: last)
  have audit: "keeps R (ensure_audit H c)" for c
    unfolding ensure_audit_def call_defs by (intro rules parts_keep l)
  have engines: "keeps R (ensure_engines H c)" for c
    unfolding ensure_engines_def call_defs Let_def by (intro rules parts_keep)
  have policies: "keeps R (ensure_policies_and_roles H c)" for c
    unfolding ensure_policies_and_roles_def call_defs by (intro rules parts_keep)
  have deliver: "keeps R (deliver_approle H c)" for c
    unfolding deliver_approle_def new_secret_id_def call_defs by (intro rules parts_keep ids l; simp)
  have check: "keeps R (self_check H)"
    unfolding self_check_def foreach.simps call_defs by (intro rules parts_keep l)
  have mint: "keeps R (mint_test_admin H c)" for c
    unfolding mint_test_admin_def call_defs by (intro rules parts_keep tok l)
  have done_: "keeps R (bindM (lift (env_item (environ_of H) ''VDBA_ADMIN_USER'')) (\<lambda>admin.
      log_line (''done: portal admin is '' @ py_repr admin @ ''; the middleware can now log in via AppRole'')))"
  proof (cases "environ_of H ''VDBA_ADMIN_USER''")
    case None
    then show ?thesis by (simp add: env_item_def keeps_def bindM_def lift_def refl)
  next
    case (Some a)
    have "keeps R (log_line (''done: portal admin is '' @ py_repr a @ ''; the middleware can now log in via AppRole''))"
      by (rule log, rule done_message_in, rule Some)
    then show ?thesis by (simp add: Some env_item_def keeps_def bindM_def lift_def)
  qed
  show ?thesis
    unfolding setup_main_def provision_def Let_def
    by (intro rules parts_keep start without audit engines connections policies deliver check mint revoke done_)
qed

end

end
