(* ===== verification/Setup_Files.thy ===== *)
theory Setup_Files
  imports Setup_Safety
begin

text \<open>
  The files and the lines of a run of \<open>setup.py\<close>: what the writing of one file does however it ends, and
  from it that secrets are only ever in private files, that the unseal keys survive every run, and that nothing
  secret is printed.
\<close>

section \<open>Writing one file\<close>

definition written :: "string \<Rightarrow> string \<Rightarrow> nat \<Rightarrow> int option \<Rightarrow> 'w box \<Rightarrow> unit outcome \<Rightarrow> 'w box \<Rightarrow> bool" where
  "written path str mode uid s r s' \<longleftrightarrow>
     printed s' = printed s \<and> calls s' = calls s
     \<and> (if r = Ret () then files s' = (files s)(path \<mapsto> \<lparr>sf_text = str, sf_mode = mode, sf_uid = uid\<rparr>)
        else files s' = files s \<or> (\<exists>tmp x. files s tmp = None \<and> files s' = (files s)(tmp := x)
               \<and> (\<forall>f. x = Some f \<longrightarrow> sf_mode f \<in> {384, mode})))"

lemma fs_run: "fs H p s = (r, s') \<Longrightarrow> \<exists>w. s' = s\<lparr>outer := w\<rparr>"
  by (auto simp: fs_def outer_call_def split: prod.splits)

lemma wp_fs_seq:
  assumes "\<And>w. wp k Q (s\<lparr>outer := w\<rparr>)" and "\<And>e w. Q (Raise e) (s\<lparr>outer := w\<rparr>)"
    and "\<And>w. Q Halt (s\<lparr>outer := w\<rparr>)" and "\<And>w. Q Diverge (s\<lparr>outer := w\<rparr>)"
  shows "wp (seqM (fs H p) k) Q s"
proof -
  obtain r s' where run: "fs H p s = (r, s')" by fastforce
  then obtain w where "s' = s\<lparr>outer := w\<rparr>" using fs_run by blast
  then show ?thesis using run assms by (cases r) (simp_all add: seqM_def bindM_def wp_def)
qed

lemma wp_put_seq: "wp k Q (s\<lparr>files := (files s)(p := f)\<rparr>) \<Longrightarrow> wp (seqM (put_file p f) k) Q s"
  by (simp add: wp_seqM put_file_def wp_modify)

text \<open>What the file system holds when the writing stops early: the temporary file, as far as it was made.\<close>

definition partial :: "string \<Rightarrow> nat \<Rightarrow> 'w box \<Rightarrow> 'w box \<Rightarrow> bool" where
  "partial tmp mode s s' \<longleftrightarrow>
     printed s' = printed s \<and> calls s' = calls s
     \<and> (\<exists>x. files s' = (files s)(tmp := x) \<and> (\<forall>f. x = Some f \<longrightarrow> sf_mode f \<in> {384, mode}))"

lemma partial_step:
  assumes "partial tmp mode s t"
  shows "partial tmp mode s (t\<lparr>outer := w\<rparr>)"
    and "sf_mode f \<in> {384, mode} \<Longrightarrow> partial tmp mode s (t\<lparr>files := (files t)(tmp \<mapsto> f)\<rparr>)"
  using assms by (auto simp: partial_def)

lemma partial_written:
  "partial tmp mode s t \<Longrightarrow> files s tmp = None \<Longrightarrow> r \<noteq> Ret () \<Longrightarrow> written path str mode uid s r t"
  by (auto simp: partial_def written_def)

lemma write_steps:
  assumes "files s tmp = None"
  shows "wp (seqM (fs H tmp)
       (seqM (put_file tmp (Some \<lparr>sf_text = [], sf_mode = 384, sf_uid = None\<rparr>))
       (seqM (fs H tmp)
       (seqM (put_file tmp (Some \<lparr>sf_text = str, sf_mode = 384, sf_uid = None\<rparr>))
       (seqM (fs H tmp)
       (seqM (put_file tmp (Some \<lparr>sf_text = str, sf_mode = mode, sf_uid = None\<rparr>))
       (seqM (whenM (uid \<noteq> None)
                (seqM (fs H tmp) (put_file tmp (Some \<lparr>sf_text = str, sf_mode = mode, sf_uid = uid\<rparr>))))
       (seqM (fs H path)
       (modify (\<lambda>s. s\<lparr>files := (files s)(tmp := None, path := files s tmp)\<rparr>)))))))))) (written path str mode uid s) s"
proof -
  note W = partial_written [OF _ assms]
  have s0: "partial tmp mode s s"
    using assms by (auto simp: partial_def intro!: exI [of _ None])
  have last: "wp (seqM (fs H path) (modify (\<lambda>s. s\<lparr>files := (files s)(tmp := None, path := files s tmp)\<rparr>)))
      (written path str mode uid s) t"
    if "partial tmp mode s t" "files t tmp = Some \<lparr>sf_text = str, sf_mode = mode, sf_uid = uid\<rparr>" for t
    using that assms by (intro wp_fs_seq W partial_step) (auto simp: wp_modify written_def partial_def)
  have owner: "wp (seqM (whenM (uid \<noteq> None)
                (seqM (fs H tmp) (put_file tmp (Some \<lparr>sf_text = str, sf_mode = mode, sf_uid = uid\<rparr>))))
       (seqM (fs H path) (modify (\<lambda>s. s\<lparr>files := (files s)(tmp := None, path := files s tmp)\<rparr>))))
      (written path str mode uid s) t"
    if "partial tmp mode s t" "files t tmp = Some \<lparr>sf_text = str, sf_mode = mode, sf_uid = None\<rparr>" for t
  proof (cases "uid = None")
    case True
    then show ?thesis using last that by (simp add: whenM_def wp_seqM wp_ret)
  next
    case False
    have "wp (seqM (fs H tmp) (seqM (put_file tmp (Some \<lparr>sf_text = str, sf_mode = mode, sf_uid = uid\<rparr>))
       (seqM (fs H path) (modify (\<lambda>s. s\<lparr>files := (files s)(tmp := None, path := files s tmp)\<rparr>)))))
      (written path str mode uid s) t"
      by (intro wp_fs_seq wp_put_seq last W partial_step that(1); simp)
    then show ?thesis using False by (simp add: whenM_def seqM_assoc)
  qed
  show ?thesis
    by (intro wp_fs_seq wp_put_seq owner W partial_step s0; simp)
qed

lemma write_private_written:
  "wp (write_private H path str mode uid) (written path str mode uid s) s"
proof -
  obtain n w where n: "tmp_name H (outer s) = (n, w)" by fastforce
  let ?s = "s\<lparr>outer := w\<rparr>" and ?tmp = "parent path @ ''/.tmp-'' @ n"
  have start: "written path str mode uid ?s = written path str mode uid s"
    by (intro ext) (simp add: written_def)
  have draw: "wp (outer_call (\<lambda>w. case tmp_name H w of (n, w') \<Rightarrow> (Ret n, w'))) Q s = Q (Ret n) ?s" for Q
    by (simp add: wp_def outer_call_def n)
  show ?thesis
  proof (cases "files ?s ?tmp")
    case None
    then show ?thesis
      using write_steps [of ?s ?tmp H str mode uid path]
      by (simp only: write_private_def wp_bindM draw on_ret.simps Let_def path_exists_def wp_gets wp_if start
          not_True_eq_False if_False simp_thms)
  next
    case (Some f)
    then show ?thesis
      by (auto simp: write_private_def wp_bindM draw Let_def path_exists_def wp_gets wp_raise written_def)
  qed
qed

section \<open>Secrets are only in private files\<close>

text \<open>The modes 0600 and 0400.\<close>

definition confined :: "'w box \<Rightarrow> 'w box \<Rightarrow> bool" where
  "confined s s' \<longleftrightarrow> (\<forall>p f. files s' p = Some f \<longrightarrow> files s p = Some f \<or> sf_mode f \<in> {384, 256})"

interpretation confined: field_frame confined
  by unfold_locales (auto simp: confined_def)

lemma write_private_private: "m \<in> {384, 256} \<Longrightarrow> keeps confined (write_private H p t m u)"
proof (rule keeps_of_wp)
  fix s :: "'a box" assume m: "m \<in> {384, 256}"
  show "wp (write_private H p t m u) (\<lambda>r. confined s) s"
    by (rule wp_mono [OF write_private_written]) (use m in \<open>auto simp: written_def confined_def split: if_splits\<close>)
qed

lemma put_none_private: "keeps confined (put_file p None)"
  unfolding put_file_def by (rule keeps_modify) (auto simp: confined_def)

lemma log_private: "keeps confined (log_line t)"
  unfolding log_line_def by (rule keeps_modify) (auto simp: confined_def)

lemma setup_main_private: "keeps confined (setup_main H argv)"
proof (rule confined.setup_main_keep)
  show "keeps confined (initialize H)"
    unfolding initialize_def by (intro confined.rules confined.same_keep write_private_private log_private) simp
  show "keeps confined (revoke_root H c False)" for c
    unfolding revoke_root_def unlink_file_def call_defs
    by (intro confined.rules confined.same_keep write_private_private log_private put_none_private) simp_all
qed (auto intro: log_private write_private_private)

section \<open>Nothing secret is printed\<close>

definition said :: "'w host \<Rightarrow> 'w box \<Rightarrow> 'w box \<Rightarrow> bool" where
  "said H s s' \<longleftrightarrow> (\<exists>t. printed s' = printed s @ t \<and> set t \<subseteq> (\<lambda>m. ''[setup] '' @ m) ` messages H)"

interpretation said: field_frame "said H" for H
proof
  show "said H s u" if "said H s t" "said H t u" for s t u
    using that unfolding said_def by (metis Un_least append.assoc set_append)
qed (auto simp: said_def)

lemma write_said: "keeps (said H) (write_private H' p t m u)"
proof (rule keeps_of_wp)
  fix s :: "'a box"
  show "wp (write_private H' p t m u) (\<lambda>r. said H s) s"
    by (rule wp_mono [OF write_private_written]) (auto simp: written_def said_def)
qed

lemma put_said: "keeps (said H) (put_file p f)"
  unfolding put_file_def by (rule keeps_modify) (simp add: said_def)

lemmas files_said = write_said put_said

lemma log_said: "t \<in> messages H \<Longrightarrow> keeps (said H) (log_line t)"
  unfolding log_line_def by (rule keeps_modify) (auto simp: said_def)

lemma setup_main_said: "keeps (said H) (setup_main H argv)"
proof (rule said.setup_main_keep)
  note l = message_in [THEN log_said]
  show "keeps (said H) (initialize H)"
    unfolding initialize_def by (intro said.rules said.same_keep files_said l)
  show "keeps (said H) (revoke_root H c False)" for c
    unfolding revoke_root_def unlink_file_def call_defs if_False
    by (intro said.rules said.same_keep files_said l)
qed (auto intro: log_said files_said)

section \<open>The unseal keys survive\<close>

text \<open>The keys in the file, and that a call has initialised Vault.\<close>

definition kept :: "'w host \<Rightarrow> json \<Rightarrow> 'w box \<Rightarrow> bool" where
  "kept H ks s \<longleftrightarrow> (\<exists>f j. files s (KEYS_FILE H) = Some f \<and> loads (sf_text f) = Inr j
     \<and> get_item j ''keys'' JNull = Inr ks)"

definition initialised :: "'w box \<Rightarrow> bool" where
  "initialised s \<longleftrightarrow> (\<exists>e\<in>set (calls s). hc_method (fst e) = ''sys.initialize'' \<and> (\<exists>v. snd e = Ret v))"

definition keys_safe :: "'w host \<Rightarrow> json \<Rightarrow> 'w box \<Rightarrow> bool" where
  "keys_safe H ks s \<longleftrightarrow> kept H ks s \<or> initialised s"

text \<open>An answer of Vault is parsed JSON.\<close>

definition answers_json :: "'w host \<Rightarrow> bool" where
  "answers_json H \<longleftrightarrow> (\<forall>k w r w'. hvac H k w = (Ret r, w') \<longrightarrow> dict_like r)"

interpretation keys_safe: field_frame "stable (keys_safe H ks)" for H ks
  by unfold_locales (auto simp: stable_def keys_safe_def kept_def initialised_def)

lemma kept_files: "files s' (KEYS_FILE H) = files s (KEYS_FILE H) \<Longrightarrow> kept H ks s' = kept H ks s"
  by (simp add: kept_def)

lemma write_other_safe: "p \<noteq> KEYS_FILE H \<Longrightarrow> keeps (stable (keys_safe H ks)) (write_private H' p t m u)"
proof (rule keeps_of_wp)
  fix s :: "'a box" assume p: "p \<noteq> KEYS_FILE H"
  show "wp (write_private H' p t m u) (\<lambda>r. stable (keys_safe H ks) s) s"
    by (rule wp_mono [OF write_private_written])
       (use p in \<open>auto simp: written_def stable_def keys_safe_def kept_def initialised_def split: if_splits\<close>)
qed

lemma write_keys_safe:
  assumes "dict_like j" and "get_item j ''keys'' JNull = Inr ks"
  shows "keeps (stable (keys_safe H ks)) (write_private H' (KEYS_FILE H) (dumps j) m u)"
proof (rule keeps_of_wp)
  fix s :: "'a box"
  show "wp (write_private H' (KEYS_FILE H) (dumps j) m u) (\<lambda>r. stable (keys_safe H ks) s) s"
    by (rule wp_mono [OF write_private_written])
       (use assms loads_dumps [OF assms(1)] in
         \<open>auto simp: written_def stable_def keys_safe_def kept_def initialised_def split: if_splits\<close>)
qed

lemma put_other_safe: "p \<noteq> KEYS_FILE H \<Longrightarrow> keeps (stable (keys_safe H ks)) (put_file p f)"
  unfolding put_file_def
  by (rule keeps_modify) (auto simp: stable_def keys_safe_def kept_def initialised_def)

lemma log_safe: "keeps (stable (keys_safe H ks)) (log_line t)"
  unfolding log_line_def by (rule keeps_modify) (auto simp: stable_def keys_safe_def kept_def initialised_def)

lemma initialised_grows: "growth.adds s s' \<Longrightarrow> initialised s \<Longrightarrow> initialised s'"
  by (auto simp: growth.adds_def initialised_def)

lemma other_files: "SECRET_ID_FILE H \<noteq> KEYS_FILE H" "ROLE_ID_FILE H \<noteq> KEYS_FILE H"
  "ROOT_TOKEN_FILE H \<noteq> KEYS_FILE H" "SECRETS H @ ''/test-admin-token'' \<noteq> KEYS_FILE H"
  by (auto simp: SECRET_ID_FILE_def ROLE_ID_FILE_def APPROLE_OUT_def ROOT_TOKEN_FILE_def KEYS_FILE_def)

lemma load_keys_run:
  "load_keys H s = (r, s') \<Longrightarrow> files s' = files s \<and> calls s' = calls s
     \<and> (\<forall>j f. r = Ret j \<longrightarrow> files s (KEYS_FILE H) = Some f \<longrightarrow> loads (sf_text f) = Inr j)"
  by (auto simp: load_keys_def read_file_def path_exists_def fs_def outer_call_def seqM_def bindM_def gets_def ret_def
      raise_def lift_def split: prod.splits outcome.splits option.splits sum.splits if_splits)

lemma initialize_safe: "keeps (stable (keys_safe H ks)) (initialize H)"
proof (rule keepsI)
  fix s r s' assume run: "initialize H s = (r, s')"
  show "stable (keys_safe H ks) s s'"
    unfolding stable_def
  proof
    assume safe: "keys_safe H ks s"
    have grows: "keeps growth.adds (initialize H)"
      unfolding initialize_def by (intro growth.rules growth.quiet_keep growth.one_call TrueI)
    show "keys_safe H ks s'"
    proof (cases "initialised s")
      case True
      then show ?thesis using initialised_grows keepsD [OF grows run] by (auto simp: keys_safe_def)
    next
      case False
      then have k: "kept H ks s" using safe by (simp add: keys_safe_def)
      show ?thesis
      proof (cases "initialised s'")
        case False
        then have "files s' = files s"
          using run by (auto simp: initialize_def bindM_def lift_def hv_def Let_def initialised_def written_def
            seqM_def log_line_def modify_def ret_def
            dest!: wp_run [OF write_private_written] split: sum.splits prod.splits outcome.splits)
        then show ?thesis using k kept_files [of s' H s ks] by (simp add: keys_safe_def)
      qed (simp add: keys_safe_def)
    qed
  qed
qed

lemma item_dict_like: "item r k = Inr v \<Longrightarrow> dict_like r \<Longrightarrow> dict_like v"
  by (cases r) (auto split: option.splits dest: map_of_SomeD)

lemma set_item_keys:
  assumes "set_item j k v = Inr j'" and "dict_like j" and "dict_like v" and "k \<noteq> ''keys''"
    and "get_item j ''keys'' JNull = Inr ks"
  shows "dict_like j' \<and> get_item j' ''keys'' JNull = Inr ks"
  using assms by (cases j) (auto simp: update_conv' dict_like_update simp del: dict_like.simps)

lemma pop_item_keys:
  assumes "pop_item j k = Inr j'" and "dict_like j" and "k \<noteq> ''keys''" and "get_item j ''keys'' JNull = Inr ks"
  shows "dict_like j' \<and> get_item j' ''keys'' JNull = Inr ks"
proof -
  have "map_of (filter (\<lambda>(j, _). j \<noteq> k) kvs) ''keys'' = map_of kvs ''keys''" for kvs :: "(string \<times> json) list"
    using assms(3) by (induction kvs) auto
  moreover have "distinct (map fst (filter P kvs))" if "distinct (map fst kvs)" for P and kvs :: "(string \<times> json) list"
    using that by (simp add: distinct_map_filter)
  ultimately show ?thesis using assms by (cases j) auto
qed

text \<open>What follows once the keys of the file are known.\<close>

lemma revoke_rest_safe:
  assumes "dict_like j" and "get_item j ''keys'' JNull = Inr ks" and "answers_json H"
  shows "keeps (stable (keys_safe H ks))
    (bindM (hv H (Some c) ''auth.token.lookup_self'' []) (\<lambda>r.
     bindM (lift (sbind (item r ''data'') (\<lambda>d. item d ''accessor''))) (\<lambda>accessor.
     bindM (lift (set_item j ''root_accessor'' accessor)) (\<lambda>keys.
     seqM (write_private H (KEYS_FILE H) (dumps keys) 384 (host_uid H))
     (seqM (ignored (hv H (Some c) ''auth.token.revoke_self'' []))
     (bindM (lift (pop_item keys ''root_token'')) (\<lambda>left.
     seqM (write_private H (KEYS_FILE H) (dumps left) 384 (host_uid H))
     (seqM (unlink_file H (ROOT_TOKEN_FILE H))
     (log_line ''root token revoked and removed from disk'')))))))))"
proof -
  have answer: "dict_like r" if "hv H c m args s = (Ret r, s')" for c m args r s s'
    using that assms(3) by (auto simp: hv_def answers_json_def Let_def split: prod.splits)
  show ?thesis
    unfolding unlink_file_def ignored_def
    by (intro stable.bind_returned stable.seq keys_safe.same_keep stable.lift stable.ret allI impI
          log_safe put_other_safe other_files write_keys_safe)
       (auto simp: returned sbind_Inr dest!: answer dest: set_item_keys [OF _ assms(1) _ _ assms(2)] pop_item_keys item_dict_like)
qed

lemma revoke_root_safe:
  assumes "answers_json H"
  shows "keeps (stable (keys_safe H ks)) (revoke_root H c False)"
proof (rule keepsI)
  fix s r s' assume run: "revoke_root H c False s = (r, s')"
  show "stable (keys_safe H ks) s s'"
    unfolding stable_def
  proof
    assume safe: "keys_safe H ks s"
    show "keys_safe H ks s'"
    proof (cases "initialised s")
      case True
      then show ?thesis
        using initialised_grows keepsD [OF revoke_root_grows run] by (auto simp: keys_safe_def)
    next
      case False
      then obtain f j where f: "files s (KEYS_FILE H) = Some f" "loads (sf_text f) = Inr j"
        "get_item j ''keys'' JNull = Inr ks" using safe by (auto simp: keys_safe_def kept_def)
      obtain r1 s1 where load: "load_keys H s = (r1, s1)" by fastforce
      have s1: "keys_safe H ks s1"
        using load_keys_run [OF load] safe by (auto simp: keys_safe_def kept_def initialised_def)
      show ?thesis
      proof (cases r1)
        case (Ret stored)
        then have "stored = j" using load_keys_run [OF load] f by auto
        then have step: "bindM (load_keys H) k s = k j s1" for k :: "json \<Rightarrow> ('a box, unit) prog"
          using load Ret by (simp add: bindM_def)
        from run have "stable (keys_safe H ks) s1 s'"
          unfolding revoke_root_def if_False step
          by (rule keepsD [OF revoke_rest_safe [OF loads_dict_like [OF f(2)] f(3) assms]])
        then show ?thesis using s1 by (simp add: stable_def)
      qed (use run load s1 in \<open>auto simp: revoke_root_def bindM_def\<close>)
    qed
  qed
qed

lemma setup_main_safe:
  assumes "answers_json H"
  shows "keeps (stable (keys_safe H ks)) (setup_main H argv)"
proof (rule keys_safe.setup_main_keep)
  show "keeps (stable (keys_safe H ks)) (write_private H p t 256 (Some (app_uid H)))"
    if "p \<in> {SECRET_ID_FILE H, ROLE_ID_FILE H}" for p t
    using that other_files [of H] by (intro write_other_safe) (metis insertE singletonD)
qed (intro log_safe write_other_safe other_files initialize_safe revoke_root_safe assms)+

end
