(* ===== verification/Setup_Properties.thy ===== *)
theory Setup_Properties
  imports Setup_Files
begin

text \<open>
  The properties of \<open>setup.py\<close>, with a run on a stack that is already provisioned as the concrete input.
\<close>

section \<open>A provisioned stack\<close>

text \<open>Vault is initialised and unsealed, its root token is gone, and both connections are as setup left them.\<close>

definition vault_answer :: "hvac_call \<Rightarrow> json" where
  "vault_answer k =
     (let m = hc_method k in
      if m = ''sys.is_initialized'' then JBool True
      else if m = ''sys.is_sealed'' then JBool False
      else if m = ''auth.approle.login'' then JObj [(''auth'', JObj [(''client_token'', JStr ''hvs.svc'')])]
      else if m = ''read'' then
        JObj [(''data'', JObj [(''connection_details'', JObj [(''username'', JStr ''vault_manager''),
             (''username_template'', JStr USERNAME_TEMPLATE)])])]
      else JNull)"

definition setup_environ :: environ where
  "setup_environ =
     map_of [(''VDBA_ALLOW_INSECURE'', ''1''), (''VDBA_ADMIN_USER'', ''admin''),
       (''VDBA_ADMIN_PASSWORD'', ''0123456789abcdef''), (''POSTGRES_ADMIN_PASSWORD'', ''0123456789abcdef''),
       (''CLICKHOUSE_ADMIN_PASSWORD'', ''0123456789abcdef''), (''PG_MANAGER_PASSWORD'', ''0123456789abcdef''),
       (''CLICKHOUSE_MANAGER_PASSWORD'', ''0123456789abcdef''), (''PG_INTROSPECT_PASSWORD'', ''0123456789abcdef''),
       (''CLICKHOUSE_INTROSPECT_PASSWORD'', ''0123456789abcdef'')]"

definition setup_host :: "nat host" where
  "setup_host =
     \<lparr>environ_of = setup_environ, conf = (case load_config setup_environ of Inr c \<Rightarrow> c), app_uid = 1000,
      host_uid = Some 501, hvac = (\<lambda>k n. (Ret (vault_answer k), n)), fs_fault = (\<lambda>p n. (Ret (), n)),
      tmp_name = (\<lambda>n. (show_nat n, Suc n))\<rparr>"

definition setup_file :: "string \<Rightarrow> nat \<Rightarrow> sfile" where
  "setup_file t m = \<lparr>sf_text = t, sf_mode = m, sf_uid = None\<rparr>"

definition keys_text :: string where
  \<open>keys_text = ''{"keys": ["a2V5"], "threshold": 1}''\<close>

definition setup_start :: "nat box" where
  "setup_start =
     \<lparr>files = map_of [(''/secrets/vault-keys.json'', setup_file keys_text 384),
         (''/secrets/approle/role_id'', setup_file ''rid'' 256), (''/secrets/approle/secret_id'', setup_file ''sid'' 256)],
      dirs = Map.empty, printed = [], calls = [], outer = 0\<rparr>"

lemma setup_run:
  "(case setup_main setup_host [] setup_start of
      (Ret _, s) \<Rightarrow> Some (map (hc_method \<circ> fst) (calls s), length (printed s)) | _ \<Rightarrow> None) =
   Some ([''sys.is_initialized'', ''sys.is_sealed'', ''auth.approle.login'', ''auth.approle.login'', ''read'', ''read''], 4)"
  by code_simp

section \<open>Properties\<close>

text \<open>
  C33. The unseal keys survive. Once the keys file holds the unseal keys, they are still in it after any run of the
  setup, wherever the run fails or is killed, in Vault, in the file system or in between the steps of rewriting the file,
  unless Vault was empty and this run has initialised it, which makes new keys.
\<close>

theorem unseal_keys_survive:
  assumes "answers_json H" and "kept H ks s" and "calls s = []"
  shows "kept H ks (snd (setup_main H argv s)) \<or> initialised (snd (setup_main H argv s))"
  using setup_main_safe [OF assms(1), of ks argv] assms(2,3)
  by (simp add: keeps_def stable_def keys_safe_def)

theorem unseal_keys_survive_witness:
  "kept setup_host (JArr [JStr ''a2V5'']) setup_start
   \<and> kept setup_host (JArr [JStr ''a2V5'']) (snd (setup_main setup_host [] setup_start))"
proof -
  have json: "answers_json setup_host"
    by (simp add: answers_json_def setup_host_def vault_answer_def Let_def)
  have read: "loads keys_text = Inr (JObj [(''keys'', JArr [JStr ''a2V5'']), (''threshold'', JInt 1)])"
    by code_simp
  have path: "KEYS_FILE setup_host = ''/secrets/vault-keys.json''"
    by code_simp
  have kept: "kept setup_host (JArr [JStr ''a2V5'']) setup_start"
    unfolding kept_def path using read by (simp add: setup_start_def setup_file_def)
  have "\<not> initialised (snd (setup_main setup_host [] setup_start))"
    using setup_run by (auto simp: initialised_def split: prod.splits outcome.splits)
  moreover have "calls setup_start = []" by (simp add: setup_start_def)
  ultimately show ?thesis
    using unseal_keys_survive [OF json kept] kept by blast
qed

text \<open>
  C34. The keys of a new Vault are written before anything else can fail. Initialising makes exactly one call, and when it is done
  the file holds the keys, with mode 0600, and reading it gives them back; if the writing fails, nothing follows.
\<close>

theorem new_keys_are_written_first:
  "case initialize H s of
     (Ret keys, s') \<Rightarrow>
       (\<exists>k res n. new_calls s s' = [(k, Ret res)] \<and> hc_method k = ''sys.initialize'' \<and> new_keys res n = Inr keys)
       \<and> files s' (KEYS_FILE H) = Some \<lparr>sf_text = dumps keys, sf_mode = 384, sf_uid = host_uid H\<rparr>
       \<and> (case dict_like keys of True \<Rightarrow> loads (dumps keys) = Inr keys | False \<Rightarrow> True)
   | (_, s') \<Rightarrow> length (new_calls s s') \<le> 1"
proof -
  have w: "calls s2 = calls s1 \<and> (r = Ret () \<longrightarrow>
      files s2 (KEYS_FILE H) = Some \<lparr>sf_text = t, sf_mode = 384, sf_uid = host_uid H\<rparr>)"
    if "write_private H (KEYS_FILE H) t 384 (host_uid H) s1 = (r, s2)" for t s1 r s2
    using wp_run [OF write_private_written that] by (auto simp: written_def)
  show ?thesis
    by (auto simp: initialize_def bindM_def lift_def hv_def Let_def seqM_def log_line_def modify_def ret_def new_calls_def
          loads_dumps dest!: w split: prod.split outcome.split sum.split bool.split)
qed

text \<open>
  C35. An existing connection is never overwritten. In every run, each write of the configuration of one of the two
  connections comes directly after a read of the same path with the same token that found nothing, so a manager credential that
  Vault has rotated is not replaced by the one of the environment.
\<close>

theorem existing_connections_are_kept:
  "only_new_configs (new_calls s (snd (setup_main H argv s)))"
  by (rule configs.of_run [OF setup_main_configs])

text \<open>
  C36. The root token is given up last. Whenever a run revokes it, the calls before show that the middleware's own identity
  works and is narrow: a login with its role and secret id, a read of a secret with the token of that login, and a refusal of
  both writes it must not be able to do. With the option to keep the root token, no run revokes it.
\<close>

theorem root_token_is_given_up_last:
  "checked_before_revoke (new_calls s (snd (setup_main H argv s)))
   \<and> (case sbind (shlex_split (env_text H ''VDBA_SETUP_ARGS'')) (\<lambda>extra. parse_args (extra @ argv)) of
        Inr True \<Rightarrow> list_all (\<lambda>e. hc_method (fst e) \<noteq> ''auth.token.revoke_self'') (new_calls s (snd (setup_main H argv s)))
      | _ \<Rightarrow> True)"
proof
  show "checked_before_revoke (new_calls s (snd (setup_main H argv s)))"
    by (rule revokes.of_run [OF setup_main_revokes])
  show "case sbind (shlex_split (env_text H ''VDBA_SETUP_ARGS'')) (\<lambda>extra. parse_args (extra @ argv)) of
        Inr True \<Rightarrow> list_all (\<lambda>e. hc_method (fst e) \<noteq> ''auth.token.revoke_self'') (new_calls s (snd (setup_main H argv s)))
      | _ \<Rightarrow> True"
    using keeping.of_run [OF setup_main_keeping, of H argv s] by (simp add: list_all_iff split: sum.split bool.split)
qed

text \<open>
  C37. Secrets only ever lie in private files. After any run, complete or not, every file that is new or changed has mode 0600
  or 0400, also a temporary one a killed run has left behind.
\<close>

theorem written_files_are_private:
  "\<forall>p. case files (snd (setup_main H argv s)) p of
     None \<Rightarrow> True
   | Some f \<Rightarrow> files s p = Some f \<or> sf_mode f \<in> {384, 256}"
  using setup_main_private [of H argv] by (auto simp: keeps_def confined_def split: option.split dest: spec [of _ s])


text \<open>
  C39. Setup and middleware agree on how PostgreSQL is reached. A mode is only chosen if it is a known one and a weak one only
  with consent; it is the mode the middleware's configuration has for the same environment, except that
  with consent and no setting at all the connection of Vault has \<open>disable\<close> where the middleware has \<open>prefer\<close>. Without one,
  setup stops.
\<close>

theorem setup_sslmode_agrees:
  "case pg_sslmode env of
     Inr m \<Rightarrow> m \<in> SETUP_SSLMODES \<and> (m \<notin> SETUP_WEAK_SSLMODES \<or> env ''VDBA_ALLOW_INSECURE'' = Some ''1'')
       \<and> (m = sslmode_of env
          \<or> m = ''disable'' \<and> sslmode_of env = ''prefer'' \<and> env ''VDBA_ALLOW_INSECURE'' = Some ''1''
            \<and> env_get env ''VDBA_PG_SSLMODE'' [] = [] \<and> env_get env ''VDBA_PG_SSLROOTCERT'' [] = [])
   | Inl e \<Rightarrow> exc_class e = SystemExit
       \<and> (sslmode_of env \<notin> SETUP_SSLMODES
          \<or> env ''VDBA_ALLOW_INSECURE'' \<noteq> Some ''1''
            \<and> (sslmode_of env \<in> SETUP_WEAK_SSLMODES \<or> env_get env ''VDBA_PG_SSLMODE'' [] = []))"
  by (auto simp: pg_sslmode_def sslmode_of_def Let_def SETUP_SSLMODES_def SETUP_WEAK_SSLMODES_def)

theorem setup_sslmode_agrees_witness:
  "pg_sslmode [''VDBA_ALLOW_INSECURE'' \<mapsto> ''1''] = Inr ''disable''
   \<and> sslmode_of [''VDBA_ALLOW_INSECURE'' \<mapsto> ''1''] = ''prefer''"
proof -
  have m: "pg_sslmode [''VDBA_ALLOW_INSECURE'' \<mapsto> ''1''] = Inr ''disable''"
    by (simp add: pg_sslmode_def Let_def env_get_def)
  have "sslmode_of [''VDBA_ALLOW_INSECURE'' \<mapsto> ''1''] \<noteq> ''disable''"
    by (simp add: sslmode_of_def Let_def env_get_def)
  with setup_sslmode_agrees [of "[''VDBA_ALLOW_INSECURE'' \<mapsto> ''1'']"] m show ?thesis by auto
qed

end
