(* ===== verification/Columns.thy ===== *)
theory Columns
  imports System Json_Text
begin

text \<open>
  The row of the table \<open>grants\<close> as SQLite keeps it: text in every column of an enumeration or a list, the lists
  as JSON. \<open>store._row\<close> reads it back. The other theories use the row with its values; the last lemma is the
  reason why they may.
\<close>

record grant_columns =
  col_id :: string
  col_db_type :: string
  col_scope :: string
  col_tables :: string
  col_commands :: string
  col_requested_for :: string
  col_issued_by :: string
  col_ttl_seconds :: int
  col_status :: string
  col_created_at :: real
  col_expires_at :: "real option"
  col_username :: "string option"
  col_lease_id :: "string option"
  col_token_accessor :: "string option"
  col_last_error :: "string option"
  col_updated_at :: real

section \<open>Writing\<close>

definition list_column :: "string list \<Rightarrow> string" where
  "list_column xs = dumps (JArr (map JStr xs))"

definition columns_of :: "grant \<Rightarrow> grant_columns" where
  "columns_of g =
     \<lparr>col_id = g_id g, col_db_type = db_value (g_db_type g), col_scope = scope_value (g_scope g),
      col_tables = list_column (g_tables g), col_commands = list_column (g_commands g),
      col_requested_for = g_requested_for g, col_issued_by = g_issued_by g, col_ttl_seconds = g_ttl_seconds g,
      col_status = status_value (g_status g), col_created_at = g_created_at g, col_expires_at = g_expires_at g,
      col_username = g_username g, col_lease_id = g_lease_id g, col_token_accessor = g_token_accessor g,
      col_last_error = g_last_error g, col_updated_at = g_updated_at g\<rparr>"

section \<open>Reading\<close>

definition read_list :: "string \<Rightarrow> exn + string list" where
  "read_list t = sbind (loads t) as_string_list"

definition row_of :: "grant_columns \<Rightarrow> exn + grant" where
  "row_of r =
     sbind (read_list (col_tables r)) (\<lambda>ts.
     sbind (read_list (col_commands r)) (\<lambda>cs.
     sbind (member_of ''DbType'' db_value (col_db_type r)) (\<lambda>db.
     sbind (member_of ''Scope'' scope_value (col_scope r)) (\<lambda>sc.
     sbind (member_of ''Status'' status_value (col_status r)) (\<lambda>st.
     Inr \<lparr>g_id = col_id r, g_db_type = db, g_scope = sc, g_tables = ts, g_commands = cs,
          g_requested_for = col_requested_for r, g_issued_by = col_issued_by r, g_ttl_seconds = col_ttl_seconds r,
          g_status = st, g_created_at = col_created_at r, g_expires_at = col_expires_at r,
          g_username = col_username r, g_lease_id = col_lease_id r, g_token_accessor = col_token_accessor r,
          g_last_error = col_last_error r, g_updated_at = col_updated_at r\<rparr>)))))"

section \<open>The round trip\<close>

lemma read_list_column: "read_list (list_column xs) = Inr xs"
  unfolding read_list_def list_column_def by (subst loads_dumps) (auto simp: as_strings_map)

text \<open>What is read has the values of the file.\<close>

lemma row_of_values:
  "row_of r = Inr g \<Longrightarrow> db_value (g_db_type g) = col_db_type r \<and> scope_value (g_scope g) = col_scope r
     \<and> status_value (g_status g) = col_status r"
  by (auto simp: row_of_def sbind_Inr db_values.member_is scope_values.member_is status_values.member_is)

text \<open>
  C27. The columns lose nothing: every row that is written is read back as it was, so no two grants, and no two states of a
  grant, look the same in the file.
\<close>

theorem columns_round_trip:
  "row_of (columns_of g) = Inr g \<and> (columns_of g = columns_of g' \<longleftrightarrow> g = g')"
proof -
  have read: "row_of (columns_of h) = Inr h" for h
    unfolding row_of_def columns_of_def by (simp add: read_list_column db_values.member_value scope_values.member_value status_values.member_value)
  have "g = g'" if "columns_of g = columns_of g'"
    using arg_cong [OF that, of row_of] unfolding read by simp
  then show ?thesis using read [of g] by blast
qed

end
