(* ===== verification/Data_Files.thy ===== *)
theory Data_Files
  imports Config "HOL-Library.Word"
begin

text \<open>
  \<open>store.init\<close> and \<open>_harden_files\<close>: who can read the files of the store, which hold session tokens. The state is the
  permission bits of files and directories, the umask and the path of the open connection. SQLite is a parameter:
  it creates files of its own with a mode it asks for, and the kernel clears the bits of the umask.
\<close>

unbundle bit_operations_syntax

type_synonym mode = "12 word"

record 'w vol =
  v_modes :: "string \<rightharpoonup> mode"
  v_dirs :: "string \<rightharpoonup> mode"
  v_umask :: mode
  v_conn :: "string option"
  v_world :: 'w

text \<open>
  \<open>vol_fault p\<close> decides whether an operation on \<open>p\<close> is allowed, \<open>sqlite\<close> what opening the database, the three
  pragmas and the schema create, with the modes asked for, and whether they go through.
\<close>

record 'w volume =
  vol_fault :: "string \<Rightarrow> 'w \<Rightarrow> unit outcome \<times> 'w"
  sqlite :: "string \<Rightarrow> 'w \<Rightarrow> (unit outcome \<times> (string \<times> mode) list) \<times> 'w"

definition vol_op :: "'w volume \<Rightarrow> string \<Rightarrow> ('w vol, unit) prog" where
  "vol_op D p s = (case vol_fault D p (v_world s) of (r, w) \<Rightarrow> (r, s\<lparr>v_world := w\<rparr>))"

section \<open>The operations\<close>

text \<open>\<open>open(O_CREAT)\<close>: a file that is there keeps its mode.\<close>

definition created :: "mode \<Rightarrow> string \<times> mode \<Rightarrow> (string \<rightharpoonup> mode) \<Rightarrow> (string \<rightharpoonup> mode)" where
  "created umask = (\<lambda>(p, m) fs. if fs p = None then fs(p \<mapsto> m AND NOT umask) else fs)"

definition create_file :: "'w volume \<Rightarrow> string \<Rightarrow> mode \<Rightarrow> ('w vol, unit) prog" where
  "create_file D p m =
     seqM (vol_op D p) (modify (\<lambda>s. s\<lparr>v_modes := created (v_umask s) (p, m) (v_modes s)\<rparr>))"

definition chmod_file :: "'w volume \<Rightarrow> string \<Rightarrow> mode \<Rightarrow> ('w vol, unit) prog" where
  "chmod_file D p m =
     bindM (gets v_modes) (\<lambda>fs.
     if fs p = None then raise (Exn (OtherExc ''FileNotFoundError'') p)
     else seqM (vol_op D p) (modify (\<lambda>s. s\<lparr>v_modes := (v_modes s)(p \<mapsto> m)\<rparr>)))"

definition chmod_directory :: "'w volume \<Rightarrow> string \<Rightarrow> mode \<Rightarrow> ('w vol, unit) prog" where
  "chmod_directory D p m =
     seqM (vol_op D p) (modify (\<lambda>s. s\<lparr>v_dirs := (v_dirs s)(p \<mapsto> m)\<rparr>))"

definition sqlite_open :: "'w volume \<Rightarrow> string \<Rightarrow> ('w vol, unit) prog" where
  "sqlite_open D p s =
     (case sqlite D p (v_world s) of
        ((r, new), w) \<Rightarrow> (r, s\<lparr>v_world := w, v_modes := fold (created (v_umask s)) new (v_modes s), v_conn := Some p\<rparr>))"

text \<open>\<open>os.path.dirname\<close>.\<close>

definition dirname :: "string \<Rightarrow> string" where
  "dirname p =
     (let head = rev (dropWhile (\<lambda>c. c \<noteq> CHR ''/'') (rev p)) in
      if list_all (\<lambda>c. c = CHR ''/'') head then head
      else rev (dropWhile (\<lambda>c. c = CHR ''/'') (rev head)))"

definition suffixes :: "string list" where
  "suffixes = ['''', ''-wal'', ''-shm'']"

definition harden_files :: "'w volume \<Rightarrow> string \<Rightarrow> ('w vol, unit) prog" where
  "harden_files D p =
     foreach suffixes (\<lambda>x.
       try_except (chmod_file D (p @ x) 384) (\<lambda>e. exc_class e = OtherExc ''FileNotFoundError'') (\<lambda>_. skip))"

definition init_path :: "config \<Rightarrow> string option \<Rightarrow> string" where
  "init_path c path = (case path of None \<Rightarrow> DB_PATH c | Some p \<Rightarrow> if p = [] then DB_PATH c else p)"

definition init_store :: "'w volume \<Rightarrow> config \<Rightarrow> string option \<Rightarrow> ('w vol, unit) prog" where
  "init_store D c path =
     (let p = init_path c path; dir = (if dirname p = [] then ''.'' else dirname p) in
      seqM (modify (\<lambda>s. s\<lparr>v_umask := 63\<rparr>))
      (seqM (whenM (path = None) (chmod_directory D dir 448))
      (seqM (create_file D p 384)
      (seqM (modify (\<lambda>s. s\<lparr>v_conn := None\<rparr>))
      (seqM (sqlite_open D p)
      (harden_files D p))))))"

section \<open>Files only their owner can use\<close>

definition owner_only :: "mode \<Rightarrow> bool" where
  "owner_only m \<longleftrightarrow> m AND 63 = 0"

lemma masked_owner_only: "owner_only (m AND NOT 63)"
  by (simp add: owner_only_def ac_simps)

text \<open>Under the umask, every file that appears or changes is the owner's alone.\<close>

definition sealed :: "'w vol \<Rightarrow> 'w vol \<Rightarrow> bool" where
  "sealed s s' \<longleftrightarrow>
     (v_umask s = 63 \<longrightarrow> v_umask s' = 63
       \<and> (\<forall>p m. v_modes s' p = Some m \<longrightarrow> v_modes s p = Some m \<or> owner_only m))"

interpretation sealed: frame sealed
  by unfold_locales (simp add: sealed_def, unfold sealed_def, blast)

lemma created_cases:
  "created 63 pm fs p = Some m \<Longrightarrow> fs p = Some m \<or> owner_only m"
  "fs p \<noteq> None \<Longrightarrow> created 63 pm fs p = fs p"
  using masked_owner_only [of "snd pm"]
  by (auto simp: created_def split: prod.splits if_splits)

lemma fold_created: "fold (created 63) new fs p = Some m \<Longrightarrow> fs p = Some m \<or> owner_only m"
proof (induction new arbitrary: fs)
  case (Cons pm new)
  from Cons.IH [of "created 63 pm fs"] Cons.prems created_cases(1) [of pm fs p m] show ?case by auto
qed simp

lemma fold_created_kept: "fs p \<noteq> None \<Longrightarrow> fold (created 63) new fs p = fs p"
proof (induction new arbitrary: fs)
  case (Cons pm new)
  from Cons.IH [of "created 63 pm fs"] created_cases(2) [of fs p pm] Cons.prems show ?case by simp
qed simp

lemma vol_op_sealed: "keeps sealed (vol_op D p)"
  by (rule keepsI) (auto simp: vol_op_def sealed_def split: prod.splits)

lemma sqlite_sealed: "keeps sealed (sqlite_open D p)"
  by (rule keepsI) (auto simp: sqlite_open_def sealed_def dest: fold_created split: prod.splits)

lemma operations_sealed:
  "keeps sealed (create_file D p m)" "keeps sealed (chmod_file D p 384)" "keeps sealed (chmod_directory D p m)"
proof -
  have "owner_only 384" by (simp add: owner_only_def)
  then show "keeps sealed (create_file D p m)" "keeps sealed (chmod_file D p 384)" "keeps sealed (chmod_directory D p m)"
    unfolding create_file_def chmod_file_def chmod_directory_def
    by (intro sealed.rules vol_op_sealed keeps_modify; auto simp: sealed_def dest: created_cases(1) simp: created_cases(2))+
qed

lemma harden_sealed: "keeps sealed (harden_files D p)"
  unfolding harden_files_def by (intro sealed.rules operations_sealed)

section \<open>The whole of init\<close>

text \<open>A chmod of a file that is there does not fail because it is missing.\<close>

definition faults_real :: "'w volume \<Rightarrow> bool" where
  "faults_real D \<longleftrightarrow> (\<forall>p w e. fst (vol_fault D p w) = Raise e \<longrightarrow> exc_class e \<noteq> OtherExc ''FileNotFoundError'')"

lemma vol_op_Ret [returned]:
  "vol_op D p s = (Ret u, s') \<longleftrightarrow> (\<exists>w. vol_fault D p (v_world s) = (Ret (), w) \<and> s' = s\<lparr>v_world := w\<rparr>)"
  by (auto simp: vol_op_def split: prod.splits)

lemma chmod_file_Ret [returned]:
  "chmod_file D p m s = (Ret u, s') \<longleftrightarrow>
     v_modes s p \<noteq> None \<and> (\<exists>w. vol_fault D p (v_world s) = (Ret (), w)
       \<and> s' = s\<lparr>v_world := w, v_modes := (v_modes s)(p \<mapsto> m)\<rparr>)"
  by (auto simp: chmod_file_def returned split: if_splits)

lemma chmod_directory_Ret [returned]:
  "chmod_directory D p m s = (Ret u, s') \<longleftrightarrow>
     (\<exists>w. vol_fault D p (v_world s) = (Ret (), w) \<and> s' = s\<lparr>v_world := w, v_dirs := (v_dirs s)(p \<mapsto> m)\<rparr>)"
  by (auto simp: chmod_directory_def returned)

lemma chmod_file_missing:
  assumes "faults_real D" "chmod_file D p m s = (Raise e, s')" "exc_class e = OtherExc ''FileNotFoundError''"
  shows "v_modes s p = None \<and> s' = s"
  using assms
  by (auto simp: chmod_file_def vol_op_def faults_real_def bindM_def seqM_def gets_def raise_def modify_def
      split: if_splits prod.splits outcome.splits) (metis fst_conv)+

definition chmod_if_there :: "'w volume \<Rightarrow> string \<Rightarrow> ('w vol, unit) prog" where
  "chmod_if_there D p =
     try_except (chmod_file D p 384) (\<lambda>e. exc_class e = OtherExc ''FileNotFoundError'') (\<lambda>_. skip)"

lemma chmod_if_there_Ret:
  assumes "faults_real D" "chmod_if_there D p s = (Ret u, s')"
  shows "v_umask s' = v_umask s \<and> v_conn s' = v_conn s \<and> v_dirs s' = v_dirs s
    \<and> v_modes s' = (\<lambda>q. if q = p \<and> v_modes s p \<noteq> None then Some 384 else v_modes s q)"
proof -
  consider "chmod_file D p 384 s = (Ret u, s')"
    | e where "chmod_file D p 384 s = (Raise e, s')" "exc_class e = OtherExc ''FileNotFoundError''"
    using assms(2) by (auto simp: chmod_if_there_def try_except_def returned split: if_splits)
  then show ?thesis
  proof cases
    case 1
    then show ?thesis by (auto simp: chmod_file_Ret fun_eq_iff)
  next
    case 2
    then show ?thesis using chmod_file_missing [OF assms(1)] by fastforce
  qed
qed

lemma harden_files_Ret:
  assumes "faults_real D" "harden_files D p s = (Ret u, s')"
  shows "v_umask s' = v_umask s \<and> v_conn s' = v_conn s \<and> v_dirs s' = v_dirs s
    \<and> (\<forall>x\<in>set suffixes. v_modes s' (p @ x) \<in> {None, Some 384})
    \<and> (v_modes s p \<noteq> None \<longrightarrow> v_modes s' p = Some 384)"
proof -
  obtain u1 u2 s1 s2 where "chmod_if_there D p s = (Ret u1, s1)" "chmod_if_there D (p @ ''-wal'') s1 = (Ret u2, s2)"
    "chmod_if_there D (p @ ''-shm'') s2 = (Ret u, s')"
    using assms(2) by (auto simp: harden_files_def suffixes_def returned simp flip: chmod_if_there_def)
  note steps = this [THEN chmod_if_there_Ret [OF assms(1)]]
  show ?thesis using steps by (auto simp: suffixes_def)
qed

text \<open>
  C28. The files of the store are the middleware's alone. However \<open>init\<close> ends, every file it has made or changed, also
  those SQLite makes, has no permission for group or others. When it returns, the
  database is there with mode 0600 and its two side files have it too if they are there, the directory
  of the configured database has mode 0700, and every file created later keeps to the same umask.
\<close>

theorem store_files_are_private:
  assumes "faults_real D"
  shows "case init_store D c path s of (r, s') \<Rightarrow>
    (\<forall>p m. v_modes s' p = Some m \<longrightarrow> v_modes s p = Some m \<or> owner_only m)
    \<and> (r = Ret () \<longrightarrow>
        v_umask s' = 63 \<and> v_conn s' = Some (init_path c path) \<and> v_modes s' (init_path c path) = Some 384
        \<and> (\<forall>x\<in>set suffixes. v_modes s' (init_path c path @ x) \<in> {None, Some 384})
        \<and> (path = None \<longrightarrow> v_dirs s' (if dirname (DB_PATH c) = [] then ''.'' else dirname (DB_PATH c)) = Some 448))"
proof -
  let ?p = "init_path c path" and ?d = "if dirname (DB_PATH c) = [] then ''.'' else dirname (DB_PATH c)"
  let ?m = "seqM (whenM (path = None) (chmod_directory D (if dirname ?p = [] then ''.'' else dirname ?p) 448))
      (seqM (create_file D ?p 384) (seqM (modify (\<lambda>s. s\<lparr>v_conn := None\<rparr>)) (seqM (sqlite_open D ?p) (harden_files D ?p))))"
  obtain r s' where run: "init_store D c path s = (r, s')" by fastforce
  then have m: "?m (s\<lparr>v_umask := 63\<rparr>) = (r, s')"
    by (simp add: init_store_def Let_def seqM_def [of "modify _"] bindM_def [of "modify _"] modify_def)
  have "keeps sealed ?m"
    by (intro sealed.rules operations_sealed sqlite_sealed harden_sealed keeps_modify) (simp add: sealed_def)
  from keepsD [OF this m] have sealed: "\<forall>p m. v_modes s' p = Some m \<longrightarrow> v_modes s p = Some m \<or> owner_only m"
    by (simp add: sealed_def)
  have ending: "v_umask s' = 63 \<and> v_conn s' = Some ?p \<and> v_modes s' ?p = Some 384
      \<and> (\<forall>x\<in>set suffixes. v_modes s' (?p @ x) \<in> {None, Some 384}) \<and> (path = None \<longrightarrow> v_dirs s' ?d = Some 448)"
    if fin: "r = Ret ()"
  proof -
    obtain s1 s2 s4 where d: "whenM (path = None) (chmod_directory D (if dirname ?p = [] then ''.'' else dirname ?p) 448)
          (s\<lparr>v_umask := 63\<rparr>) = (Ret (), s1)"
      and c: "create_file D ?p 384 s1 = (Ret (), s2)"
      and q: "sqlite_open D ?p (s2\<lparr>v_conn := None\<rparr>) = (Ret (), s4)" and h: "harden_files D ?p s4 = (Ret (), s')"
      using m fin by (auto simp: returned)
    have "v_umask s1 = 63 \<and> (path = None \<longrightarrow> v_dirs s1 ?d = Some 448)"
    proof (cases path)
      case None
      then have "?p = DB_PATH c" by (simp add: init_path_def)
      with d None obtain w where "s1 = s\<lparr>v_umask := 63, v_world := w, v_dirs := (v_dirs s)(?d \<mapsto> 448)\<rparr>"
        by (simp only: whenM_def chmod_directory_Ret if_True simp_thms) auto
      then show ?thesis by simp
    next
      case (Some p)
      with d have "s1 = s\<lparr>v_umask := 63\<rparr>" by (simp add: whenM_def basic_Ret)
      then show ?thesis using Some by simp
    qed
    moreover obtain w where "s2 = s1\<lparr>v_world := w, v_modes := created (v_umask s1) (?p, 384) (v_modes s1)\<rparr>"
      using c unfolding create_file_def seqM_Ret basic_Ret vol_op_Ret by auto
    moreover obtain new w' where "s4 = s2\<lparr>v_world := w', v_modes := fold (created (v_umask s2)) new (v_modes s2), v_conn := Some ?p\<rparr>"
      using q unfolding sqlite_open_def by (auto split: prod.splits)
    moreover have "created 63 (?p, 384) (v_modes s1) ?p \<noteq> None"
      by (simp add: created_def)
    ultimately have "v_umask s4 = 63" "v_conn s4 = Some ?p" "path = None \<longrightarrow> v_dirs s4 ?d = Some 448" "v_modes s4 ?p \<noteq> None"
      using fold_created_kept by simp_all
    with harden_files_Ret [OF assms h] show ?thesis by simp
  qed
  show ?thesis unfolding run using sealed ending by simp
qed

text \<open>A new volume, with a SQLite that asks for mode 0644.\<close>

definition example_volume :: "nat volume" where
  "example_volume =
     \<lparr>vol_fault = (\<lambda>p n. (Ret (), n)),
      sqlite = (\<lambda>p n. ((Ret (), [(p, 420), (p @ ''-wal'', 420), (p @ ''-shm'', 420)]), n))\<rparr>"

definition example_vol :: "nat vol" where
  "example_vol = \<lparr>v_modes = Map.empty, v_dirs = Map.empty, v_umask = 18, v_conn = None, v_world = 0\<rparr>"

lemma example_init: "fst (init_store example_volume c (Some ''/data/grants.db'') example_vol) = Ret ()"
  by (simp add: init_store_def init_path_def create_file_def sqlite_open_def harden_files_def suffixes_def
      chmod_file_def vol_op_def example_volume_def example_vol_def created_def seqM_def bindM_def modify_def gets_def
      ret_def raise_def whenM_def try_except_def catchM_def Let_def)

theorem store_files_are_private_witness:
  "\<forall>c. v_modes (snd (init_store example_volume c (Some ''/data/grants.db'') example_vol)) ''/data/grants.db'' = Some 384
     \<and> v_modes (snd (init_store example_volume c (Some ''/data/grants.db'') example_vol)) ''/data/grants.db-wal'' \<in> {None, Some 384}"
proof
  fix c
  have "faults_real example_volume" by (simp add: faults_real_def example_volume_def)
  from store_files_are_private [OF this, where c = c and path = "Some ''/data/grants.db''" and s = example_vol] example_init [of c]
  show "v_modes (snd (init_store example_volume c (Some ''/data/grants.db'') example_vol)) ''/data/grants.db'' = Some 384
     \<and> v_modes (snd (init_store example_volume c (Some ''/data/grants.db'') example_vol)) ''/data/grants.db-wal'' \<in> {None, Some 384}"
    by (simp add: case_prod_beta init_path_def suffixes_def)
qed

end
