(* ===== verification/Progress.thy ===== *)
theory Progress
  imports Termination
begin

text \<open>
  The portal not only keeps its promise while things fail, it also finishes its work once they no longer do: the laws of
  a Vault and databases that are up, and the proof that one round of the reconciler then
  finishes every grant that is due.
\<close>

section \<open>Programs whose outcome is known\<close>

text \<open>From every state the program returns a value with \<open>P\<close> or raises an exception with \<open>Q\<close>.\<close>

definition ends :: "('a \<Rightarrow> bool) \<Rightarrow> (exn \<Rightarrow> bool) \<Rightarrow> ('s, 'a) prog \<Rightarrow> bool" where
  "ends P Q m \<longleftrightarrow> (\<forall>s. case fst (m s) of Ret x \<Rightarrow> P x | Raise e \<Rightarrow> Q e | _ \<Rightarrow> False)"

abbreviation any :: "'a \<Rightarrow> bool" where "any \<equiv> \<lambda>_. True"
abbreviation none :: "'a \<Rightarrow> bool" where "none \<equiv> \<lambda>_. False"

lemma ends_mono: "ends P Q m \<Longrightarrow> (\<And>x. P x \<Longrightarrow> P' x) \<Longrightarrow> (\<And>e. Q e \<Longrightarrow> Q' e) \<Longrightarrow> ends P' Q' m"
  by (auto simp: ends_def split: outcome.splits)

lemma ends_any: "ends P none m \<Longrightarrow> ends any none m"
  by (erule ends_mono) simp_all

lemma ends_none: "ends P none m \<Longrightarrow> ends P Q m"
  by (erule ends_mono) simp_all

lemma ends_ret: "P x \<Longrightarrow> ends P Q (ret x)"
  by (simp add: ends_def ret_def)

lemma ends_lift: "r = Inr x \<Longrightarrow> P x \<Longrightarrow> ends P Q (lift r)"
  by (simp add: ends_def lift_def)

lemma ends_raise: "Q e \<Longrightarrow> ends P Q (raise e)"
  by (simp add: ends_def raise_def)

lemma ends_state: "ends any Q (gets f)" "ends any Q (modify g)"
  by (simp_all add: ends_def gets_def modify_def)

lemma ends_bind:
  assumes "ends P Q m" "\<And>x. P x \<Longrightarrow> ends R Q (k x)"
  shows "ends R Q (bindM m k)"
  unfolding ends_def
proof
  fix s
  obtain r s1 where m: "m s = (r, s1)" by fastforce
  have "case r of Ret x \<Rightarrow> P x | Raise e \<Rightarrow> Q e | _ \<Rightarrow> False"
    using assms(1) m by (auto simp: ends_def dest: spec [of _ s])
  then show "case fst (bindM m k s) of Ret x \<Rightarrow> R x | Raise e \<Rightarrow> Q e | _ \<Rightarrow> False"
    using m assms(2) by (cases r) (auto simp: bindM_def ends_def)
qed

lemma ends_seq: "ends P Q m \<Longrightarrow> ends R Q k \<Longrightarrow> ends R Q (seqM m k)"
  unfolding seqM_def by (rule ends_bind)

lemma ends_catch:
  assumes "ends P Q m" "\<And>e. Q e \<Longrightarrow> ends P R (h e)"
  shows "ends P R (catchM m h)"
  unfolding ends_def
proof
  fix s
  obtain r s1 where m: "m s = (r, s1)" by fastforce
  have "case r of Ret x \<Rightarrow> P x | Raise e \<Rightarrow> Q e | _ \<Rightarrow> False"
    using assms(1) m by (auto simp: ends_def dest: spec [of _ s])
  then show "case fst (catchM m h s) of Ret x \<Rightarrow> P x | Raise e \<Rightarrow> R e | _ \<Rightarrow> False"
    using m assms(2) by (cases r) (auto simp: catchM_def ends_def)
qed

lemma ends_try:
  assumes "ends P Q m" "\<And>e. Q e \<Longrightarrow> p e \<Longrightarrow> ends P R (h e)" "\<And>e. Q e \<Longrightarrow> \<not> p e \<Longrightarrow> R e"
  shows "ends P R (try_except m p h)"
  unfolding try_except_def
  by (rule ends_catch [OF assms(1)]) (auto intro: assms(2) ends_raise assms(3))

lemma ends_foreach: "(\<And>x. x \<in> set xs \<Longrightarrow> ends any none (f x)) \<Longrightarrow> ends any none (foreach xs f)"
  by (induction xs) (auto intro: ends_ret ends_seq)

lemma ends_filter: "(\<And>x. ends any none (f x)) \<Longrightarrow> ends any none (filterM xs f)"
  by (induction xs) (auto intro!: ends_ret intro: ends_bind)

lemma ends_when: "(b \<Longrightarrow> ends any Q m) \<Longrightarrow> ends any Q (whenM b m)"
  by (simp add: whenM_def ends_ret)

lemma ends_quiet: "ends P is_exception m \<Longrightarrow> ends any none (quiet m)"
  unfolding quiet_def
  by (rule ends_try [where Q = is_exception]) (auto intro: ends_mono ends_ret)

lemma ends_ignore: "ends P Q m \<Longrightarrow> ends any Q (ignore m)"
  unfolding ignore_def by (erule ends_bind) (rule ends_ret, simp)

section \<open>Runs with what they return and leave\<close>

definition yields :: "('s, 'a) prog \<Rightarrow> ('a \<Rightarrow> 's \<Rightarrow> bool) \<Rightarrow> 's \<Rightarrow> bool" where
  "yields m Q s \<longleftrightarrow> (\<exists>x s'. m s = (Ret x, s') \<and> Q x s')"

lemma yields_bind: "yields m Q s \<Longrightarrow> (\<And>x s'. Q x s' \<Longrightarrow> yields (k x) R s') \<Longrightarrow> yields (bindM m k) R s"
  by (fastforce simp: yields_def bindM_def)

lemma yields_seq: "yields m Q s \<Longrightarrow> (\<And>x s'. Q x s' \<Longrightarrow> yields k R s') \<Longrightarrow> yields (seqM m k) R s"
  unfolding seqM_def by (rule yields_bind)

lemma yields_ret: "Q x s \<Longrightarrow> yields (ret x) Q s"
  by (simp add: yields_def ret_def)

lemma yields_mono: "yields m Q s \<Longrightarrow> (\<And>x s'. Q x s' \<Longrightarrow> R x s') \<Longrightarrow> yields m R s"
  by (auto simp: yields_def)

lemma yields_ends:
  assumes "ends P none m" "keeps R m"
  shows "yields m (\<lambda>x s'. P x \<and> R s s') s"
proof -
  obtain r s' where m: "m s = (r, s')" by fastforce
  have "case r of Ret x \<Rightarrow> P x | _ \<Rightarrow> False"
    using assms(1) m by (auto simp: ends_def dest: spec [of _ s] split: outcome.splits)
  then show ?thesis using m keepsD [OF assms(2) m] by (cases r) (auto simp: yields_def)
qed

lemma yields_try: "yields m Q s \<Longrightarrow> yields (try_except m p h) Q s"
  by (auto simp: yields_def try_except_def catchM_def)

section \<open>The laws of a stack that is up\<close>

definition answering :: "('a \<Rightarrow> bool) \<Rightarrow> (exn \<Rightarrow> bool) \<Rightarrow> ('w, 'a) ext \<Rightarrow> bool" where
  "answering P Q f \<longleftrightarrow> (\<forall>w. case fst (f w) of Ret x \<Rightarrow> P x | Raise e \<Rightarrow> Q e | _ \<Rightarrow> False)"

lemma ends_ext: "answering P Q f \<Longrightarrow> ends P Q (call_ext f)"
  by (simp add: answering_def ends_def call_ext_def case_prod_beta)

text \<open>The answers Vault gives to writes: those the code reads have the fields it reads.\<close>

definition write_answer :: "string \<Rightarrow> json \<Rightarrow> bool" where
  "write_answer p r \<longleftrightarrow>
     (prefix ''auth/token/create/'' p \<longrightarrow>
        (\<exists>t a. sbind (item r ''auth'') (\<lambda>x. sbind (item x ''client_token'') as_string) = Inr t
             \<and> sbind (item r ''auth'') (\<lambda>x. sbind (item x ''accessor'') as_string) = Inr a))
     \<and> (p = ''auth/token/lookup-accessor'' \<longrightarrow>
        (\<exists>d n. item r ''data'' = Inr d \<and> get_item d ''display_name'' JNull = Inr n))"

text \<open>The only refusals: what is to be looked up or revoked is already gone.\<close>

definition write_refusal :: "string \<Rightarrow> exn \<Rightarrow> bool" where
  "write_refusal p e \<longleftrightarrow>
     exc_class e = InvalidRequest
     \<and> ((p = ''auth/token/lookup-accessor'' \<or> p = ''auth/token/revoke-accessor'')
          \<and> contains ''invalid accessor'' (lower (exc_msg e))
        \<or> prefix ''sys/leases/revoke/'' p \<and> contains ''invalid lease'' (lower (exc_msg e)))"

definition login_answer :: "json \<Rightarrow> bool" where
  "login_answer r \<longleftrightarrow>
     (\<exists>c. sbind (item r ''data'') (\<lambda>d. sbind (item d ''data'') (\<lambda>data.
       sbind (sbind (item data ''username'') as_string) (\<lambda>u.
       sbind (sbind (item data ''password'') as_string) (\<lambda>p. Inr (u, p))))) = Inr c)"

text \<open>The leases of a grant's credentials, among those Vault holds.\<close>

definition gid_leases :: "('w \<Rightarrow> string set) \<Rightarrow> string \<Rightarrow> 'w \<Rightarrow> string set" where
  "gid_leases L gid w = {l \<in> L w. prefix (''database/creds/'' @ gid @ ''/'') l}"

text \<open>Account listings are complete in this sense: an account of a grant has a lease, and its name is one of ours.\<close>

definition listing :: "('w \<Rightarrow> string set) \<Rightarrow> string \<Rightarrow> ('w, string list) ext \<Rightarrow> bool" where
  "listing L gid f \<longleftrightarrow> answering (list_all account_fullmatch) none f
     \<and> (\<forall>w. gid_leases L gid w = {} \<longrightarrow> fst (f w) = Ret [])"

definition healthy :: "'w env \<Rightarrow> ('w \<Rightarrow> string set) \<Rightarrow> bool" where
  "healthy E L \<longleftrightarrow>
     loop_rounds E > 0 \<and> (\<forall>w. fst (clock E w) \<noteq> None)
     \<and> (\<forall>p. answering any none (read_text E p)) \<and> (\<forall>r i. answering any none (approle_login E r i))
     \<and> (\<forall>c. answering any none (token_revoke_self E c))
     \<and> (\<forall>c p. answering login_answer none (kv_read E c p))
     \<and> (\<forall>c p a. answering (write_answer p) (write_refusal p) (vault_write E c p a))
     \<and> (\<forall>c r. answering (\<lambda>x. x \<noteq> JNull \<and> (\<exists>k. parse_creds x = Inr k)) none (vault_read E c (''database/creds/'' @ r)))
     \<and> (\<forall>c p. answering (\<lambda>x. \<exists>ks. list_keys x = Inr ks \<and> int (length ks) \<le> MAX_ACCESSOR_SCAN) none (vault_list E c p))
     \<and> (\<forall>c p. answering any none (vault_delete E c p))
     \<and> (\<forall>i. answering any none (pg_connect E i)) \<and> (\<forall>i. answering any none (ch_connect E i))
     \<and> (\<forall>h q a. answering (\<lambda>n. n \<le> 0) none (pg_count E h q a))
     \<and> (\<forall>h gid. grant_id_ok gid \<longrightarrow> listing L gid (pg_texts E h PG_ACCOUNTS_SQL [account_prefix gid])
          \<and> listing L gid (ch_texts E h CH_ACCOUNTS_SQL [(''p'', account_prefix gid)]))"

text \<open>Only reading a grant's own credentials makes a lease of it; leases are listed, and gone when they are revoked.\<close>

definition fewer :: "('w \<Rightarrow> string set) \<Rightarrow> string \<Rightarrow> 'w \<Rightarrow> 'w \<Rightarrow> bool" where
  "fewer L gid w w' \<longleftrightarrow> gid_leases L gid w' \<subseteq> gid_leases L gid w"

definition lease_laws :: "'w env \<Rightarrow> ('w \<Rightarrow> string set) \<Rightarrow> bool" where
  "lease_laws E L \<longleftrightarrow>
     (\<forall>gid. grant_id_ok gid \<longrightarrow> calm (fewer L gid) E \<and> (\<forall>h db. role_calm (fewer L gid) E (gid @ ''_h'' @ h) db))
     \<and> (\<forall>gid c w r ks. grant_id_ok gid \<longrightarrow>
          fst (vault_list E c (''sys/leases/lookup/database/creds/'' @ gid) w) = Ret r \<longrightarrow> list_keys r = Inr ks \<longrightarrow>
          gid_leases L gid w \<subseteq> (\<lambda>k. ''database/creds/'' @ gid @ ''/'' @ k) ` set ks)
     \<and> (\<forall>c l a w. l \<notin> L (snd (vault_write E c (''sys/leases/revoke/'' @ l) a w)))"

interpretation fewer: world_frame "fewer L gid" for L :: "'w \<Rightarrow> string set" and gid
  by unfold_locales (auto simp: fewer_def)

section \<open>Every call of a cleanup returns\<close>

lemma healthy_calls:
  assumes "healthy E L"
  shows "ends any none (call_ext (read_text E p))" "ends any none (call_ext (approle_login E r i))"
    "ends any none (call_ext (token_revoke_self E c))" "ends login_answer none (call_ext (kv_read E c p))"
    "ends (write_answer p) (write_refusal p) (call_ext (vault_write E c p a))"
    "ends (\<lambda>x. x \<noteq> JNull \<and> (\<exists>k. parse_creds x = Inr k)) none (call_ext (vault_read E c (''database/creds/'' @ q)))"
    "ends (\<lambda>x. \<exists>ks. list_keys x = Inr ks \<and> int (length ks) \<le> MAX_ACCESSOR_SCAN) none (call_ext (vault_list E c p))"
    "ends any none (call_ext (vault_delete E c p))"
    "ends any none (call_ext (pg_connect E ci))" "ends any none (call_ext (ch_connect E cj))"
    "ends (\<lambda>n. n \<le> 0) none (call_ext (pg_count E h sql ps))"
  using assms by (auto simp: healthy_def intro: ends_ext)

lemma ends_now:
  assumes "healthy E L"
  shows "ends any none (now E)"
proof -
  have "fst (clock E w) \<noteq> None" for w using assms by (simp add: healthy_def)
  then show ?thesis
    unfolding now_def by (intro ends_ext) (auto simp: answering_def case_prod_beta split: option.split)
qed

lemma ends_draw: "ends any none (draw_hex E n)" "ends any none (do_sleep E d)"
  unfolding draw_hex_def do_sleep_def by (rule ends_ext, simp add: answering_def split: prod.split)+

lemma ends_client:
  assumes "healthy E L"
  shows "ends any none (service_client E)"
proof -
  note calls = healthy_calls [OF assms] ends_now [OF assms] ends_state
  have approle: "ends any none (read_approle E)"
    unfolding read_approle_def by (rule ends_try [where Q = none]) (intro ends_bind [OF calls(1)] ends_ret, simp_all)
  have "ends any none (service_login E)"
    unfolding service_login_def
    by (rule ends_bind [OF approle], clarify, rule ends_bind, rule ends_try [OF calls(2)])
      (auto intro!: ends_bind [OF ends_state(1)] ends_bind [OF ends_now [OF assms]] ends_seq [OF ends_state(2)] ends_seq
         ends_ret ends_quiet ends_none [OF ends_ignore [OF calls(3)]] split: option.split)
  then show ?thesis
    unfolding service_client_def
    by (auto intro!: ends_bind [OF ends_state(1)] ends_bind [OF ends_now [OF assms]] ends_ret split: option.split)
qed

lemma ends_service_call:
  assumes "healthy E L" "\<And>c. ends P Q (fn c)" "\<And>e. Q e \<Longrightarrow> exc_class e = InvalidRequest"
  shows "ends P Q (service_call E fn)"
  unfolding service_call_def
  by (rule ends_catch, rule ends_bind [OF ends_none [OF ends_client [OF assms(1)]] assms(2)])
     (auto dest: assms(3) intro: ends_raise simp: is_os_error_def)

lemma ends_service_calm:
  assumes "healthy E L" "\<And>c. ends P none (fn c)"
  shows "ends P none (service_call E fn)"
  by (rule ends_service_call [OF assms]) simp_all

text \<open>Writes that are never refused: those outside the two accessor paths and the leases.\<close>

lemma ends_write:
  assumes "healthy E L" "p \<noteq> ''auth/token/lookup-accessor''" "p \<noteq> ''auth/token/revoke-accessor''"
    "\<not> prefix ''sys/leases/revoke/'' p"
  shows "ends (write_answer p) none (call_ext (vault_write E c p a))"
  by (rule ends_mono [OF healthy_calls(5) [OF assms(1)]]) (use assms(2-4) in \<open>simp_all add: write_refusal_def\<close>)

lemma ends_roles:
  assumes "healthy E L"
  shows "ends any none (write_role E r db cs rs n)" "ends any none (delete_role E r)"
  unfolding write_role_def delete_role_def
  by (rule ends_ignore, rule ends_service_calm [OF assms], rule ends_write [OF assms]; simp)
     (rule ends_ignore, rule ends_service_calm [OF assms], rule healthy_calls(8) [OF assms])

lemma ends_create_token:
  assumes "healthy E L"
  shows "ends any none (create_grant_token E n r)"
  unfolding create_grant_token_def
  by (rule ends_bind [OF ends_service_calm [OF assms ends_write [OF assms, of "''auth/token/create/'' @ TOKEN_ROLE_NAME"]]])
     (auto simp: write_answer_def intro!: ends_bind [where P = any] ends_ret ends_lift)

lemma ends_revoke_lease:
  assumes "healthy E L"
  shows "ends any none (revoke_lease E l)"
  unfolding revoke_lease_def
proof (rule ends_try [where Q = "write_refusal (''sys/leases/revoke/'' @ l)"])
  show "ends any (write_refusal (''sys/leases/revoke/'' @ l))
     (ignore (service_call E (\<lambda>c. call_ext (vault_write E c (''sys/leases/revoke/'' @ l) [(''sync'', JBool True)]))))"
    by (rule ends_ignore, rule ends_service_call [OF assms], rule healthy_calls(5) [OF assms]) (simp add: write_refusal_def)
qed (auto simp: write_refusal_def lease_gone_def intro: ends_ret)

lemma ends_revoke_accessor:
  assumes "healthy E L"
  shows "ends any none (revoke_accessor E a)"
  unfolding revoke_accessor_def
proof (rule ends_try [where Q = "write_refusal ''auth/token/revoke-accessor''"])
  show "ends any (write_refusal ''auth/token/revoke-accessor'')
     (ignore (service_call E (\<lambda>c. call_ext (vault_write E c ''auth/token/revoke-accessor'' [(''accessor'', JStr a)]))))"
    by (rule ends_ignore, rule ends_service_call [OF assms], rule healthy_calls(5) [OF assms]) (simp add: write_refusal_def)
qed (auto simp: write_refusal_def accessor_gone_def intro: ends_ret)

lemma ends_lookup:
  assumes "healthy E L"
  shows "ends (\<lambda>x. case x of None \<Rightarrow> True | Some i \<Rightarrow> \<exists>b. display_name_is names i = Inr b) none (lookup_accessor E a)"
  unfolding lookup_accessor_def
proof (rule ends_try [where Q = "write_refusal ''auth/token/lookup-accessor''"])
  let ?P = "\<lambda>x. case x of None \<Rightarrow> True | Some i \<Rightarrow> \<exists>b. display_name_is names i = Inr b"
  have "ends (write_answer ''auth/token/lookup-accessor'') (write_refusal ''auth/token/lookup-accessor'')
      (service_call E (\<lambda>c. call_ext (vault_write E c ''auth/token/lookup-accessor'' [(''accessor'', JStr a)])))"
    by (rule ends_service_call [OF assms], rule healthy_calls(5) [OF assms]) (simp add: write_refusal_def)
  then show "ends ?P (write_refusal ''auth/token/lookup-accessor'')
      (bindM (service_call E (\<lambda>c. call_ext (vault_write E c ''auth/token/lookup-accessor'' [(''accessor'', JStr a)])))
        (\<lambda>info. ret (Some info)))"
    by (rule ends_bind) (auto simp: write_answer_def display_name_is_def intro: ends_ret)
qed (auto simp: write_refusal_def gone_def is_exception_def intro: ends_ret)

lemma ends_find_tokens:
  assumes "healthy E L"
  shows "ends any none (find_token_accessors E gid)"
proof -
  have one: "ends any none (bindM (lookup_accessor E acc) (\<lambda>info. case info of None \<Rightarrow> ret False
      | Some i \<Rightarrow> lift (display_name_is (wanted_names gid) i)))" for acc
    by (rule ends_bind [OF ends_lookup [OF assms, where names = "wanted_names gid"]])
       (auto intro: ends_ret ends_lift split: option.splits)
  show ?thesis
    unfolding find_token_accessors_def
  proof (rule ends_bind [OF ends_service_calm [OF assms healthy_calls(7) [OF assms]]])
    fix x assume "\<exists>ks. list_keys x = Inr ks \<and> int (length ks) \<le> MAX_ACCESSOR_SCAN"
    then have "ends (\<lambda>ks. int (length ks) \<le> MAX_ACCESSOR_SCAN) none (lift (list_keys x))" by (auto intro: ends_lift)
    then show "ends any none (bindM (lift (list_keys x)) (\<lambda>keys.
       if int (length keys) > MAX_ACCESSOR_SCAN then
         raise (Exn RuntimeError (show_nat (length keys) @
           '' tokens: too many to scan, cannot confirm the grant token is gone''))
       else filterM keys (\<lambda>acc.
         bindM (lookup_accessor E acc) (\<lambda>info.
         case info of
           None \<Rightarrow> ret False
         | Some i \<Rightarrow> lift (display_name_is (wanted_names gid) i)))))"
      by (rule ends_bind) (simp, rule ends_filter [OF one])
  qed
qed

lemma ends_accessors:
  assumes "healthy E L"
  shows "ends any none (grant_accessors E g)"
  unfolding grant_accessors_def
  by (cases "given (g_token_accessor g)"; simp only: if_True if_False)
     (rule ends_ret, simp, rule ends_bind [OF ends_find_tokens [OF assms]], rule ends_ret, simp)

section \<open>Locking out and terminating\<close>

lemma ends_manager:
  assumes "healthy E L"
  shows "ends any none (run_as_manager E db r sts)"
proof -
  have clean: "ends any none (helper_cleanup E r l a)" for l a
    unfolding helper_cleanup_def
    by (rule ends_seq [OF ends_when [OF ends_quiet [OF ends_none [OF ends_revoke_lease [OF assms]]]]
          ends_seq [OF ends_when [OF ends_quiet [OF ends_none [OF ends_revoke_accessor [OF assms]]]]
            ends_quiet [OF ends_none [OF ends_roles(2) [OF assms]]]]])
  have on_error: "ends P none m \<Longrightarrow> ends P none (on_error m f)" for P m and f :: "('a sys, unit) prog"
    unfolding on_error_def by (rule ends_catch [where Q = none]) simp_all
  have creds: "ends any none (read_credentials E tok r)" for tok
    unfolding read_credentials_def
    by (rule ends_bind [OF healthy_calls(6) [OF assms]]) (auto intro: ends_lift)
  show ?thesis
    unfolding run_as_manager_def
    by (rule ends_seq [OF on_error [OF ends_roles(1) [OF assms]]], rule ends_bind [OF on_error [OF ends_create_token [OF assms]]],
        clarify, rule ends_bind [OF on_error [OF creds]], rule clean)
qed

lemma ends_run:
  assumes "healthy E L"
  shows "ends any none (run_statements E db gid sts)"
  unfolding run_statements_def by (auto intro: ends_ret ends_bind [OF ends_draw(1)] ends_manager [OF assms])

lemma ends_connection:
  assumes "healthy E L"
  shows "ends any none (open_pg E)" "ends any none (open_ch E)"
proof -
  have "ends any none (introspect_credentials E db)" for db
    unfolding introspect_credentials_def
    by (rule ends_bind [OF ends_service_calm [OF assms healthy_calls(4) [OF assms]]])
       (auto simp: login_answer_def intro: ends_lift)
  then show "ends any none (open_pg E)" "ends any none (open_ch E)"
    unfolding open_pg_def open_ch_def by (auto intro!: ends_bind [where P = any] healthy_calls [OF assms])
qed

lemma ends_lock_out:
  assumes "healthy E L" "account_fullmatch a"
  shows "ends any none (lock_out_and_terminate E db a gid)"
proof -
  have "\<exists>n. loop_rounds E = Suc n" using assms(1) by (auto simp: healthy_def gr0_conv_Suc)
  then have loop: "ends any none (terminate_loop (loop_rounds E) E db' a gid t)" for db' t
    unfolding pg_backends_def
    by (auto simp: pg_backends_def intro!: ends_bind [where P = "\<lambda>n. n \<le> 0"] ends_bind [OF ends_connection(1) [OF assms(1)]]
        healthy_calls [OF assms(1)] ends_ret)
  have "lockout_statements db a = Inr (if db = Postgres then [''SELECT vdba.lockout_role('' @ quoted a @ '');''] else [])"
    using assms(2) by (simp add: lockout_statements_def valid_account_def sbind_Inr)
  then show ?thesis
    unfolding lock_out_and_terminate_def
    by (auto intro!: ends_ret ends_seq ends_bind [where P = any] ends_lift ends_run [OF assms(1)]
        ends_now [OF assms(1)] loop)
qed

section \<open>Revoking the leases drops the accounts\<close>

lemma yields_catch: "yields m Q s \<Longrightarrow> yields (catchM m h) Q s"
  by (auto simp: yields_def catchM_def)

lemma yields_service:
  assumes "healthy E L" "\<And>c s. yields (fn c) Q s"
  shows "yields (service_call E fn) Q s"
  unfolding service_call_def
  by (rule yields_catch, rule yields_bind [OF yields_ends [OF ends_client [OF assms(1)], where R = "\<lambda>_ _. True"]])
     (simp_all add: keeps_def assms(2))

lemma yields_ended: "ends P none m \<Longrightarrow> yields m (\<lambda>x _. P x) s"
  by (rule yields_mono [OF yields_ends [where R = "\<lambda>_ _. True"]]) (simp_all add: keeps_def)

text \<open>At most the leases of \<open>A\<close> are left of the grant's.\<close>

definition left :: "('w \<Rightarrow> string set) \<Rightarrow> string \<Rightarrow> string set \<Rightarrow> 'w sys \<Rightarrow> bool" where
  "left L gid A s \<longleftrightarrow> gid_leases L gid (world s) \<subseteq> A"

lemma yields_left:
  assumes "ends P none m" "keeps (on_world (fewer L gid)) m" "left L gid A s"
  shows "yields m (\<lambda>x s'. P x \<and> left L gid A s') s"
  by (rule yields_mono [OF yields_ends [OF assms(1,2)]])
     (use assms(3) in \<open>auto simp: left_def on_world_def fewer_def\<close>)

lemma lease_calm:
  assumes "lease_laws E L" "grant_id_ok gid"
  shows "calm (fewer L gid) E" "role_calm (fewer L gid) E (gid @ ''_h'' @ h) db"
  using assms by (simp_all add: lease_laws_def)

lemma ends_find:
  assumes "healthy E L" "grant_id_ok gid"
  shows "ends (list_all account_fullmatch) none (find_accounts E db gid)"
proof -
  have "ends (list_all account_fullmatch) none (call_ext (pg_texts E h PG_ACCOUNTS_SQL [account_prefix gid]))"
    "ends (list_all account_fullmatch) none (call_ext (ch_texts E h CH_ACCOUNTS_SQL [(''p'', account_prefix gid)]))" for h
    using assms by (auto simp: healthy_def listing_def intro: ends_ext)
  then show ?thesis
    unfolding find_accounts_def by (auto intro: ends_bind ends_connection [OF assms(1)])
qed

lemma find_none:
  assumes h: "healthy E L" and l: "lease_laws E L" and ok: "grant_id_ok gid" and s: "left L gid {} s"
  shows "yields (find_accounts E db gid) (\<lambda>xs s'. xs = [] \<and> left L gid {} s') s"
proof -
  note calm = lease_calm(1) [OF l ok]
  have listed: "yields (call_ext f) (\<lambda>xs s'. xs = [] \<and> left L gid {} s') s1"
    if lf: "listing L gid f" and fw: "\<forall>w. fewer L gid w (snd (f w))" and em: "left L gid {} s1" for f and s1 :: "'a sys"
  proof -
    obtain w where w: "f (world s1) = (Ret [], w)"
      using lf em by (cases "f (world s1)") (auto simp: listing_def left_def dest!: spec [of _ "world s1"])
    moreover have "fewer L gid (world s1) w" using fw w by (metis snd_conv)
    ultimately show ?thesis using em by (simp add: yields_def call_ext_def left_def fewer_def)
  qed
  have keep: "keeps (on_world (fewer L gid)) (open_pg E)" "keeps (on_world (fewer L gid)) (open_ch E)"
    unfolding open_pg_def open_ch_def
    by (intro fewer.lifted.rules fewer.calm_calls [OF calm] fewer.client_world [OF calm])+
  have lists: "listing L gid (pg_texts E c PG_ACCOUNTS_SQL [account_prefix gid])"
    "listing L gid (ch_texts E c CH_ACCOUNTS_SQL [(''p'', account_prefix gid)])" for c
    using h ok by (simp_all add: healthy_def)
  have fewer: "fewer L gid w (snd (pg_texts E c q ps w))" "fewer L gid w (snd (ch_texts E c q ps' w))" for c q ps ps' w
    using calm by (simp_all add: calm_def)
  show ?thesis
    unfolding find_accounts_def
    by (auto intro!: yields_bind [OF yields_left [OF ends_connection(1) [OF h] keep(1) s]]
        yields_bind [OF yields_left [OF ends_connection(2) [OF h] keep(2) s]] listed lists fewer)
qed

lemma leases_listed:
  assumes h: "healthy E L" and l: "lease_laws E L" and ok: "grant_id_ok gid"
  shows "yields (list_leases E gid) (\<lambda>ls s'. left L gid (set ls) s') s"
proof -
  have call: "yields (call_ext (vault_list E c (''sys/leases/lookup/database/creds/'' @ gid)))
     (\<lambda>r s'. \<exists>ks. list_keys r = Inr ks \<and> left L gid ((\<lambda>k. ''database/creds/'' @ gid @ ''/'' @ k) ` set ks) s') s1"
    for c and s1 :: "'a sys"
  proof -
    let ?f = "vault_list E c (''sys/leases/lookup/database/creds/'' @ gid)"
    have "answering (\<lambda>x. \<exists>ks. list_keys x = Inr ks \<and> int (length ks) \<le> MAX_ACCESSOR_SCAN) none ?f"
      using h by (simp add: healthy_def)
    then have "case fst (?f (world s1)) of Ret x \<Rightarrow> \<exists>ks. list_keys x = Inr ks | _ \<Rightarrow> False"
      unfolding answering_def by (auto dest!: spec [of _ "world s1"] split: outcome.splits)
    then obtain r ks w where r: "?f (world s1) = (Ret r, w)" "list_keys r = Inr ks"
      by (cases "?f (world s1)"; cases "fst (?f (world s1))") auto
    have "gid_leases L gid (world s1) \<subseteq> (\<lambda>k. ''database/creds/'' @ gid @ ''/'' @ k) ` set ks"
      using l ok r unfolding lease_laws_def by (metis fst_conv)
    moreover have "fewer L gid (world s1) w"
      using lease_calm(1) [OF l ok] r unfolding calm_def by (metis snd_conv)
    ultimately show ?thesis using r by (auto simp: yields_def call_ext_def left_def fewer_def)
  qed
  have keys: "yields (bindM (lift (list_keys r)) (\<lambda>keys. ret (map f keys))) (\<lambda>ls s'. left L gid (set ls) s') s1"
    if "\<exists>ks. list_keys r = Inr ks \<and> left L gid (f ` set ks) s1" for r f and s1 :: "'a sys"
    using that by (auto simp: yields_def bindM_def lift_def ret_def)
  show ?thesis
    unfolding list_leases_def by (rule yields_bind [OF yields_service [OF h call] keys])
qed

lemma lease_revoked:
  assumes h: "healthy E L" and l: "lease_laws E L"
  shows "yields (revoke_lease E l) (\<lambda>_ s'. l \<notin> L (world s')) s"
proof -
  obtain c s1 where c: "service_client E s = (Ret c, s1)"
    using yields_ended [OF ends_client [OF h], of s] by (auto simp: yields_def)
  let ?f = "vault_write E c (''sys/leases/revoke/'' @ l) [(''sync'', JBool True)]"
  have "answering (write_answer (''sys/leases/revoke/'' @ l)) (write_refusal (''sys/leases/revoke/'' @ l)) ?f"
    using h by (simp add: healthy_def)
  moreover have "l \<notin> L (snd (?f (world s1)))" using l by (simp add: lease_laws_def)
  ultimately show ?thesis
    using c
    by (cases "?f (world s1)"; cases "fst (?f (world s1))")
       (auto simp: answering_def yields_def revoke_lease_def try_except_def catchM_def ignore_def bindM_def
         service_call_def call_ext_def ret_def raise_def write_refusal_def lease_gone_def is_os_error_def
         dest!: spec [of _ "world s1"])
qed

lemma leases_revoked:
  assumes h: "healthy E L" and l: "lease_laws E L" and ok: "grant_id_ok gid"
  shows "left L gid (A \<union> set ls) s \<Longrightarrow> yields (foreach ls (revoke_lease E)) (\<lambda>_ s'. left L gid A s') s"
proof (induction ls arbitrary: s)
  case Nil
  then show ?case by (simp add: yields_ret)
next
  case (Cons x ls)
  have "keeps (on_world (fewer L gid)) (revoke_lease E x)" by (rule fewer.client_world [OF lease_calm(1) [OF l ok]])
  then obtain s1 where r: "revoke_lease E x s = (Ret (), s1)" "x \<notin> L (world s1)" "fewer L gid (world s) (world s1)"
    using lease_revoked [OF h l, of x s] by (auto simp: yields_def on_world_def dest: keepsD)
  then have "left L gid (A \<union> set ls) s1"
    using Cons.prems by (auto simp: left_def fewer_def gid_leases_def)
  then have "yields (foreach ls (revoke_lease E)) (\<lambda>_ s'. left L gid A s') s1" by (rule Cons.IH)
  then show ?case using r(1) by (simp add: yields_def seqM_def bindM_def)
qed

lemma teardown_yields:
  assumes h: "healthy E L" and l: "lease_laws E L" and ok: "grant_id_ok gid"
  shows "yields (teardown_steps E gid g) (\<lambda>_ _. True) s"
proof -
  have locked: "ends any none (foreach as (\<lambda>a. lock_out_and_terminate E (g_db_type g) a gid))"
    if "list_all account_fullmatch as" for as
    using that by (auto intro!: ends_foreach ends_lock_out [OF h] simp: list_all_iff)
  have last: "ends any none (seqM (foreach as (revoke_accessor E)) (delete_role E gid))" for as
    by (rule ends_seq [OF ends_foreach [OF ends_revoke_accessor [OF h]] ends_roles(2) [OF h]])
  have confirm: "yields (confirm_gone E (g_db_type g) gid) (\<lambda>_ _. True) s1" if "left L gid {} s1" for s1
    unfolding confirm_gone_def by (rule yields_bind [OF find_none [OF h l ok that]]) (simp add: yields_ret)
  have rest: "yields (bindM (find_accounts E (g_db_type g) gid) (\<lambda>accounts'.
     seqM (foreach accounts' (drop_account E (g_db_type g) gid))
     (seqM (confirm_gone E (g_db_type g) gid)
     (seqM (foreach as (revoke_accessor E))
     (delete_role E gid))))) (\<lambda>_ _. True) s1" if "left L gid {} s1" for as s1
    by (rule yields_bind [OF find_none [OF h l ok that]])
       (auto intro!: yields_seq [where Q = "\<lambda>_ s'. left L gid {} s'"] yields_ret
         yields_seq [OF confirm] yields_mono [OF yields_ended [OF last]])
  show ?thesis
    unfolding teardown_steps_def
  proof (rule yields_bind [OF yields_ended [OF ends_accessors [OF h]]],
      rule yields_bind [OF yields_ended [OF ends_find [OF h ok]]],
      rule yields_seq [OF yields_ended [OF locked]], assumption,
      rule yields_bind [OF leases_listed [OF h l ok]])
    fix as and listed and s1 :: "'a sys" assume "left L gid (set listed) s1"
    then have "left L gid ({} \<union> set (known_leases g listed)) s1"
      by (auto simp: left_def known_leases_def)
    then show "yields (seqM (foreach (known_leases g listed) (revoke_lease E))
       (bindM (find_accounts E (g_db_type g) gid) (\<lambda>accounts'.
       seqM (foreach accounts' (drop_account E (g_db_type g) gid))
       (seqM (confirm_gone E (g_db_type g) gid)
       (seqM (foreach as (revoke_accessor E))
       (delete_role E gid)))))) (\<lambda>_ _. True) s1"
      by (rule yields_seq [OF leases_revoked [OF h l ok] rest])
  qed
qed

section \<open>A due grant is finished\<close>

lemma yields_wp: "yields m Q s \<longleftrightarrow> wp m (\<lambda>r s'. case r of Ret x \<Rightarrow> Q x s' | _ \<Rightarrow> False) s"
  by (cases "m s"; cases "fst (m s)") (auto simp: yields_def wp_def)

lemma yields_spec:
  assumes "ends P Q m" "wp m R s" "\<And>e s'. \<not> R (Raise e) s'"
  shows "yields m (\<lambda>x. R (Ret x)) s"
proof -
  obtain r s' where m: "m s = (r, s')" by fastforce
  have "case r of Ret x \<Rightarrow> P x | Raise e \<Rightarrow> Q e | _ \<Rightarrow> False"
    using assms(1) m by (auto simp: ends_def dest: spec [of _ s])
  then show ?thesis using assms(2,3) m by (cases r) (auto simp: yields_def wp_def)
qed

lemma ends_finished:
  assumes "healthy E L"
  shows "ends any any (teardown_finished E gid final rid actor)"
proof -
  have tx: "ends any any (tx f)" for f :: "database \<Rightarrow> exn + unit \<times> database"
    by (auto simp: ends_def tx_def split: sum.split prod.split)
  have query: "ends any any (query f)" for f :: "database \<Rightarrow> unit"
    by (simp add: ends_def query_def)
  have now: "ends any any (now E)" by (rule ends_none [OF ends_now [OF assms]])
  show ?thesis
    unfolding teardown_finished_def update_grant_def audit_def
    by (rule ends_seq [OF ends_bind [OF now tx] ends_seq [OF query ends_bind [OF now tx]]])
qed

lemma teardown_due:
  assumes h: "healthy E L" and l: "lease_laws E L" and ok: "grant_id_ok gid"
    and s: "here s0 R s" "R gid = Some g"
  shows "yields (teardown E gid final rid actor re) (\<lambda>_ s'. \<exists>u. here s0 (R(gid \<mapsto> finished final u g)) s') s"
proof -
  have o: "opened s" "row gid s = Some g" using s by (auto simp: here_def simp flip: rows_apply)
  obtain s1 where 1: "teardown_steps E gid g s = (Ret (), s1)"
    using teardown_yields [OF h l ok, of g s] by (auto simp: yields_def)
  then have "alike s s1" using outside_alike [OF teardown_steps_outside] by (blast dest: keepsD)
  then have h1: "here s0 R s1" by (rule here_alike [OF s(1)])
  then have "opened s1" "rows s1 gid = Some g" using s(2) by (simp_all add: here_def)
  then have "yields (teardown_finished E gid final rid actor)
     (\<lambda>_ s'. opened s' \<and> same_control s1 s' \<and> (\<exists>t. rows s' = (rows s1)(gid \<mapsto> finished final t g))) s1"
    using yields_spec [OF ends_finished [OF h] teardown_finished_spec] by fastforce
  then have "yields (teardown_finished E gid final rid actor) (\<lambda>_ s'. \<exists>u. here s0 (R(gid \<mapsto> finished final u g)) s') s1"
    by (rule yields_mono) (use h1 in \<open>auto simp: here_def same_control_def\<close>)
  moreover have "get_grant gid s = (Ret (Some g), s)"
    using o by (simp add: get_grant_def query_def row_def)
  ultimately show ?thesis
    using 1 by (simp add: teardown_def yields_def bindM_def try_except_def catchM_def seqM_def ret_def)
qed

lemma final_for_later: "final_for g t = Some final \<Longrightarrow> t \<le> t' \<Longrightarrow> final_for g t' = Some final"
  by (auto simp: final_for_def split: if_splits option.splits)

text \<open>The time of a state is past \<open>t\<close>: every later reading of the clock is.\<close>

definition past :: "('w \<Rightarrow> real) \<Rightarrow> real \<Rightarrow> 'w sys \<Rightarrow> bool" where
  "past time t s \<longleftrightarrow> t \<le> time (world s)"

lemma locked_due:
  assumes h: "healthy E L" and l: "lease_laws E L" and tl: "time_laws E time" and ok: "grant_id_ok gid"
    and s: "here s0 R s" "R gid = Some g" and t: "past time t s" "final_for g t = Some final"
  shows "yields (reconcile_locked E gid) (\<lambda>_ s'. \<exists>u. here s0 (R(gid \<mapsto> finished final u g)) s') s"
proof -
  obtain u w where c: "clock E (world s) = (Some u, w)"
    using h by (cases "clock E (world s)") (auto simp: healthy_def dest!: spec [of _ "world s"])
  then have "t \<le> u" using tl t(1) by (auto simp: time_laws_def past_def dest!: spec [of _ "world s"])
  then have f: "final_for g u = Some final" by (rule final_for_later [OF t(2)])
  have "here s0 R (s\<lparr>world := w\<rparr>)" using s(1) by (simp add: here_def rows_def same_control_def)
  then have "yields (teardown E gid final None ''system'' False)
      (\<lambda>_ s'. \<exists>u. here s0 (R(gid \<mapsto> finished final u g)) s') (s\<lparr>world := w\<rparr>)"
    using s(2) by (rule teardown_due [OF h l ok])
  moreover have "opened s" "row gid s = Some g" using s by (auto simp: here_def simp flip: rows_apply)
  ultimately show ?thesis
    using c f by (simp add: reconcile_locked_def yields_def bindM_def get_grant_def query_def row_def now_def call_ext_def)
qed

lemma reconcile_due:
  assumes h: "healthy E L" and l: "lease_laws E L" and tl: "time_laws E time" and ok: "grant_id_ok gid"
    and s: "opened s" "rows s gid = Some g" "\<not> locks s (g_db_type g)"
    and t: "past time t s" "final_for g t = Some final"
  shows "yields (reconcile_one E gid) (\<lambda>_ s'. \<exists>u. freed {gid} s ((rows s)(gid \<mapsto> finished final u g)) s') s"
proof -
  let ?s = "taken (g_db_type g) gid s"
  let ?Q = "\<lambda>r s'. case r of Ret _ \<Rightarrow> \<exists>u. freed {gid} s ((rows s)(gid \<mapsto> finished final u g)) s' | _ \<Rightarrow> False"
  have "wp (seqM (begin_op (g_db_type g) gid)
     (bindM (finallyM (reconcile_locked E gid) (end_op (g_db_type g) gid)) ret)) ?Q s"
  proof (rule step_begin [OF here_start [OF s(1)]])
    assume hs: "here ?s (rows s) ?s"
    have "yields (reconcile_locked E gid) (\<lambda>_ s'. \<exists>u. here ?s ((rows s)(gid \<mapsto> finished final u g)) s') ?s"
      by (rule locked_due [OF h l tl ok hs s(2) _ t(2)]) (use t(1) in \<open>simp add: past_def taken_def\<close>)
    then show "wp (bindM (finallyM (reconcile_locked E gid) (end_op (g_db_type g) gid)) ret) ?Q ?s"
      unfolding yields_wp by (rule step_finally_end [OF s(3)]) (auto simp: wp_ret)
  qed (use s(3) in simp)
  then show ?thesis
    unfolding yields_wp reconcile_one_def by (intro step_get [OF here_start [OF s(1)]]) (simp add: s(2) bindM_ret)
qed

lemma reconcile_one_time:
  assumes "time_laws E time"
  shows "keeps (on_world (not_back time)) (reconcile_one E gid)"
proof -
  have c: "calm (not_back time) E" and r: "\<And>r db. role_calm (not_back time) E r db"
    using assms by (simp_all add: time_laws_def)
  show ?thesis
    unfolding reconcile_one_def reconcile_locked_def teardown_def teardown_failed_def teardown_finished_def
      begin_op_def end_op_def
    by (intro clockwork.lifted.rules clockwork.store_world [OF c] clockwork.teardown_steps_world [OF c r]
        clockwork.calm_calls [OF c] clockwork.same_world) simp_all
qed

section \<open>One round\<close>

text \<open>The state from which a round works through its snapshot: no lock is held, the rows are as they were read.\<close>

definition ready :: "('w \<Rightarrow> real) \<Rightarrow> real \<Rightarrow> grant list \<Rightarrow> 'w sys \<Rightarrow> bool" where
  "ready time t xs s \<longleftrightarrow> opened s \<and> (\<forall>db. \<not> locks s db) \<and> past time t s \<and> distinct (map g_id xs)
     \<and> (\<forall>g\<in>set xs. rows s (g_id g) = Some g \<and> grant_id_ok (g_id g))"

definition done_with :: "real \<Rightarrow> grant list \<Rightarrow> 'w sys \<Rightarrow> 'w sys \<Rightarrow> bool" where
  "done_with t xs s s' \<longleftrightarrow> opened s' \<and> locks s' = locks s \<and> inflight s' = inflight s
     \<and> (\<forall>i. i \<notin> g_id ` set xs \<longrightarrow> rows s' i = rows s i)
     \<and> (\<forall>g\<in>set xs. \<forall>final. g_id g \<notin> inflight s \<longrightarrow> final_for g t = Some final \<longrightarrow>
          (\<exists>u. rows s' (g_id g) = Some (finished final u g)))"

lemma row_due:
  assumes h: "healthy E L" and l: "lease_laws E L" and tl: "time_laws E time" and r: "ready time t (g # xs) s"
  shows "yields (reconcile_row E t g) (\<lambda>_ s'. ready time t xs s' \<and> done_with t [g] s s') s"
proof (cases "g_id g \<in> inflight s \<or> final_for g t = None")
  case True
  then have "reconcile_row E t g s = (Ret (), s)"
    by (auto simp: reconcile_row_def bindM_def gets_def ret_def)
  then show ?thesis using True r by (auto simp: yields_def ready_def done_with_def)
next
  case False
  then obtain final where f: "g_id g \<notin> inflight s" "final_for g t = Some final" by auto
  have s: "opened s" "rows s (g_id g) = Some g" "\<not> locks s (g_db_type g)" "past time t s" "grant_id_ok (g_id g)"
    using r by (simp_all add: ready_def)
  obtain s1 u where 1: "reconcile_one E (g_id g) s = (Ret (), s1)"
    "freed {g_id g} s ((rows s)(g_id g \<mapsto> finished final u g)) s1"
    using reconcile_due [OF h l tl s(5,1,2,3,4) f(2)] by (auto simp: yields_def)
  have "past time t s1"
    using s(4) keepsD [OF reconcile_one_time [OF tl] 1(1)] by (simp add: past_def on_world_def not_back_def)
  moreover have s1: "opened s1" "locks s1 = locks s" "inflight s1 = inflight s"
      "rows s1 = (rows s)(g_id g \<mapsto> finished final u g)"
    using 1(2) f(1) by (simp_all add: freed_def)
  moreover have "rows s1 (g_id g') = Some g' \<and> grant_id_ok (g_id g')" if g': "g' \<in> set xs" for g'
  proof -
    have "g_id g' \<noteq> g_id g" using r g' unfolding ready_def by (metis distinct.simps(2) image_eqI list.simps(9) set_map)
    then show ?thesis using r g' unfolding ready_def s1(4) by (metis fun_upd_other list.set_intros(2))
  qed
  ultimately have "ready time t xs s1" using r by (simp add: ready_def)
  moreover have "done_with t [g] s s1" using s1 f(2) by (simp add: done_with_def) blast
  ultimately have "ready time t xs s1 \<and> done_with t [g] s s1" ..
  moreover have "reconcile_row E t g s = (Ret (), s1)"
    using f 1(1) by (simp add: reconcile_row_def bindM_def gets_def quiet_def try_except_def catchM_def)
  ultimately show ?thesis by (auto simp: yields_def)
qed

lemma done_with_Cons:
  assumes "done_with t [g] s s1" "done_with t xs s1 s'" "g_id g \<notin> g_id ` set xs"
  shows "done_with t (g # xs) s s'"
  using assms by (auto simp: done_with_def)

lemma rows_due:
  assumes h: "healthy E L" and l: "lease_laws E L" and tl: "time_laws E time"
  shows "ready time t xs s \<Longrightarrow> yields (foreach xs (reconcile_row E t)) (\<lambda>_ s'. done_with t xs s s') s"
proof (induction xs arbitrary: s)
  case Nil
  then show ?case by (simp add: yields_ret done_with_def ready_def)
next
  case (Cons g xs)
  obtain s1 where 1: "reconcile_row E t g s = (Ret (), s1)" "ready time t xs s1" "done_with t [g] s s1"
    using row_due [OF h l tl Cons.prems] by (auto simp: yields_def)
  obtain s' where 2: "foreach xs (reconcile_row E t) s1 = (Ret (), s')" "done_with t xs s1 s'"
    using Cons.IH [OF 1(2)] by (auto simp: yields_def)
  have "g_id g \<notin> g_id ` set xs" using Cons.prems by (auto simp: ready_def)
  then have "done_with t (g # xs) s s'" by (rule done_with_Cons [OF 1(3) 2(2)])
  then show ?case using 1(1) 2(1) by (simp add: yields_def seqM_def bindM_def)
qed

lemma snapshot_ready:
  assumes "opened s" "\<forall>db. \<not> locks s db" "keys_unique g_id (grants_tab (disk s))"
    and "\<forall>g\<in>set (grants_tab (disk s)). grant_id_ok (g_id g)" "past time t s"
  shows "ready time t (db_list_by_status sts (disk s)) s"
proof -
  let ?xs = "db_list_by_status sts (disk s)"
  have "mset (map g_id ?xs) = mset (map g_id (filter (\<lambda>g. g_status g \<in> set sts) (grants_tab (disk s))))"
    by (simp add: db_list_by_status_def)
  moreover have "distinct (map g_id (filter (\<lambda>g. g_status g \<in> set sts) (grants_tab (disk s))))"
    using assms(3) by (simp add: keys_unique_def distinct_map_filter)
  ultimately have "distinct (map g_id ?xs)" by (metis mset_eq_imp_distinct_iff)
  moreover have "rows s (g_id g) = Some g \<and> grant_id_ok (g_id g)" if "g \<in> set ?xs" for g
    using that assms(3,4) tab_get_unique [of g_id "grants_tab (disk s)" g]
    by (auto simp: db_list_by_status_def rows_def row_def db_get_grant_def)
  ultimately show ?thesis using assms(1,2,5) by (simp add: ready_def)
qed

lemma final_for_open: "final_for g t = Some final \<Longrightarrow> g_status g \<in> {Issuing, Revoking, Active}"
  by (auto simp: final_for_def split: if_splits)

text \<open>What follows the loop over the rows leaves them alone, however it ends.\<close>

lemma round_due:
  assumes h: "healthy E L" and l: "lease_laws E L" and tl: "time_laws E time"
    and s: "opened s" "\<forall>db. \<not> locks s db" "keys_unique g_id (grants_tab (disk s))"
      "\<forall>g\<in>set (grants_tab (disk s)). grant_id_ok (g_id g)"
    and t: "fst (clock E (world s)) = Some t"
    and g: "rows s gid = Some g" "gid \<notin> inflight s" "final_for g t = Some final"
  shows "\<exists>u. rows (snd (reconcile_once E s)) gid = Some (finished final u g)"
proof -
  obtain w where c: "clock E (world s) = (Some t, w)" using t by (cases "clock E (world s)") auto
  let ?s = "s\<lparr>world := w\<rparr>" and ?xs = "db_list_by_status [Issuing, Revoking, Active] (disk s)"
  let ?rest = "bindM (purge_sessions E) (\<lambda>over.
     seqM (foreach over (\<lambda>r. revoke_token_quietly E (s_vault_token r))) (report_orphans E))"
  have "past time t ?s" using tl c by (auto simp: past_def time_laws_def dest!: spec [of _ "world s"])
  then have "ready time t (db_list_by_status [Issuing, Revoking, Active] (disk ?s)) ?s"
    using s by (intro snapshot_ready) simp_all
  then obtain s1 where 1: "foreach ?xs (reconcile_row E t) ?s = (Ret (), s1)" "done_with t ?xs ?s s1"
    using rows_due [OF h l tl, of t ?xs ?s] by (auto simp: yields_def)
  have run: "reconcile_once E s = ?rest s1"
    using c s(1) 1(1)
    by (simp add: reconcile_once_def bindM_def now_def call_ext_def list_by_status_def query_def seqM_def)
  have "keeps alike ?rest"
    by (intro alike.rules purge_alike report_orphans_alike outside_alike outside_keeps)
  then have "alike s1 (snd (?rest s1))" by (metis keepsD prod.collapse)
  moreover have "g \<in> set ?xs" "g_id g = gid"
    using g(1) final_for_open [OF g(3)] tab_get_Some [of g_id gid "grants_tab (disk s)" g]
    by (auto simp: db_list_by_status_def rows_def row_def db_get_grant_def)
  ultimately show ?thesis using 1(2) g(2,3) by (auto simp: run done_with_def alike_def)
qed

end
