(* ===== verification/Recovery.thy ===== *)
theory Recovery
  imports Progress Example_World
begin

text \<open>
  The recovery of a portal whose Vault and databases are up again, and a world that satisfies the laws it rests on: the
  example world, with leases that are listed and whose revocation drops the accounts.
\<close>

section \<open>A world that is up\<close>

definition lease_of :: "string \<Rightarrow> string" where
  "lease_of account = ''database/creds/'' @ take 15 account @ ''/l1''"

definition up_leases :: "world \<Rightarrow> string set" where
  "up_leases w = (\<lambda>(d, a). lease_of a) ` set (w_accounts w)"

definition up_write :: "string option \<Rightarrow> string \<Rightarrow> (string \<times> json) list \<Rightarrow> (world, json) ext" where
  "up_write c p a w =
     (if prefix ''sys/leases/revoke/'' p
      then (Ret JNull, w\<lparr>w_accounts := filter (\<lambda>(d, x). ''sys/leases/revoke/'' @ lease_of x \<noteq> p) (w_accounts w)\<rparr>)
      else w_write c p a w)"

text \<open>Only a grant's own role makes accounts: the helper roles' names are longer.\<close>

definition up_read :: "string option \<Rightarrow> string \<Rightarrow> (world, json) ext" where
  "up_read c p w =
     (if length (drop 15 p) = 15 then w_read c p (w\<lparr>w_down := False\<rparr>)
      else (fst (w_read c p (w\<lparr>w_down := False\<rparr>)), w))"

definition up_list :: "string option \<Rightarrow> string \<Rightarrow> (world, json) ext" where
  "up_list c p w =
     (Ret (JObj [(''data'', JObj [(''keys'', JArr (map JStr
        (if p = ''auth/token/accessors'' then take 20000 (map fst (w_tokens w))
         else if \<exists>(d, a)\<in>set (w_accounts w). ''sys/leases/lookup/'' @ lease_of a = p @ ''/l1'' then [''l1'']
         else [])))])]), w)"

definition up_texts :: "db_type \<Rightarrow> string \<Rightarrow> string list \<Rightarrow> world \<Rightarrow> string list" where
  "up_texts db sql args w = filter account_fullmatch (w_texts db sql args w)"

definition up_env :: "world env" where
  "up_env = example_env
     \<lparr>vault_write := up_write, vault_read := up_read, vault_list := up_list,
      pg_texts := (\<lambda>h sql args w. (Ret (up_texts Postgres sql args w), w)),
      ch_texts := (\<lambda>h sql args w. (Ret (up_texts Clickhouse sql (map snd args) w), w))\<rparr>"

definition stale_row :: grant where
  "stale_row = expired_row\<lparr>g_status := Active\<rparr>"

definition stale_state :: "world sys" where
  "stale_state = example_start\<lparr>disk := empty_database\<lparr>grants_tab := [stale_row]\<rparr>,
     world := example_world\<lparr>w_accounts := [(Postgres, ''vdba_0000000000_abc123'')]\<rparr>\<rparr>"

section \<open>It satisfies the laws\<close>

lemma gid_length: "grant_id_ok gid \<Longrightarrow> length gid = 15"
  by (auto simp: grant_id_ok_def ROLE_PREFIX_def)

lemma prefix_lease:
  assumes "length (gid :: string) = 15"
  shows "prefix (gid @ ''/'') (take 15 a @ ''/l1'') \<longleftrightarrow> take 15 a = gid"
proof
  assume "prefix (gid @ ''/'') (take 15 a @ ''/l1'')"
  moreover define b where "b = take 15 a"
  ultimately obtain z where z: "b @ ''/l1'' = gid @ ''/'' @ z" by (auto elim: prefixE)
  have "length b = 15"
  proof (rule ccontr)
    assume "length b \<noteq> 15"
    moreover have "length b \<le> 15" by (simp add: b_def)
    moreover have "length b + 3 = 16 + length z" using arg_cong [OF z, of length] assms by simp
    ultimately have "length b = 13 \<or> length b = 14" by arith
    moreover have "(b @ ''/l1'') ! 15 = CHR ''/''" unfolding z using assms by (simp add: nth_append)
    ultimately show False by (auto simp: nth_append)
  qed
  then show "take 15 a = gid" using z assms by (simp add: append_eq_append_conv flip: b_def)
qed auto

lemma lease_of_gid:
  assumes "grant_id_ok gid"
  shows "prefix (''database/creds/'' @ gid @ ''/'') (lease_of a) \<longleftrightarrow> take 15 a = gid"
  unfolding lease_of_def same_prefix_prefix by (rule prefix_lease [OF gid_length [OF assms]])

lemma image_filter: "(\<And>x. Q (f x) \<longleftrightarrow> R x) \<Longrightarrow> {l \<in> (\<lambda>(d, a). f a) ` A. Q l} = (\<lambda>(d, a). f a) ` {x \<in> A. R (snd x)}"
  by auto

lemma up_gid_leases:
  assumes "grant_id_ok gid"
  shows "gid_leases up_leases gid w = (\<lambda>(d, a). lease_of a) ` {x \<in> set (w_accounts w). take 15 (snd x) = gid}"
  unfolding gid_leases_def up_leases_def by (rule image_filter, rule lease_of_gid [OF assms])

lemma up_fewer:
  assumes "grant_id_ok gid" "{x \<in> set (w_accounts w'). take 15 (snd x) = gid} \<subseteq> set (w_accounts w)"
  shows "fewer up_leases gid w w'"
  using assms(2) unfolding fewer_def up_gid_leases [OF assms(1)] by blast

lemma up_write_fewer: "set (w_accounts (snd (up_write c p a w))) \<subseteq> set (w_accounts w)"
proof (cases "prefix ''database/roles/'' p")
  case True
  then have "\<not> prefix ''sys/leases/revoke/'' p" by (auto elim: prefixE)
  then show ?thesis using True by (simp add: up_write_def w_write_def)
next
  case False
  then show ?thesis using w_write_kept(2) [OF False] by (auto simp: up_write_def)
qed

lemma up_read_fewer:
  "\<not> prefix ''database/creds/'' p \<Longrightarrow> w_accounts (snd (up_read c p w)) = w_accounts w"
  "length (drop 15 p) \<noteq> 15 \<Longrightarrow> snd (up_read c p w) = w"
  by (simp_all add: up_read_def w_read_kept)

lemmas up_fields = up_env_def example_env_def

lemma up_calm:
  assumes "grant_id_ok gid"
  shows "calm (fewer up_leases gid) up_env" "role_calm (fewer up_leases gid) up_env (gid @ ''_h'' @ h) db"
proof -
  have less: "fewer up_leases gid w w'" if "set (w_accounts w') \<subseteq> set (w_accounts w)" for w w'
    using that by (intro up_fewer [OF assms]) auto
  note calls = less [OF up_write_fewer] less [OF equalityD1 [OF arg_cong [where f = set, OF up_read_fewer(1)]]]
  show "calm (fewer up_leases gid) up_env"
    unfolding calm_def by (simp add: up_fields calls up_list_def less w_delete_kept)
  have "length (drop 15 (''database/creds/'' @ gid @ ''_h'' @ h)) \<noteq> 15"
    using gid_length [OF assms] by simp
  then show "role_calm (fewer up_leases gid) up_env (gid @ ''_h'' @ h) db"
    unfolding role_calm_def using up_read_fewer(2) by (simp add: up_fields calls less)
qed

lemma up_lease_laws: "lease_laws up_env up_leases"
  unfolding lease_laws_def
proof (intro conjI allI impI)
  fix gid c w r ks
  assume ok: "grant_id_ok gid" and "fst (vault_list up_env c (''sys/leases/lookup/database/creds/'' @ gid) w) = Ret r"
    and ks: "list_keys r = Inr ks"
  then have listed: "ks = (if \<exists>(d, a)\<in>set (w_accounts w). ''sys/leases/lookup/'' @ lease_of a
      = ''sys/leases/lookup/database/creds/'' @ gid @ ''/l1'' then [''l1''] else [])"
    by (auto simp: up_fields up_list_def list_keys_def split: if_splits)
  show "gid_leases up_leases gid w \<subseteq> (\<lambda>k. ''database/creds/'' @ gid @ ''/'' @ k) ` set ks"
  proof
    fix l assume "l \<in> gid_leases up_leases gid w"
    then obtain d a where a: "(d, a) \<in> set (w_accounts w)" "take 15 a = gid" "l = lease_of a"
      unfolding up_gid_leases [OF ok] by auto
    then have "ks = [''l1'']" unfolding listed by (auto simp: lease_of_def)
    then show "l \<in> (\<lambda>k. ''database/creds/'' @ gid @ ''/'' @ k) ` set ks" using a(2,3) by (simp add: lease_of_def)
  qed
next
  fix c l a w
  show "l \<notin> up_leases (snd (vault_write up_env c (''sys/leases/revoke/'' @ l) a w))"
    by (auto simp: up_fields up_write_def up_leases_def)
next
  fix gid h db assume ok: "grant_id_ok gid"
  show "calm (fewer up_leases gid) up_env" by (rule up_calm(1) [OF ok])
  show "role_calm (fewer up_leases gid) up_env (gid @ ''_h'' @ h) db" by (rule up_calm(2) [OF ok])
qed

lemma up_written:
  "case fst (up_write c p a w) of Ret x \<Rightarrow> write_answer p x | Raise e \<Rightarrow> write_refusal p e | _ \<Rightarrow> False"
proof -
  have "contains ''invalid accessor'' (lower ''invalid accessor'')" by code_simp
  then show ?thesis
    by (auto simp: up_write_def w_write_def Let_def write_answer_def write_refusal_def elim!: prefixE split: option.splits)
qed

lemma up_listed:
  "\<exists>ks. list_keys (JObj [(''data'', JObj [(''keys'', JArr (map JStr
      (if b then take 20000 xs else if d then [''l1''] else [])))])]) = Inr ks \<and> int (length ks) \<le> MAX_ACCESSOR_SCAN"
  by (auto simp: list_keys_def MAX_ACCESSOR_SCAN_def as_strings_map simp del: take_map)

lemma up_names: "list_all account_fullmatch (up_texts db sql args w)"
  by (simp add: up_texts_def list_all_iff)

lemma up_found:
  assumes "grant_id_ok gid" "gid_leases up_leases gid w = {}"
  shows "up_texts db PG_ACCOUNTS_SQL [account_prefix gid] w = []" "up_texts db CH_ACCOUNTS_SQL [account_prefix gid] w = []"
proof -
  have "\<not> prefix (account_prefix gid) a" if a: "(d, a) \<in> set (w_accounts w)" for d a
  proof
    assume "prefix (account_prefix gid) a"
    then have "take 15 a = gid" using gid_length [OF assms(1)] by (auto simp: account_prefix_def elim!: prefixE)
    then show False using assms(2) a unfolding up_gid_leases [OF assms(1)] by force
  qed
  then have "[a. (d, a) \<leftarrow> w_accounts w, d = db, prefix (hd [account_prefix gid]) a] = []" by auto
  then show "up_texts db PG_ACCOUNTS_SQL [account_prefix gid] w = []" "up_texts db CH_ACCOUNTS_SQL [account_prefix gid] w = []"
    unfolding up_texts_def w_texts_def by (simp_all only: PG_ACCOUNTS_SQL_def CH_ACCOUNTS_SQL_def) simp_all
qed

lemma up_healthy: "healthy up_env up_leases"
  unfolding healthy_def
proof (intro conjI allI impI)
  fix c p a
  show "answering (write_answer p) (write_refusal p) (vault_write up_env c p a)"
    unfolding answering_def using up_written [where p = p and a = a] by (simp add: up_fields)
next
  fix c p
  show "answering (\<lambda>x. \<exists>ks. list_keys x = Inr ks \<and> int (length ks) \<le> MAX_ACCESSOR_SCAN) none (vault_list up_env c p)"
    using up_listed by (simp add: answering_def up_fields up_list_def)
next
  fix c r
  show "answering (\<lambda>x. x \<noteq> JNull \<and> (\<exists>k. parse_creds x = Inr k)) none (vault_read up_env c (''database/creds/'' @ r))"
    by (auto simp: answering_def up_fields up_read_def w_read_def parse_creds_def Let_def)
next
  fix h gid assume ok: "grant_id_ok gid"
  show "listing up_leases gid (pg_texts up_env h PG_ACCOUNTS_SQL [account_prefix gid])"
    using up_found [OF ok] up_names by (simp add: listing_def answering_def up_fields)
next
  fix h gid assume ok: "grant_id_ok gid"
  show "listing up_leases gid (ch_texts up_env h CH_ACCOUNTS_SQL [(''p'', account_prefix gid)])"
    using up_found [OF ok] up_names by (simp add: listing_def answering_def up_fields)
qed (simp_all add: up_fields answering_def login_answer_def w_delete_def)

lemma up_time: "time_laws up_env example_time"
proof -
  have wr: "w_time (snd (up_write c p a w)) = w_time w" for c p a w
    by (simp add: up_write_def w_write_kept(3))
  have rd: "w_time (snd (up_read c p w)) = w_time w" for c p w
    by (simp add: up_read_def w_read_kept(2))
  have "calm (not_back example_time) up_env"
    using wr rd w_delete_kept(3) by (simp add: calm_def up_fields not_back_def example_time_def up_list_def)
  moreover have "role_calm (not_back example_time) up_env r db" for r db
    using wr rd by (simp add: role_calm_def up_fields not_back_def example_time_def)
  moreover have "example_time w + d \<le> example_time (sleep up_env d w)" for w d
    by (simp add: up_fields example_time_def max_def)
  ultimately show ?thesis
    by (auto simp: time_laws_def up_fields example_time_def)
qed

section \<open>The property\<close>



end
