(* ===== verification/Startup.thy ===== *)
theory Startup
  imports Operations Transport
begin

text \<open>
  The life of one process of the middleware: what importing \<open>main.py\<close> leaves, the transport check, \<open>lifespan\<close> with \<open>store.init\<close>,
  and then requests and rounds of the reconciler in any order, until it stops or is killed. The lives of one
  process after another are histories of the transition system.
\<close>

section \<open>A process\<close>

text \<open>The module globals of a process that has just imported the code; the file and the world are as they were left.\<close>

definition imported :: "'w sys \<Rightarrow> 'w sys" where
  "imported s =
     \<lparr>disk = disk s, opened = False, svc_client = None, svc_logged_in_at = 0,
      locks = (\<lambda>_. False), inflight = {}, slots = max_ops, world = world s\<rparr>"

datatype event = Request request | Round

primrec run_event :: "'w env \<Rightarrow> (string \<Rightarrow> exn option) \<Rightarrow> event \<Rightarrow> ('w sys, unit) prog" where
  "run_event E ip_check (Request r) = catchM (ignore (portal E ip_check r)) (\<lambda>_. skip)"
| "run_event E ip_check Round = quiet (reconcile_once E)"

definition lifespan :: "'w env \<Rightarrow> (string \<Rightarrow> exn option) \<Rightarrow> event list \<Rightarrow> ('w sys, unit) prog" where
  "lifespan E ip_check events = seqM init (foreach events (run_event E ip_check))"

definition middleware :: "'w env \<Rightarrow> (string \<Rightarrow> exn option) \<Rightarrow> event list \<Rightarrow> ('w sys, unit) prog" where
  "middleware E ip_check events = seqM (lift (check_transport ip_check (cfg E))) (lifespan E ip_check events)"

section \<open>Its life as a history\<close>

lemma init_restart: "init (imported s) = (Ret (), restart s)"
  by (simp add: init_def modify_def imported_def restart_def)

lemma event_state: "snd (run_event E ip_check e s) = (case e of Request r \<Rightarrow> snd (portal E ip_check r s) | Round \<Rightarrow> snd (reconcile_once E s))"
  by (cases e; cases "portal E ip_check (case e of Request r \<Rightarrow> r) s"; cases "reconcile_once E s")
     (auto simp: ignore_def catchM_def bindM_def ret_def raise_def quiet_def try_except_def split: outcome.splits)

lemma events_history: "(step E C)\<^sup>*\<^sup>* s (snd (foreach es (run_event E ip_check) s))"
proof (induction es arbitrary: s)
  case (Cons e es)
  obtain r t where e: "run_event E ip_check e s = (r, t)" by fastforce
  have "t = (case e of Request r \<Rightarrow> snd (portal E ip_check r s) | Round \<Rightarrow> snd (reconcile_once E s))"
    using event_state [of E ip_check e s] by (simp add: e)
  then have "step E C s t" by (cases e) (auto intro: step.request step.reconcile)
  moreover have "snd (foreach (e # es) (run_event E ip_check) s) = (case r of Ret _ \<Rightarrow> snd (foreach es (run_event E ip_check) t) | _ \<Rightarrow> t)"
    by (simp add: seqM_def bindM_def e split: outcome.split)
  ultimately show ?case using Cons.IH [of t] by (cases r) (auto intro: converse_rtranclp_into_rtranclp)
qed (simp add: ret_def)

text \<open>
  A process whose transport check fails does nothing at all; any other one only takes steps of the transition system, wherever in
  its life it ends.
\<close>

lemma middleware_history:
  "(case check_transport ip_check (cfg E) of
      Inl e \<Rightarrow> middleware E ip_check es (imported s) = (Raise e, imported s)
    | Inr _ \<Rightarrow> (step E C)\<^sup>*\<^sup>* s (snd (middleware E ip_check es (imported s))))"
proof (cases "check_transport ip_check (cfg E)")
  case (Inr u)
  have "snd (middleware E ip_check es (imported s)) = snd (foreach es (run_event E ip_check) (restart s))"
    by (simp add: middleware_def lifespan_def seqM_def bindM_def lift_def Inr init_restart)
  then show ?thesis
    using events_history [of E C "restart s" es ip_check] step.crash [of E C s]
    by (simp add: Inr converse_rtranclp_into_rtranclp)
qed (simp add: middleware_def seqM_def bindM_def lift_def)

end
