(* ===== verification/Spec2Isabelle.thy ===== *)
theory Spec2Isabelle
  imports Example_World Well_Formed Termination Secrecy Preflight Transport Guard Setup_Properties Columns Data_Files Recovery Startup
begin

text \<open>
  Verification of vault-db-access, a self-service portal for short-lived database accounts. An administrator asks the
  portal (\<open>src/middleware/app\<close>) for access to PostgreSQL or ClickHouse; the portal writes a role into HashiCorp Vault,
  reads credentials from it once, shows them once, and guarantees that the account is gone when the grant is revoked or has
  expired. All Python files of the application are modelled; the theorems follow the life of a grant, the people who may
  touch it, and the command that sets the stack up.

  \<^bold>\<open>How the program is modelled.\<close> A Python function is a program on a state that ends with a value, an exception, the
  death of the process or not at all (\<open>Ret\<close>, \<open>Raise\<close>, \<open>Halt\<close>, \<open>Diverge\<close> of \<open>Prelude\<close>); \<open>try\<close>, \<open>except\<close>,
  \<open>finally\<close>, \<open>with\<close> and \<open>for\<close> are combinators on such programs, and every raise of the source is a branch. \<open>Prelude\<close> has
  their weakest preconditions and the locale \<open>frame\<close>: a reflexive and transitive relation between the state before and
  after, with the rules that carry it through every combinator. Nearly every invariant below is an interpretation of it.

  The state \<open>'w sys\<close> (theory \<open>System\<close>) is the SQLite file (the tables \<open>grants\<close>, \<open>audit\<close>, \<open>sessions\<close> of \<open>store.py\<close>),
  the globals of the process (open connection, service client, locks, in-flight set, semaphores) and the world outside, of
  any type \<open>'w\<close>. Vault, the two databases, the clock, the random generator and the files of the AppRole are the functions
  of a record \<open>'w env\<close>; nothing is assumed of them except where a theorem names a law (\<open>backend_laws\<close>, \<open>time_laws\<close>,
  \<open>calls_end\<close>, \<open>token_directory\<close>, \<open>healthy\<close>, \<open>lease_laws\<close>), and \<open>Example_World\<close> has a small Vault with two databases that satisfies the laws
  and runs a login, a grant and its revocation through the whole model. As every transaction reads the clock and the clock
  may kill the process, a crash can fall before and after each commit.

  \<^bold>\<open>Theories and source files.\<close>
    \<^item> \<open>Python\<close>, \<open>Urls\<close>, \<open>Json_Text\<close>: what the code uses of the standard library (string methods, \<open>repr\<close>, \<open>int\<close>,
      \<open>urlsplit\<close>, \<open>json.dumps\<close> and \<open>json.loads\<close> with their round trip).
    \<^item> \<open>Models\<close>, \<open>Config\<close>, \<open>Transport\<close>, \<open>Preflight\<close>: \<open>models.py\<close>, \<open>config.py\<close>, \<open>preflight.py\<close>; an enumeration is an instance of
      the class \<open>enum\<close> and of the locale \<open>str_enum\<close>.
    \<^item> \<open>Table\<close>, \<open>Store\<close>: keyed tables behind the locale \<open>keyed_store\<close>, and \<open>store.py\<close> on them; \<open>Columns\<close>: its rows as the
      text and JSON columns of SQLite; \<open>Data_Files\<close>: \<open>init\<close> and \<open>_harden_files\<close> with modes as 12-bit words.
    \<^item> \<open>Vault_Client\<close>: \<open>vault_client.py\<close>, with the login after a 403 and the search for a token whose
      answer was lost.
    \<^item> \<open>Statements\<close>, \<open>Sql\<close>: \<open>statement_builder.py\<close>, and a lexer for the two SQL dialects that gives its texts a meaning.
    \<^item> \<open>Introspect\<close>, \<open>Faults\<close>: \<open>db_introspect.py\<close>, \<open>faults.py\<close>.
    \<^item> \<open>Grants\<close>: \<open>grants.py\<close>: admission, \<open>issue\<close>, \<open>revoke\<close>, \<open>teardown\<close>, \<open>reconcile_once\<close>.
    \<^item> \<open>Portal\<close>, \<open>Pages\<close>, \<open>Guard\<close>: \<open>main.py\<close>: sessions, origin and CSRF checks and the handlers; the routes and
      pages; the ASGI wrapper around them. \<open>portal\<close> is one whole HTTP request. \<open>Startup\<close>: the import, the transport check
      and \<open>lifespan\<close> of a process.
    \<^item> \<open>Policies\<close>, \<open>Setup\<close>: \<open>setup.py\<close>: the texts of its policies with a reader for them, and the command on a host of
      its own (\<open>box\<close>: files with their modes, printed lines, the log of calls to Vault).

  \<^bold>\<open>What is proved.\<close>
    \<^item> \<open>Lifecycle\<close> has the specification of each operation on a grant as the set of its outcomes (\<open>issue_result\<close>,
      \<open>revoke_result\<close>, \<open>reconcile_result\<close>) and the relation \<open>evolves\<close> between two states of the table; the three
      specifications and \<open>grants_follow_life_cycle\<close> rest on it.
    \<^item> \<open>Backend\<close> and \<open>Safety\<close> carry laws of the world through the client and prove the invariant that ties accounts to rows
      that are not final (\<open>accounts_belong_to_live_grants\<close>).
    \<^item> \<open>Operations\<close> is the portal as a transition system: requests, rounds of the reconciler, crashes, and what the world does
      by itself; the lives of processes are histories of it (\<open>middleware_history\<close> in \<open>Startup\<close>). \<open>Races\<close> adds the operations of other threads that made their checks earlier and get the lock only now;
      the accounts, the audit trail and \<open>Well_Formed\<close> (what a stored row contains) are proved over these histories,
      and \<open>late_revoke_reopens_a_final_grant\<close> shows what a check that has become out of date does.
    \<^item> \<open>Termination\<close>: every operation ends. The loop that terminates backends gets \<open>loop_rounds\<close> rounds; 68 are enough, because a
      round lasts at least 0.3 seconds and the loop gives up after 20. \<open>json.loads\<close> uses the length of its text as fuel, and
      every step consumes a character.
    \<^item> \<open>Progress\<close> and \<open>Recovery\<close>: once Vault and the databases are up, one round of the reconciler finishes
      every grant that is due (\<open>due_grants_are_finished\<close>). \<open>ends\<close> and \<open>yields\<close> are the total counterparts of \<open>keeps\<close> and \<open>wp\<close>.
    \<^item> \<open>Secrecy\<close>: the password reaches only the answer. The lemmas on admission: locks and slots are given back, a full
      portal refuses without effect.
    \<^item> \<open>Sql\<close>: accepted requests become exactly the privileges they name, one statement each.
    \<^item> \<open>Portal\<close>, \<open>Guard\<close>: who gets a session, which requests can touch grants, origins, errors and their answers, the size of
      bodies and the headers.
    \<^item> \<open>Store\<close>, \<open>Models\<close>, \<open>Columns\<close>: round trips; \<open>Vault_Client\<close>: the search for a lost token, the errors of the service client;
      \<open>Transport\<close>, \<open>Preflight\<close>, \<open>Data_Files\<close>: the start of the middleware.
    \<^item> \<open>Setup_Safety\<close>, \<open>Setup_Files\<close>, \<open>Setup_Properties\<close>: laws of the log of calls (\<open>trace_law\<close>) and of the files of a run,
      wherever it stops; \<open>Policies\<close>: least privilege of the service identity.

  \<^bold>\<open>Bounds of the model.\<close> A character has a code point below 256. Times are real numbers, JSON numbers integers (a text with
  a fraction is an error of \<open>loads\<close>); the limit of 4300 digits of Python's \<open>int\<close> is in \<open>Guard\<close> only. The
  per-database lock serialises the parts of operations under it, and a call that finds the lock taken is the one whose wait
  runs out. What an operation does before it has the lock reads the store only; \<open>Races\<close> lets the part from the lock on run in
  any later state. Parts under the locks of different databases are composed one after the other: they work
  on different rows, roles and databases.

  \<^bold>\<open>Not modelled.\<close> The HTML templates, logging, the thread objects of the reconciler and of shutdown (its loop is
  \<open>reconcile_loop\<close>), I/O errors of SQLite inside a transaction, the usage text of the argument parser, and the parts of
  FastAPI, pydantic, hvac, psycopg and clickhouse-connect beyond what the code relies on. The SQL, shell and HCL files that
  initialise the databases and Vault are not the program; what the portal relies on of them is among the laws.
\<close>

section \<open>The example as a history\<close>

lemma example_history:
  "step example_env C example_start example_login" "step example_env C example_login example_issued"
  "step example_env C example_issued example_revoked"
  unfolding example_login_def example_issued_def example_revoked_def by (rule step.request)+

lemma example_issued_history: "(step example_env C)\<^sup>*\<^sup>* example_start example_issued"
  using example_history(1,2) by (meson rtranclp.intros)

lemma example_revoked_history: "(step example_env C)\<^sup>*\<^sup>* example_start example_revoked"
  using example_history by (meson rtranclp.intros)

lemma example_opened [simp]:
  "opened example_start" "opened example_login" "opened example_issued" "opened example_revoked"
proof -
  show start: "opened example_start" by (simp add: example_start_def)
  show "opened example_login" "opened example_issued" "opened example_revoked"
    using history_evolves [OF r_into_rtranclp [of "step example_env (\<lambda>_ _. False)", OF example_history(1)]]
      history_evolves [OF example_issued_history [where C = "\<lambda>_ _. False"]]
      history_evolves [OF example_revoked_history [where C = "\<lambda>_ _. False"]] start
    by (simp_all add: evolves_def)
qed

lemma example_issued_facts:
  "map (\<lambda>g. (g_id g, g_status g)) (grants_tab (disk example_issued)) = [(example_gid, Active)]"
  "w_accounts (world example_issued) = [(Postgres, ''vdba_0000000000_abc123'')]"
  "length (audit_tab (disk example_issued)) = 2"
  using example_issued_run
  by (auto simp: example_issued_def example_login_def split: prod.splits outcome.splits)

lemma example_revoked_facts:
  "map (\<lambda>g. (g_id g, g_status g)) (grants_tab (disk example_revoked)) = [(example_gid, Revoked)]"
  "w_accounts (world example_revoked) = []"
  "length (audit_tab (disk example_revoked)) = 4"
  using example_revoked_run
  by (auto simp: example_issued_def example_login_def example_revoked_def split: prod.splits outcome.splits)

text \<open>The request of the example is authorised, and its answer is that of the admitted call.\<close>

lemma example_create_served:
  "example_portal example_create = bindM (require_admin example_env (\<lambda>_. None) example_create) (\<lambda>x.
     bindM (portal_issue example_env example_create x example_request) (\<lambda>(g, pw). ret (ok (Json_Issued g pw))))"
proof -
  have "route example_create = Some Api_Create_Grant" by code_simp
  moreover have "contains ''application/json'' (header example_create ''content-type'')" by code_simp
  moreover have "r_json example_create = Some example_json" by (simp add: example_create_def)
  moreover have "bindM (lift (Inr v)) k = k v" for v and k :: "grant_request \<Rightarrow> (world sys, response) prog"
    by (rule ext) (simp add: bindM_def lift_def)
  ultimately show ?thesis
    using example_body by (simp add: portal_def serve_protected public_endpoints_def api_create_grant_def)
qed

lemma example_admitted:
  "\<exists>x s1 r. authorised example_env (\<lambda>_. None) example_create example_login x \<and> opened s1
     \<and> admit KIssue (issue example_env example_request (s_username x) ''r2'') s1 = (Ret r, example_issued)"
proof -
  obtain a where a: "example_portal example_create example_login = (Ret a, example_issued)"
    using example_issued_run
    by (auto simp: example_issued_def example_login_def split: prod.splits outcome.splits)
  then obtain x s1 r s2 where
    x: "require_admin example_env (\<lambda>_. None) example_create example_login = (Ret x, s1)"
    and r: "portal_issue example_env example_create x example_request s1 = (Ret r, s2)"
    and s2: "s2 = example_issued"
    by (auto simp: example_create_served returned split: prod.splits)
  have "r_id example_create = ''r2''" by (simp add: example_create_def)
  then have "admit KIssue (issue example_env example_request (s_username x) ''r2'') s1 = (Ret r, example_issued)"
    using r s2 by (simp add: portal_issue_def returned)
  moreover have "opened s1"
    using keepsD [OF handlers_same_rows(1) x] by (simp add: same_rows_def)
  ultimately show ?thesis
    using require_admin_authorised [OF x] by blast
qed

lemma one_row:
  "map (\<lambda>g. (g_id g, g_status g)) (grants_tab (disk s)) = [(gid, st)] \<Longrightarrow>
     \<exists>g. rows s gid = Some g \<and> g_id g = gid \<and> g_status g = st"
  by (auto simp: rows_def row_def db_get_grant_def tab_get_def)

lemmas example_row = one_row [OF example_issued_facts(1)] one_row [OF example_revoked_facts(1)]

lemma example_gid_ok: "grant_id_ok example_gid"
  unfolding grant_id_ok_def
  by (rule exI [of _ "''0000000000''"])
     (simp add: example_gid_def ROLE_PREFIX_def is_hex_def char_class_defs)

section \<open>Grants and database accounts\<close>

text \<open>
  A portal that has not been used: an open store with no rows, and no account or role of a grant in the
  world outside.
\<close>

definition pristine :: "'w obs \<Rightarrow> 'w sys \<Rightarrow> bool" where
  "pristine V s \<longleftrightarrow>
     opened s \<and> disk s = empty_database
     \<and> (\<forall>gid d a. grant_id_ok gid \<longrightarrow> (d, a) \<in> accounts V (world s) \<longrightarrow> \<not> prefix (account_prefix gid) a)
     \<and> (\<forall>gid r d. grant_id_ok gid \<longrightarrow> (r, d) \<in> roles V (world s) \<longrightarrow> \<not> own gid r)"

lemma pristine_inv: "pristine V s \<Longrightarrow> account_inv V s"
  by (auto simp: pristine_def account_inv_def rows_def row_def db_get_grant_def empty_database_def tab_get_def)

lemma example_pristine: "pristine example_view example_start"
  by (simp add: pristine_def example_start_def restart_def example_view_def example_world_def)

text \<open>
  C1. No account survives its grant. Take any history of the portal that starts unused: requests for
  grants, revocations, logins and the other pages, rounds of the reconciler, crashes in the middle of any
  of them, operations of other threads whose checks before the lock are out of date when they get it,
  and accounts disappearing by themselves, with a Vault and databases that answer or fail in any
  way as long as they make accounts only from the roles they were given and list the accounts they have.
  Whenever a database holds an account with the prefix of a grant id, the store has the row of that
  grant, of that database, and its status is not final. So a grant that is shown as revoked, expired or
  failed has no account left.
\<close>

theorem accounts_belong_to_live_grants:
  assumes "backend_laws E V" and "pristine V s0" and "(race E (no_new V))\<^sup>*\<^sup>* s0 s"
    and "grant_id_ok gid" and "(db, a) \<in> accounts V (world s)" and "prefix (account_prefix gid) a"
  shows "\<exists>g. rows s gid = Some g \<and> g_status g \<notin> TERMINAL \<and> g_db_type g = db"
proof -
  have "account_inv V s"
    using inv_races [OF assms(1,3)] pristine_inv [OF assms(2)] by (simp add: stable_def)
  then show ?thesis using assms(4-6) by (simp add: account_inv_def)
qed

theorem accounts_belong_to_live_grants_witness:
  "(\<exists>g. rows example_issued example_gid = Some g \<and> g_status g \<notin> TERMINAL \<and> g_db_type g = Postgres)
   \<and> (\<exists>g. rows example_revoked example_gid = Some g \<and> g_status g = Revoked)
   \<and> w_accounts (world example_revoked) = []"
  using accounts_belong_to_live_grants [OF example_laws example_pristine
      steps_race [OF example_issued_history] example_gid_ok,
      of Postgres "''vdba_0000000000_abc123''"]
    example_row example_revoked_facts(2)
  by (auto simp: example_view_def example_issued_facts account_prefix_def example_gid_def)

section \<open>The life cycle of a grant\<close>



text \<open>
  C3. Every stored row is well formed, in every history, with other threads and crashes: its lifetime is within the
  configured bounds, its commands are some of the allowed ones, its tables are valid names, at least one for access to tables
  and none for access to the whole database, an active row has the user name, the lease and the expiry of its account, and a
  final row has no error left.
\<close>

theorem stored_rows_are_well_formed:
  assumes "(race E C)\<^sup>*\<^sup>* s0 s" and "rows_ok (cfg E) s0" and "rows s gid = Some g"
  shows "terms_ok (cfg E) g \<and> status_ok g"
  using rows_ok_races [OF assms(1)] assms(2,3) unfolding stable_def rows_ok_def by blast

theorem stored_rows_are_well_formed_witness:
  "\<exists>g. rows example_issued example_gid = Some g \<and> terms_ok example_config g \<and> g_username g \<noteq> None"
proof -
  have none: "rows example_start i = None" for i
    using example_pristine by (simp add: pristine_def rows_def row_def db_get_grant_def empty_database_def tab_get_def)
  have start: "rows_ok (cfg example_env) example_start"
    unfolding rows_ok_def none by (simp only: example_opened option.distinct simp_thms)
  obtain g where g: "rows example_issued example_gid = Some g" "g_status g = Active" using example_row(1) by auto
  from stored_rows_are_well_formed [OF steps_race [OF example_issued_history [where C = "\<lambda>_ _. False"]] start g(1)] g
  show ?thesis by (auto simp: status_ok_def example_env_def)
qed

text \<open>
  C14. The audit trail only grows: no request, reconciler round, crash or operation of another thread removes,
  changes or reorders a line of it.
\<close>

theorem audit_is_append_only:
  assumes "(race E C)\<^sup>*\<^sup>* s s'"
  shows "prefix (audit_tab (disk s)) (audit_tab (disk s'))"
  using audit_races [OF assms] by (simp add: audit_kept_def)

theorem audit_is_append_only_witness:
  "prefix (audit_tab (disk example_issued)) (audit_tab (disk example_revoked))
   \<and> length (audit_tab (disk example_issued)) = 2 \<and> length (audit_tab (disk example_revoked)) = 4"
  using audit_is_append_only [of example_env "\<lambda>_ _. False" example_issued example_revoked]
    race.whole [OF example_history(3)] example_issued_facts(3) example_revoked_facts(3) by blast

section \<open>The operations\<close>



text \<open>
  C5. How revoking ends, on every path. For a grant in a final state the call answers with the row as it is
  and changes nothing; an unknown id is \<open>NotFound\<close>. Otherwise an answer means that the row is revoked with no
  error left, and an error that either the lock was taken and nothing changed, or the row is
  revoking and carries the type of the error, with the lock given back. Credentials and terms of the row
  stay, and no other row is touched.
\<close>

theorem revoke_meets_specification:
  assumes "opened s"
  shows "case revoke E gid actor rid s of (r, s') \<Rightarrow> revoke_result gid s r s'"
  using revoke_spec [OF assms, of E gid actor rid] by (simp add: wp_def split: prod.splits)

theorem revoke_meets_specification_witness:
  "case revoke example_env example_gid ''alice'' ''r1'' example_issued of
      (r, s') \<Rightarrow> revoke_result example_gid example_issued r s'"
  by (rule revoke_meets_specification) simp

text \<open>
  C6. The check before the lock can be out of date. \<open>revoke\<close> looks at the status before it takes the lock and not again
  under it. If another thread has made the row final in between, the part under the lock opens it again: when it
  succeeds the row is revoked, whatever it was, so an expired or a failed grant becomes a revoked one; when it fails with an error the row is
  revoking with that error. The terms of the grant stay, and by the first property no account comes back.
\<close>

theorem late_revoke_reopens_a_final_grant:
  assumes "opened s" and "rows s gid = Some g" and "g_status g \<in> TERMINAL" and "\<not> locks s (g_db_type g)"
  shows "case revoke_section E (g_db_type g) gid actor rid s of
       (Ret p, s') \<Rightarrow> \<exists>g'. rows s' gid = Some g' \<and> same_terms g g' \<and> g_status g' = Revoked \<and> p = public g'
     | (Raise e, s') \<Rightarrow> \<exists>g'. rows s' gid = Some g' \<and> same_terms g g' \<and> g_status g' = Revoking
     | _ \<Rightarrow> True"
  using late_revoke_end [OF assms(1,2), of E actor rid] assms(4)
  by (auto simp: wp_def revoked_row_def revoking_row_def freed_def split: prod.split outcome.split)

theorem late_revoke_reopens_a_final_grant_witness:
  "\<exists>g' e s'. rows expired_state example_gid = Some expired_row \<and> g_status expired_row = Expired
     \<and> revoke_section down_env Postgres example_gid ''bob'' ''r9'' expired_state = (Raise e, s')
     \<and> rows s' example_gid = Some g' \<and> g_status g' = Revoking"
proof -
  have g: "rows expired_state example_gid = Some expired_row" "opened expired_state"
    by (simp_all add: rows_def row_def db_get_grant_def tab_get_def expired_state_def expired_row_def)
  have x: "g_db_type expired_row = Postgres" "g_status expired_row = Expired" "\<not> locks expired_state Postgres"
    by (simp_all add: expired_row_def expired_state_def example_start_def restart_def)
  obtain e s' where run: "revoke_section down_env Postgres example_gid ''bob'' ''r9'' expired_state = (Raise e, s')"
    using late_run by (auto split: prod.splits outcome.splits)
  from late_revoke_reopens_a_final_grant [OF g(2,1), of down_env "''bob''" "''r9''"] x run g(1)
  show ?thesis by (auto simp: TERMINAL_def)
qed



text \<open>
  C13. Nothing leaks. When an admitted request for a grant or a revocation, or the cleanup of a row by the
  reconciler, ends with an answer or with any exception, the locks and semaphores are as before it, and
  no id has been added to the in-flight set.
\<close>

theorem locks_and_slots_are_given_back:
  assumes "opened s"
  shows "(case admit KIssue (issue E req actor rid) s of (r, s') \<Rightarrow> \<not> regular r \<or> given_back s s')
    \<and> (case admit KRevoke (revoke E gid actor rid) s of (r, s') \<Rightarrow> \<not> regular r \<or> given_back s s')
    \<and> (case reconcile_one E gid s of (r, s') \<Rightarrow> \<not> regular r \<or> given_back s s')"
proof -
  have "wp (admit KIssue (issue E req actor rid)) (\<lambda>r s'. regular r \<longrightarrow> given_back s s') s"
    "wp (admit KRevoke (revoke E gid actor rid)) (\<lambda>r s'. regular r \<longrightarrow> given_back s s') s"
    "wp (reconcile_one E gid) (\<lambda>r s'. regular r \<longrightarrow> given_back s s') s"
    using assms
    by (auto intro!: admit_gives_back [where P = opened] issue_gives_back revoke_gives_back reconcile_gives_back)
  then show ?thesis by (auto simp: wp_def split: prod.splits)
qed

theorem locks_and_slots_are_given_back_witness:
  "\<exists>actor s1 r. admit KIssue (issue example_env example_request actor ''r2'') s1 = (Ret r, example_issued)
     \<and> given_back s1 example_issued"
proof -
  obtain actor s1 r where "opened s1"
    and r: "admit KIssue (issue example_env example_request actor ''r2'') s1 = (Ret r, example_issued)"
    using example_admitted by blast
  from locks_and_slots_are_given_back [OF this(1), of example_env example_request actor "''r2''"] r
  have "given_back s1 example_issued" by simp
  with r show ?thesis by blast
qed


text \<open>
  Admission is bounded and has no side effect when it refuses: with all semaphores of its kind taken, a
  request is answered 503 and the state is exactly as before, for issuing, revoking, logging in and listing tables.
\<close>

theorem full_requests_are_refused:
  assumes "slots s KIssue = 0" and "slots s KRevoke = 0" and "slots s KAuth = 0"
  shows "portal_issue E r x req s = (Raise (http 503 ''too many concurrent issue operations''), s)
    \<and> portal_revoke E r x gid s = (Raise (http 503 ''too many concurrent revoke operations''), s)
    \<and> api_list_tables E db s = (Raise (http 503 ''too many concurrent issue operations''), s)
    \<and> do_login E r u q s = (Raise (http 503 ''too many concurrent auth operations''), s)"
  using assms
  by (simp add: portal_issue_def portal_revoke_def api_list_tables_def do_login_def busy_503_def admit_def
      catchM_def try_except_def bindM_def gets_def raise_def busy_def issue_error_def revoke_error_def http_def
      is_value_error_def)

theorem full_requests_are_refused_witness:
  "fst (do_login example_env example_http ''alice'' ''pw'' (example_start\<lparr>slots := \<lambda>_. 0\<rparr>))
     = Raise (http 503 ''too many concurrent auth operations'')"
  using full_requests_are_refused [of "example_start\<lparr>slots := \<lambda>_. 0\<rparr>" example_env example_http undefined
      example_request "[]" Postgres "''alice''" "''pw''"]
  by simp

text \<open>
  C18. A round of the reconciler leaves work in progress alone: an id that is in the in-flight set keeps its row exactly
  as it is and stays in the set, whatever the round does to the other rows and however it ends.
\<close>

theorem reconciler_spares_work_in_progress:
  assumes "gid \<in> inflight s"
  shows "gid \<in> inflight (snd (reconcile_once E s)) \<and> rows (snd (reconcile_once E s)) gid = rows s gid"
  using reconcile_once_spares [of gid E] assms by (simp add: keeps_def spared_def)

theorem reconciler_spares_work_in_progress_witness:
  "rows (snd (reconcile_once example_env (example_issued\<lparr>inflight := {example_gid}\<rparr>))) example_gid
     = rows example_issued example_gid \<and> rows example_issued example_gid \<noteq> None"
proof -
  have "example_gid \<in> inflight (example_issued\<lparr>inflight := {example_gid}\<rparr>)" by simp
  from reconciler_spares_work_in_progress [OF this, of example_env] show ?thesis
    using example_row(1) by (auto simp: rows_def row_def)
qed

section \<open>Secrets and termination\<close>

text \<open>
  C11. The password is seen once. Replace the password in every answer of Vault by any function of it: the state after
  issuing, with all three tables and everything sent to the outside world, is the same, and the answer differs
  only in the password it hands over. So no table, no audit line and no call contains anything of the password.
\<close>

theorem password_is_only_returned:
  "snd (issue (masked p E) req actor rid s) = snd (issue E req actor rid s)
   \<and> fst (issue (masked p E) req actor rid s) = on_answer (map_prod id p) (fst (issue E req actor rid s))"
  by (simp add: issue_masked on_return_run)

text \<open>
  C12. Everything ends. If the calls to the outside end, the clock does not run backwards and sleeping takes its time, then
  with the model's 68 rounds for the only loop without a bound of its own (terminating an account's backends, which gives up
  after 20 seconds of 0.3-second pauses) issuing, revoking and a round of the reconciler always come to an end.
\<close>

theorem operations_terminate:
  assumes "terminating E time"
  shows "fst (issue E req actor rid s) \<noteq> Diverge \<and> fst (revoke E gid actor rid s) \<noteq> Diverge
    \<and> fst (reconcile_once E s) \<noteq> Diverge"
  using conv_issue [OF assms] conv_revoke [OF assms] conv_reconcile [OF assms] by (simp add: converges_def)

theorem operations_terminate_witness:
  "fst (issue example_env example_request ''alice'' ''r1'' example_start) \<noteq> Diverge
   \<and> fst (revoke example_env example_gid ''alice'' ''r1'' example_issued) \<noteq> Diverge
   \<and> fst (reconcile_once example_env example_issued) \<noteq> Diverge"
  using operations_terminate [OF example_terminating] by blast

section \<open>Tokens that were lost\<close>

text \<open>A Vault with three tokens, one of them of the example's grant, and one accessor that has expired.\<close>

definition example_names :: "string \<rightharpoonup> string" where
  "example_names = [''a1'' \<mapsto> ''token-vdba-0000000000'', ''a2'' \<mapsto> ''token-vdba-0000000001'', ''a3'' \<mapsto> ''root'']"

definition directory_env :: "world env" where
  "directory_env = example_env\<lparr>
     clock := (\<lambda>w. (Some 1000, w)),
     vault_list := (\<lambda>c p w. (Ret (accessor_list [''a0'', ''a1'', ''a2'', ''a3'']), w)),
     vault_write := (\<lambda>c p a w. (token_answer (example_names (text_of (map_of a ''accessor''))), w))\<rparr>"

theorem token_search_is_complete_witness:
  "fst (find_token_accessors directory_env example_gid (example_start\<lparr>svc_client := Some ''svc'', svc_logged_in_at := 900\<rparr>))
     = Ret [''a1'']"
proof -
  have d: "token_directory directory_env [''a0'', ''a1'', ''a2'', ''a3''] example_names"
    by (simp add: token_directory_def directory_env_def)
  have l: "logged_in directory_env (example_start\<lparr>svc_client := Some ''svc'', svc_logged_in_at := 900\<rparr>)"
    by (simp add: logged_in_def directory_env_def RELOGIN_AFTER_def)
  show ?thesis
    unfolding token_search_is_complete [OF d l]
    by (simp add: named_def example_names_def wanted_names_def replace_char_def example_gid_def)
qed

section \<open>The catalog\<close>

text \<open>
  C22. The catalog never blocks a grant on the whole database. What it returns are valid identifiers, and the sequences
  are valid and belong to tables it lists, so database scope is refused only for the commands or because there
  is no table, never for a name.
\<close>

theorem catalog_is_grantable:
  "case catalog E db s of
     (Ret c, s') \<Rightarrow>
       list_all identifier_fullmatch (cat_tables c) \<and> dom (cat_sequences c) \<subseteq> set (cat_tables c)
       \<and> ((\<exists>r. build_statements db Database ts cs (set (cat_tables c)) (Some (cat_sequences c)) = Inr r) \<longleftrightarrow>
            cs \<noteq> [] \<and> set cs \<subseteq> set (allowed_commands_of db) \<and> cat_tables c \<noteq> [])
   | _ \<Rightarrow> True"
proof -
  obtain o' s' where m: "catalog E db s = (o', s')" by fastforce
  show ?thesis
  proof (cases o')
    case (Ret c)
    then have c: "list_all identifier_fullmatch (cat_tables c)" "dom (cat_sequences c) \<subseteq> set (cat_tables c)"
      "\<forall>t qs. cat_sequences c t = Some qs \<longrightarrow> list_all identifier_fullmatch qs"
      using catalog_valid [of E db s c s'] m by (auto simp: valid_catalogue_def)
    then have "acceptable db Database ts cs (set (cat_tables c)) (cat_sequences c) \<longleftrightarrow>
        cs \<noteq> [] \<and> set cs \<subseteq> set (allowed_commands_of db) \<and> cat_tables c \<noteq> []"
      by (auto simp: acceptable_def chosen_tables_def owned_sequences_def list_all_iff split: option.splits) metis
    then show ?thesis using m Ret c(1,2) by (simp add: build_statements_Inr)
  qed (use m in simp_all)
qed

end
